(* ===== verification/Prelude.thy ===== *)
theory Prelude
  imports Main
begin

text \<open>
  Shared vocabulary of the development: the fact collections the component
  theories add to, the names of the model's basic types, the error values of
  the modelled JavaScript, and the generic list and map lemmas that more
  than one component uses.
\<close>

section \<open>Fact collections\<close>

named_theorems js_simps "characteristic equations of the modelled built-ins"
named_theorems store_simps "read-over-write equations of the object store"
named_theorems frame_simps "fields and cells an operation leaves unchanged"

section \<open>Basic types\<close>

type_synonym addr = nat

type_synonym 'v dict = "string \<Rightarrow> 'v option"

text \<open>
  The only exception the modelled code can raise is the \<open>TypeError\<close> of a
  property read on \<open>undefined\<close>. A computation that may raise returns
  \<open>Inl\<close> of the error or \<open>Inr\<close> of its value.
\<close>

datatype error = TypeError

type_synonym 'a result = "error + 'a"

section \<open>Running a callback that may raise over a list\<close>

text \<open>
  \<open>mapM_result f xs\<close> applies \<open>f\<close> from left to right and stops at the
  first error, as a loop whose body throws does.
\<close>

fun mapM_result :: "('a \<Rightarrow> 'b result) \<Rightarrow> 'a list \<Rightarrow> 'b list result" where
  "mapM_result f [] = Inr []"
| "mapM_result f (x # xs) =
     (case f x of
        Inl e \<Rightarrow> Inl e
      | Inr y \<Rightarrow> (case mapM_result f xs of Inl e \<Rightarrow> Inl e | Inr ys \<Rightarrow> Inr (y # ys)))"

text \<open>Dropping the \<open>undefined\<close> entries of a list of optional values.\<close>

fun filter_defined :: "'a option list \<Rightarrow> 'a list" where
  "filter_defined [] = []"
| "filter_defined (None # xs) = filter_defined xs"
| "filter_defined (Some x # xs) = x # filter_defined xs"

lemma mapM_result_Inr_iff:
  "mapM_result f xs = Inr ys \<longleftrightarrow> list_all2 (\<lambda>x y. f x = Inr y) xs ys"
proof (induction xs arbitrary: ys)
  case Nil
  show ?case by auto
next
  case (Cons x xs)
  show ?case
  proof (cases "f x")
    case (Inl e)
    then show ?thesis by (auto simp: list_all2_Cons1)
  next
    case fx: (Inr y)
    show ?thesis
    proof (cases "mapM_result f xs")
      case (Inl e)
      with Cons.IH have "\<And>zs. \<not> list_all2 (\<lambda>x y. f x = Inr y) xs zs" by simp
      with fx Inl show ?thesis by (auto simp: list_all2_Cons1)
    next
      case (Inr zs)
      have "list_all2 (\<lambda>x y. f x = Inr y) xs ws \<longleftrightarrow> ws = zs" for ws
        using Cons.IH [of ws] Inr by auto
      with fx Inr show ?thesis by (auto simp: list_all2_Cons1)
    qed
  qed
qed

lemma mapM_result_length:
  "mapM_result f xs = Inr ys \<Longrightarrow> length ys = length xs"
  by (simp add: mapM_result_Inr_iff list_all2_lengthD)

lemma mapM_result_Inl_iff:
  "(\<exists>e. mapM_result f xs = Inl e) \<longleftrightarrow> (\<exists>x \<in> set xs. \<exists>e. f x = Inl e)"
  by (induction xs) (auto split: sum.splits)

lemma mapM_result_total:
  "(\<And>x. x \<in> set xs \<Longrightarrow> \<exists>y. f x = Inr y) \<Longrightarrow> \<exists>ys. mapM_result f xs = Inr ys"
proof -
  assume ok: "\<And>x. x \<in> set xs \<Longrightarrow> \<exists>y. f x = Inr y"
  have "\<not> (\<exists>e. mapM_result f xs = Inl e)"
    unfolding mapM_result_Inl_iff using ok by fastforce
  then show ?thesis by (cases "mapM_result f xs") auto
qed

lemma mapM_result_append:
  "mapM_result f (xs @ zs) =
     (case mapM_result f xs of
        Inl e \<Rightarrow> Inl e
      | Inr ys \<Rightarrow> (case mapM_result f zs of Inl e \<Rightarrow> Inl e | Inr ws \<Rightarrow> Inr (ys @ ws)))"
  by (induction xs) (auto split: sum.splits)

lemma mapM_result_Inr_map:
  "mapM_result (\<lambda>x. Inr (g x)) xs = Inr (map g xs)"
  by (induction xs) auto

lemma mapM_result_cong:
  "(\<And>x. x \<in> set xs \<Longrightarrow> f x = g x) \<Longrightarrow> mapM_result f xs = mapM_result g xs"
  by (induction xs) (auto split: sum.splits)

lemma mapM_result_set:
  "mapM_result f xs = Inr ys \<Longrightarrow> set ys = {y. \<exists>x \<in> set xs. f x = Inr y}"
proof (induction xs arbitrary: ys)
  case Nil
  then show ?case by auto
next
  case (Cons x xs)
  from Cons.prems obtain z zs where "f x = Inr z" "mapM_result f xs = Inr zs" "ys = z # zs"
    by (auto split: sum.splits)
  with Cons.IH [of zs] show ?case by auto
qed

lemma filter_defined_append [simp]:
  "filter_defined (xs @ ys) = filter_defined xs @ filter_defined ys"
  by (induction xs rule: filter_defined.induct) auto

lemma set_filter_defined [simp]:
  "set (filter_defined xs) = {x. Some x \<in> set xs}"
  by (induction xs rule: filter_defined.induct) auto

lemma filter_defined_map_Some [simp]:
  "filter_defined (map Some xs) = xs"
  by (induction xs) auto

lemma length_filter_defined_le:
  "length (filter_defined xs) \<le> length xs"
  by (induction xs rule: filter_defined.induct) auto

lemma filter_defined_concat:
  "filter_defined xs = concat (map (\<lambda>r. case r of None \<Rightarrow> [] | Some x \<Rightarrow> [x]) xs)"
  by (induction xs rule: filter_defined.induct) auto

lemma filter_defined_eq_map_the:
  "filter_defined xs = map the (filter (\<lambda>r. r \<noteq> None) xs)"
  by (induction xs rule: filter_defined.induct) auto

section \<open>Lists without repetition that grow at the end\<close>

lemma distinct_snoc_iff:
  "distinct (xs @ [x]) \<longleftrightarrow> distinct xs \<and> x \<notin> set xs"
  by auto

text \<open>A list is cut at the first occurrence of an element in one way only.\<close>

lemma append_sep_unique:
  "c \<notin> set xs \<Longrightarrow> c \<notin> set xs' \<Longrightarrow> xs @ c # ys = xs' @ c # ys' \<Longrightarrow>
   xs = xs' \<and> ys = ys'"
proof (induction xs arbitrary: xs')
  case Nil
  then show ?case by (cases xs') auto
next
  case (Cons x xs)
  then show ?case by (cases xs') auto
qed

lemma fun_upd_same_value:
  "f a = v \<Longrightarrow> f(a := v) = f"
  by auto

section \<open>Counting the elements of a list that satisfy a predicate\<close>

lemma length_filter_mono:
  "(\<And>x. x \<in> set xs \<Longrightarrow> P x \<Longrightarrow> Q x) \<Longrightarrow> length (filter P xs) \<le> length (filter Q xs)"
  by (induction xs) auto

lemma length_filter_subset:
  assumes "distinct xs'" and "set xs' \<subseteq> set xs"
  shows "length (filter P xs') \<le> length (filter P xs)"
proof -
  have "length (filter P xs') = card (set (filter P xs'))"
    by (rule distinct_card [symmetric]) (simp add: assms(1))
  also have "\<dots> \<le> card (set (filter P xs))"
    by (rule card_mono) (use assms(2) in auto)
  also have "\<dots> \<le> length (filter P xs)" by (rule card_length)
  finally show ?thesis .
qed

lemma sum_list_indicator_none:
  "(\<And>a. a \<in> set cs \<Longrightarrow> \<not> P a) \<Longrightarrow> sum_list (map (\<lambda>a. if P a then 1 else 0) cs) = (0::nat)"
  by (induction cs) auto

lemma sum_list_indicator_le:
  assumes "distinct cs" and "\<And>a b. P a \<Longrightarrow> P b \<Longrightarrow> a = b"
  shows "sum_list (map (\<lambda>a. if P a then 1 else 0) cs) \<le> (1::nat)"
  using assms(1)
proof (induction cs)
  case Nil
  show ?case by simp
next
  case (Cons c cs)
  show ?case
  proof (cases "P c")
    case True
    with Cons.prems assms(2) have "\<not> P a" if "a \<in> set cs" for a
      using that by auto
    then have "sum_list (map (\<lambda>a. if P a then 1 else 0) cs) = (0::nat)"
      by (rule sum_list_indicator_none)
    with True show ?thesis by simp
  next
    case False
    with Cons show ?thesis by simp
  qed
qed

text \<open>
  Predicates of which no two hold of the same element count disjoint parts
  of a list.
\<close>

lemma sum_list_length_filter_le:
  assumes "distinct cs" and "\<And>x a b. P a x \<Longrightarrow> P b x \<Longrightarrow> a = b"
  shows "sum_list (map (\<lambda>a. length (filter (P a) xs)) cs) \<le>
         length (filter (\<lambda>x. \<exists>a \<in> set cs. P a x) xs)"
proof (induction xs)
  case Nil
  show ?case by simp
next
  case (Cons x xs)
  have split: "length (filter (P a) (x # xs)) =
      (if P a x then 1 else 0) + length (filter (P a) xs)" for a
    by simp
  have ind: "sum_list (map (\<lambda>a. if P a x then 1 else 0) cs) \<le>
      (if \<exists>a \<in> set cs. P a x then (1::nat) else 0)"
  proof (cases "\<exists>a \<in> set cs. P a x")
    case True
    with sum_list_indicator_le [of cs "\<lambda>a. P a x"] assms show ?thesis by auto
  next
    case False
    with sum_list_indicator_none [of cs "\<lambda>a. P a x"] show ?thesis by auto
  qed
  have "sum_list (map (\<lambda>a. length (filter (P a) (x # xs))) cs) =
        sum_list (map (\<lambda>a. if P a x then 1 else 0) cs) +
        sum_list (map (\<lambda>a. length (filter (P a) xs)) cs)"
    unfolding split by (rule sum_list_addf)
  also have "\<dots> \<le> (if \<exists>a \<in> set cs. P a x then 1 else 0) +
      length (filter (\<lambda>x. \<exists>a \<in> set cs. P a x) xs)"
    by (rule add_mono [OF ind Cons.IH])
  also have "\<dots> = length (filter (\<lambda>x. \<exists>a \<in> set cs. P a x) (x # xs))"
    by simp
  finally show ?case .
qed

end
