(* ===== verification/Types.thy ===== *)
theory Types
  imports Prelude
begin

text \<open>
  The data the plugin works on, one declaration per interface, enum or
  object shape of the sources: the function definitions and the service
  object of the host tool as far as the sources read and write them, and
  the types that \<^verbatim>\<open>src/src/layer.ts\<close>, \<^verbatim>\<open>src/src/util.ts\<close> and
  \<^verbatim>\<open>src/src/env.ts\<close> declare. A property that may be absent from an
  object is a field of type \<open>option\<close>, with \<open>None\<close> for \<^verbatim>\<open>undefined\<close>.
  Where two shapes have a field of the same name, the later declaration
  owns the short name and the earlier one is written qualified, as in
  \<open>FunctionDefinition.handler\<close>.
\<close>

section \<open>Function definitions of the host tool\<close>

text \<open>
  A function definition as the sources use it: the handler reference, the
  declared runtime and the layer list. The layer list is a reference to an
  array in the store, since \<^verbatim>\<open>applyLayers\<close> appends to that array in
  place. The test suite builds definitions without a handler, so the field
  is optional although the host tool's typings declare it.
\<close>

record FunctionDefinition =
  handler :: "string option"
  runtime :: "string option"
  layers :: "addr option"

section \<open>Types of layer.ts\<close>

datatype RuntimeType = NODE | NODE_TS | NODE_ES6 | PYTHON | UNSUPPORTED

text \<open>
  \<open>handler\<close> is the address of the function definition object: the
  record and the service share the object, they do not copy it.
\<close>

record HandlerInfo =
  name :: string
  type :: RuntimeType
  handler :: addr
  runtime :: "string option"

record LayerJSON =
  regions :: "string dict dict"

section \<open>Result of getHandlerPath in util.ts\<close>

record HandlerPath =
  "method" :: string
  filename :: string

section \<open>Types of env.ts\<close>

datatype NodeModuleType = es6 | node | typescript

text \<open>
  \<open>Partial_Configuration\<close> is \<^verbatim>\<open>Partial<Configuration>\<close>, the shape of the
  \<^verbatim>\<open>custom.datadog\<close> section: every field may be absent.
\<close>

record Partial_Configuration =
  addLayers :: "bool option"
  apiKey :: "string option"
  apiKMSKey :: "string option"
  site :: "string option"
  logLevel :: "string option"
  flushMetricsToLogs :: "bool option"
  nodeModuleType :: "NodeModuleType option"

record Configuration =
  addLayers :: bool
  apiKey :: "string option"
  apiKMSKey :: "string option"
  site :: string
  logLevel :: string
  flushMetricsToLogs :: bool
  nodeModuleType :: "NodeModuleType option"

section \<open>The service object of the host tool\<close>

text \<open>
  Values of the provider's environment map: the strings and the boolean
  that \<^verbatim>\<open>setEnvConfiguration\<close> stores, and \<^verbatim>\<open>null\<close>, which a user's
  configuration may hold and which is not \<^verbatim>\<open>undefined\<close>.
\<close>

datatype env_value = EnvNull | EnvString string | EnvBoolean bool

record Provider =
  region :: string
  environment :: "env_value dict option"

record Custom =
  datadog :: "Partial_Configuration option"

text \<open>
  \<open>functions\<close> lists the entries of the service's function table in the
  order \<^verbatim>\<open>Object.entries\<close> yields them, each with the address of its
  definition object.
\<close>

record Service =
  "functions" :: "(string \<times> addr) list"
  plugins :: "string list option"
  provider :: Provider
  custom :: "Custom option"

end
