(* ===== verification/Store.thy ===== *)
theory Store
  imports Types
begin

text \<open>
  The object store: the function definition objects and the layer arrays
  that the plugin reads and mutates through references. Two objects may
  refer to the same array and two handler records to the same object, so
  what an in-place append does to the others is visible in the model.
  The theory gives the store, its primitive operations with their
  read-over-write equations, and the predicates on stores that the
  components preserve.
\<close>

section \<open>The store and its primitives\<close>

text \<open>
  Objects live at the addresses below \<open>obj_lim\<close>, arrays at the addresses
  below \<open>arr_lim\<close>; a new array takes the address \<open>arr_lim\<close>.
\<close>

record heap =
  objs :: "addr \<Rightarrow> FunctionDefinition"
  obj_lim :: addr
  arrs :: "addr \<Rightarrow> string list"
  arr_lim :: addr

definition empty_heap :: heap where
  "empty_heap =
     \<lparr>objs = (\<lambda>_. \<lparr>FunctionDefinition.handler = None, runtime = None, layers = None\<rparr>),
      obj_lim = 0, arrs = (\<lambda>_. []), arr_lim = 0\<rparr>"

text \<open>An array literal: a fresh array with the given elements.\<close>

definition alloc_array :: "string list \<Rightarrow> heap \<Rightarrow> addr \<times> heap" where
  "alloc_array xs h =
     (arr_lim h, h\<lparr>arrs := (arrs h)(arr_lim h := xs), arr_lim := Suc (arr_lim h)\<rparr>)"

text \<open>An object literal: a fresh function definition object.\<close>

definition alloc_obj :: "FunctionDefinition \<Rightarrow> heap \<Rightarrow> addr \<times> heap" where
  "alloc_obj fd h =
     (obj_lim h, h\<lparr>objs := (objs h)(obj_lim h := fd), obj_lim := Suc (obj_lim h)\<rparr>)"

text \<open>\<^verbatim>\<open>Array.prototype.push\<close>: append to the array at an address, in place.\<close>

definition array_push :: "addr \<Rightarrow> string \<Rightarrow> heap \<Rightarrow> heap" where
  "array_push r x h = h\<lparr>arrs := (arrs h)(r := arrs h r @ [x])\<rparr>"

text \<open>Assignment to the \<open>layers\<close> property of the object at an address.\<close>

definition set_layers :: "addr \<Rightarrow> addr \<Rightarrow> heap \<Rightarrow> heap" where
  "set_layers a r h = h\<lparr>objs := (objs h)(a := (objs h a)\<lparr>layers := Some r\<rparr>)\<rparr>"

text \<open>The layer list of an object as a value: the contents of its array.\<close>

definition layers_of :: "heap \<Rightarrow> addr \<Rightarrow> string list option" where
  "layers_of h a = map_option (arrs h) (layers (objs h a))"

section \<open>Predicates on stores\<close>

text \<open>Every layer reference of a live object points to a live array.\<close>

definition wf_heap :: "heap \<Rightarrow> bool" where
  "wf_heap h \<longleftrightarrow> (\<forall>a < obj_lim h. \<forall>r. layers (objs h a) = Some r \<longrightarrow> r < arr_lim h)"

text \<open>No two live objects share a layer array.\<close>

definition separated :: "heap \<Rightarrow> bool" where
  "separated h \<longleftrightarrow>
     (\<forall>a < obj_lim h. \<forall>b < obj_lim h. \<forall>r.
        layers (objs h a) = Some r \<and> layers (objs h b) = Some r \<longrightarrow> a = b)"

text \<open>No live array holds an element twice.\<close>

definition no_dups :: "heap \<Rightarrow> bool" where
  "no_dups h \<longleftrightarrow> (\<forall>r < arr_lim h. distinct (arrs h r))"

text \<open>
  \<open>heap_le h h'\<close>: from \<open>h\<close> to \<open>h'\<close> nothing was freed and every array that
  was live only grew at its end.
\<close>

definition heap_le :: "heap \<Rightarrow> heap \<Rightarrow> bool" where
  "heap_le h h' \<longleftrightarrow>
     obj_lim h = obj_lim h' \<and> arr_lim h \<le> arr_lim h' \<and>
     (\<forall>r < arr_lim h. \<exists>ys. arrs h' r = arrs h r @ ys)"

section \<open>Read-over-write equations\<close>

lemma alloc_array_fst [store_simps]: "fst (alloc_array xs h) = arr_lim h"
  by (simp add: alloc_array_def)

lemma alloc_array_snd [store_simps]:
  "arrs (snd (alloc_array xs h)) = (arrs h)(arr_lim h := xs)"
  "arr_lim (snd (alloc_array xs h)) = Suc (arr_lim h)"
  "objs (snd (alloc_array xs h)) = objs h"
  "obj_lim (snd (alloc_array xs h)) = obj_lim h"
  by (simp_all add: alloc_array_def)

lemma alloc_obj_fst [store_simps]: "fst (alloc_obj fd h) = obj_lim h"
  by (simp add: alloc_obj_def)

lemma alloc_obj_snd [store_simps]:
  "objs (snd (alloc_obj fd h)) = (objs h)(obj_lim h := fd)"
  "obj_lim (snd (alloc_obj fd h)) = Suc (obj_lim h)"
  "arrs (snd (alloc_obj fd h)) = arrs h"
  "arr_lim (snd (alloc_obj fd h)) = arr_lim h"
  by (simp_all add: alloc_obj_def)

lemma array_push_fields [store_simps]:
  "arrs (array_push r x h) = (arrs h)(r := arrs h r @ [x])"
  "arr_lim (array_push r x h) = arr_lim h"
  "objs (array_push r x h) = objs h"
  "obj_lim (array_push r x h) = obj_lim h"
  by (simp_all add: array_push_def)

lemma set_layers_fields [store_simps]:
  "objs (set_layers a r h) = (objs h)(a := (objs h a)\<lparr>layers := Some r\<rparr>)"
  "obj_lim (set_layers a r h) = obj_lim h"
  "arrs (set_layers a r h) = arrs h"
  "arr_lim (set_layers a r h) = arr_lim h"
  by (simp_all add: set_layers_def)

lemma set_layers_same:
  "layers (objs h a) = Some r \<Longrightarrow> set_layers a r h = h"
  by (simp add: set_layers_def fun_upd_same_value)

lemma layers_of_simps [store_simps]:
  "layers (objs h a) = None \<Longrightarrow> layers_of h a = None"
  "layers (objs h a) = Some r \<Longrightarrow> layers_of h a = Some (arrs h r)"
  by (simp_all add: layers_of_def)

section \<open>The predicates under the primitives\<close>

lemma wf_heap_empty [simp]: "wf_heap empty_heap"
  by (simp add: wf_heap_def empty_heap_def)

lemma wf_heapD: "wf_heap h \<Longrightarrow> a < obj_lim h \<Longrightarrow> layers (objs h a) = Some r \<Longrightarrow> r < arr_lim h"
  by (auto simp: wf_heap_def)

lemma wf_heap_alloc_array: "wf_heap h \<Longrightarrow> wf_heap (snd (alloc_array xs h))"
  by (fastforce simp: wf_heap_def store_simps)

lemma wf_heap_array_push: "wf_heap h \<Longrightarrow> wf_heap (array_push r x h)"
  by (simp add: wf_heap_def store_simps)

lemma wf_heap_set_layers:
  "wf_heap h \<Longrightarrow> r < arr_lim h \<Longrightarrow> wf_heap (set_layers a r h)"
  by (auto simp: wf_heap_def store_simps)

lemma wf_heap_alloc_obj:
  "wf_heap h \<Longrightarrow> (\<And>r. layers fd = Some r \<Longrightarrow> r < arr_lim h) \<Longrightarrow>
   wf_heap (snd (alloc_obj fd h))"
  by (auto simp: wf_heap_def store_simps less_Suc_eq)

lemma no_dups_empty [simp]: "no_dups empty_heap"
  by (simp add: no_dups_def empty_heap_def)

lemma no_dups_alloc_array:
  "no_dups h \<Longrightarrow> distinct xs \<Longrightarrow> no_dups (snd (alloc_array xs h))"
  by (auto simp: no_dups_def store_simps less_Suc_eq)

lemma no_dups_array_push:
  "no_dups h \<Longrightarrow> x \<notin> set (arrs h r) \<Longrightarrow> no_dups (array_push r x h)"
  by (auto simp: no_dups_def store_simps)

lemma no_dups_set_layers: "no_dups (set_layers a r h) = no_dups h"
  by (simp add: no_dups_def store_simps)

lemma no_dups_alloc_obj: "no_dups (snd (alloc_obj fd h)) = no_dups h"
  by (simp add: no_dups_def store_simps)

lemma heap_le_refl [simp]: "heap_le h h"
  by (simp add: heap_le_def)

lemma heap_le_trans: "heap_le h1 h2 \<Longrightarrow> heap_le h2 h3 \<Longrightarrow> heap_le h1 h3"
  unfolding heap_le_def
  by (metis append_assoc le_trans less_le_trans)

lemma heap_le_alloc_array: "heap_le h (snd (alloc_array xs h))"
  by (simp add: heap_le_def store_simps)

lemma heap_le_array_push: "heap_le h (array_push r x h)"
  by (simp add: heap_le_def store_simps)

lemma heap_le_set_layers: "heap_le h (set_layers a r h)"
  by (simp add: heap_le_def store_simps)

lemma heap_le_prefix:
  "heap_le h h' \<Longrightarrow> r < arr_lim h \<Longrightarrow> take (length (arrs h r)) (arrs h' r) = arrs h r"
  by (auto simp: heap_le_def)

lemma heap_le_subset:
  "heap_le h h' \<Longrightarrow> r < arr_lim h \<Longrightarrow> set (arrs h r) \<subseteq> set (arrs h' r)"
  by (fastforce simp: heap_le_def)

end
