(* ===== verification/Fixtures.thy ===== *)
theory Fixtures
  imports Store
begin

text \<open>
  The objects that the test suite \<^verbatim>\<open>src/unnamed/part_000\<close> builds, as stores,
  handler records, layer tables, services and file systems. The component
  theories use them as the concrete inputs of their examples, and the
  theory of the test suite proves what the tests expect of them. The
  tests leave the name of a handler record out where the code under test
  does not read it; such a record takes the name as a parameter.
\<close>

section \<open>Fixtures of the applyLayers tests\<close>

text \<open>A store with the one function definition \<^verbatim>\<open>{ runtime: "nodejs10.x" }\<close>.\<close>

definition heap_node :: heap where
  "heap_node =
     snd (alloc_obj
       \<lparr>FunctionDefinition.handler = None, runtime = Some ''nodejs10.x'', layers = None\<rparr>
       empty_heap)"

text \<open>The same definition with the layer list \<^verbatim>\<open>["node:1"]\<close>.\<close>

definition heap_node_layer1 :: heap where
  "heap_node_layer1 =
     (let (r, h) = alloc_array [''node:1''] empty_heap in
      snd (alloc_obj
        \<lparr>FunctionDefinition.handler = None, runtime = Some ''nodejs10.x'', layers = Some r\<rparr>
        h))"

text \<open>A store with the empty function definition \<^verbatim>\<open>{}\<close>.\<close>

definition heap_bare :: heap where
  "heap_bare =
     snd (alloc_obj
       \<lparr>FunctionDefinition.handler = None, runtime = None, layers = None\<rparr>
       empty_heap)"

text \<open>The handler records of the tests; the definition is the object at address 0.\<close>

definition hi_node :: "string \<Rightarrow> HandlerInfo" where
  "hi_node nm = \<lparr>name = nm, type = NODE, handler = 0, runtime = Some ''nodejs10.x''\<rparr>"

definition hi_unsupported :: "string \<Rightarrow> HandlerInfo" where
  "hi_unsupported nm = \<lparr>name = nm, type = UNSUPPORTED, handler = 0, runtime = None\<rparr>"

text \<open>The layer tables of the tests.\<close>

definition layers_node2 :: LayerJSON where
  "layers_node2 = \<lparr>regions = [''us-east-1'' \<mapsto> [''nodejs10.x'' \<mapsto> ''node:2'']]\<rparr>"

definition layers_node1 :: LayerJSON where
  "layers_node1 = \<lparr>regions = [''us-east-1'' \<mapsto> [''nodejs10.x'' \<mapsto> ''node:1'']]\<rparr>"

definition layers_python :: LayerJSON where
  "layers_python = \<lparr>regions = [''us-east-1'' \<mapsto> [''python2.7'' \<mapsto> ''python:2'']]\<rparr>"

section \<open>Fixtures of the findHandlers tests\<close>

text \<open>
  \<open>alloc_funcs\<close> builds the function table of a test: the definitions are
  allocated in the order of the object literal and entered under their names.
\<close>

fun alloc_funcs :: "(string \<times> FunctionDefinition) list \<Rightarrow> heap \<Rightarrow> (string \<times> addr) list \<times> heap" where
  "alloc_funcs [] h = ([], h)"
| "alloc_funcs ((nm, fd) # fs) h =
     (let (a, h1) = alloc_obj fd h; (es, h2) = alloc_funcs fs h1 in ((nm, a) # es, h2))"

definition createMockService :: "string \<Rightarrow> (string \<times> addr) list \<Rightarrow> string list option \<Rightarrow> Service" where
  "createMockService rgn funcs plgs =
     \<lparr>functions = funcs, plugins = plgs,
      provider = \<lparr>region = rgn, environment = None\<rparr>, custom = None\<rparr>"

text \<open>A function definition with handler and runtime and no layers.\<close>

definition fn :: "string \<Rightarrow> string option \<Rightarrow> FunctionDefinition" where
  "fn hdl rt = \<lparr>FunctionDefinition.handler = Some hdl, runtime = rt, layers = None\<rparr>"

text \<open>The eight functions of the first test.\<close>

definition funcs_all :: "(string \<times> FunctionDefinition) list" where
  "funcs_all =
     [(''func-a'', fn ''myfile.handler'' (Some ''nodejs8.10'')),
      (''func-b'', fn ''myfile.handler'' (Some ''go1.10'')),
      (''func-c'', fn ''myfile.handler'' (Some ''nodejs10.x'')),
      (''func-d'', fn ''myfile.handler'' (Some ''python2.7'')),
      (''func-e'', fn ''myfile.handler'' (Some ''python3.6'')),
      (''func-f'', fn ''myfile.handler'' (Some ''python3.7'')),
      (''func-g'', fn ''myfile.handler'' (Some ''python3.8'')),
      (''func-h'', fn ''myfile.handler'' (Some ''nodejs12.x''))]"

text \<open>The one function of the second test, without a runtime of its own.\<close>

definition funcs_global :: "(string \<times> FunctionDefinition) list" where
  "funcs_global = [(''func-a'', fn ''myfile.handler'' None)]"

text \<open>The one function of the tests on source dialects.\<close>

definition funcs_mylambda :: "(string \<times> FunctionDefinition) list" where
  "funcs_mylambda = [(''func-a'', fn ''mylambda.handler'' (Some ''nodejs8.10''))]"

text \<open>
  The service of a test and the store its function definitions live in:
  region \<^verbatim>\<open>us-east-1\<close>, the given functions and plugin list.
\<close>

definition heap_of :: "(string \<times> FunctionDefinition) list \<Rightarrow> heap" where
  "heap_of funcs = snd (alloc_funcs funcs empty_heap)"

definition service_of :: "(string \<times> FunctionDefinition) list \<Rightarrow> string list option \<Rightarrow> Service" where
  "service_of funcs plgs =
     createMockService ''us-east-1'' (fst (alloc_funcs funcs empty_heap)) plgs"

text \<open>
  The file system that \<^verbatim>\<open>mock\<close> installs: exactly the given files exist, and
  a path names a file relative to the working directory.
\<close>

definition mock :: "string list \<Rightarrow> string \<Rightarrow> bool" where
  "mock files p \<longleftrightarrow> p \<in> set (map (\<lambda>f. ''./'' @ f) files)"

lemmas fixture_defs =
  heap_of_def service_of_def createMockService_def fn_def mock_def
  funcs_all_def funcs_global_def funcs_mylambda_def
  alloc_obj_def alloc_array_def empty_heap_def

lemma alloc_funcs_names: "map fst (fst (alloc_funcs fs h)) = map fst fs"
  by (induction fs h rule: alloc_funcs.induct) (auto simp: alloc_obj_def split: prod.splits)

lemma alloc_funcs_obj_lim: "obj_lim (snd (alloc_funcs fs h)) = obj_lim h + length fs"
  by (induction fs h rule: alloc_funcs.induct) (auto simp: alloc_obj_def split: prod.splits)

lemma heap_node_simps [simp]:
  "obj_lim heap_node = 1" "arr_lim heap_node = 0"
  "objs heap_node 0 =
     \<lparr>FunctionDefinition.handler = None, runtime = Some ''nodejs10.x'', layers = None\<rparr>"
  by (simp_all add: heap_node_def alloc_obj_def empty_heap_def)

lemma heap_node_layer1_simps [simp]:
  "obj_lim heap_node_layer1 = 1" "arr_lim heap_node_layer1 = 1"
  "objs heap_node_layer1 0 =
     \<lparr>FunctionDefinition.handler = None, runtime = Some ''nodejs10.x'', layers = Some 0\<rparr>"
  "arrs heap_node_layer1 0 = [''node:1'']"
  by (simp_all add: heap_node_layer1_def alloc_obj_def alloc_array_def empty_heap_def)

lemma heap_bare_simps [simp]:
  "obj_lim heap_bare = 1" "arr_lim heap_bare = 0"
  "objs heap_bare 0 = \<lparr>FunctionDefinition.handler = None, runtime = None, layers = None\<rparr>"
  by (simp_all add: heap_bare_def alloc_obj_def empty_heap_def)

lemma fixtures_wf [simp]:
  "wf_heap heap_node" "wf_heap heap_node_layer1" "wf_heap heap_bare"
  by (simp_all add: wf_heap_def)

lemma fixtures_no_dups [simp]:
  "no_dups heap_node" "no_dups heap_node_layer1" "no_dups heap_bare"
  by (simp_all add: no_dups_def)

lemma fixtures_separated [simp]:
  "separated heap_node" "separated heap_node_layer1" "separated heap_bare"
  by (simp_all add: separated_def)

end
