(* ===== verification/Apply_Layers.thy ===== *)
theory Apply_Layers
  imports Fixtures
begin

text \<open>
  \<^verbatim>\<open>applyLayers\<close> of \<^verbatim>\<open>src/src/layer.ts\<close> with its helpers \<^verbatim>\<open>getLayers\<close> and
  \<^verbatim>\<open>setLayers\<close>: for every handler record of a supported runtime, the
  layer of its runtime in the deployment region is appended to the layer
  array of the function definition, unless the array holds it already.
  The operations work on the store, since the arrays are changed in place.
  The theory proves what one pass does to the store and what it keeps.
\<close>

section \<open>getLayers, setLayers and applyLayers\<close>

text \<open>
  \<open>getLayers\<close> gives the layer array of the definition, or a new empty
  array when the definition has none; the new array is not yet attached
  to the definition.
\<close>

definition getLayers :: "heap \<Rightarrow> HandlerInfo \<Rightarrow> addr \<times> heap" where
  "getLayers h hi =
     (case layers (objs h (handler hi)) of
        None \<Rightarrow> alloc_array [] h
      | Some layersList \<Rightarrow> (layersList, h))"

definition setLayers :: "HandlerInfo \<Rightarrow> addr \<Rightarrow> heap \<Rightarrow> heap" where
  "setLayers hi ls h = set_layers (handler hi) ls h"

text \<open>The body of the loop of \<open>applyLayers\<close>, for one handler record.\<close>

definition applyLayers_body :: "string dict \<Rightarrow> HandlerInfo \<Rightarrow> heap \<Rightarrow> heap" where
  "applyLayers_body regionRuntimes hi h =
     (if type hi = UNSUPPORTED then h
      else
        (let layerARN = (case runtime hi of None \<Rightarrow> None | Some r \<Rightarrow> regionRuntimes r) in
         case layerARN of
           None \<Rightarrow> h
         | Some arn \<Rightarrow>
             (let (currentLayers, h1) = getLayers h hi;
                  h2 = (if arn \<notin> set (arrs h1 currentLayers)
                        then array_push currentLayers arn h1 else h1)
              in setLayers hi currentLayers h2)))"

definition applyLayers :: "string \<Rightarrow> HandlerInfo list \<Rightarrow> LayerJSON \<Rightarrow> heap \<Rightarrow> heap" where
  "applyLayers rgn handlers lj h =
     (case regions lj rgn of
        None \<Rightarrow> h
      | Some regionRuntimes \<Rightarrow> fold (applyLayers_body regionRuntimes) handlers h)"

section \<open>Auxiliary notions\<close>

text \<open>The layer that a handler record asks for, if any.\<close>

definition layer_arn :: "string dict \<Rightarrow> HandlerInfo \<Rightarrow> string option" where
  "layer_arn regionRuntimes hi =
     (if type hi = UNSUPPORTED then None
      else case runtime hi of None \<Rightarrow> None | Some r \<Rightarrow> regionRuntimes r)"

text \<open>The table of the region, empty when the layer table lacks the region.\<close>

definition region_table :: "LayerJSON \<Rightarrow> string \<Rightarrow> string dict" where
  "region_table lj rgn = (case regions lj rgn of None \<Rightarrow> Map.empty | Some rr \<Rightarrow> rr)"

text \<open>
  A handler record for which the pass has to create a layer array: it asks
  for a layer, and its function definition has no layer list.
\<close>

definition needs_array :: "string dict \<Rightarrow> heap \<Rightarrow> HandlerInfo \<Rightarrow> bool" where
  "needs_array rr h hi \<longleftrightarrow> layer_arn rr hi \<noteq> None \<and> layers (objs h (handler hi)) = None"

text \<open>The layers that the handler records ask for, each once.\<close>

definition asked_layers :: "string dict \<Rightarrow> HandlerInfo list \<Rightarrow> string list" where
  "asked_layers rr handlers =
     remdups (concat (map (\<lambda>hi. case layer_arn rr hi of None \<Rightarrow> [] | Some arn \<Rightarrow> [arn])
       handlers))"

text \<open>Every handler record refers to a live function definition.\<close>

definition valid_handlers :: "heap \<Rightarrow> HandlerInfo list \<Rightarrow> bool" where
  "valid_handlers h handlers \<longleftrightarrow> (\<forall>hi \<in> set handlers. handler hi < obj_lim h)"

text \<open>
  A handler record is settled in a store when the loop body has nothing
  left to do for it.
\<close>

definition settled :: "string dict \<Rightarrow> heap \<Rightarrow> HandlerInfo \<Rightarrow> bool" where
  "settled regionRuntimes h hi \<longleftrightarrow>
     (case layer_arn regionRuntimes hi of
        None \<Rightarrow> True
      | Some arn \<Rightarrow>
          (case layers (objs h (handler hi)) of
             None \<Rightarrow> False
           | Some r \<Rightarrow> r < arr_lim h \<and> arn \<in> set (arrs h r)))"

text \<open>
  Two stores for examples. In the first, a Node function and a Python
  function share one layer array, as two entries of a configuration do
  that refer to the same list. In the second, the layer list of the one
  function holds an element twice.
\<close>

definition heap_shared :: heap where
  "heap_shared =
     (let (r, h0) = alloc_array [] empty_heap;
          (a, h1) = alloc_obj \<lparr>FunctionDefinition.handler = Some ''a.handler'',
                      runtime = Some ''nodejs10.x'', layers = Some r\<rparr> h0;
          (b, h2) = alloc_obj \<lparr>FunctionDefinition.handler = Some ''b.handler'',
                      runtime = Some ''python2.7'', layers = Some r\<rparr> h1
      in h2)"

definition handlers_shared :: "HandlerInfo list" where
  "handlers_shared =
     [\<lparr>name = ''a'', type = NODE, handler = 0, runtime = Some ''nodejs10.x''\<rparr>,
      \<lparr>name = ''b'', type = PYTHON, handler = 1, runtime = Some ''python2.7''\<rparr>]"

definition layers_both :: LayerJSON where
  "layers_both =
     \<lparr>regions = [''us-east-1'' \<mapsto> [''nodejs10.x'' \<mapsto> ''node:2'', ''python2.7'' \<mapsto> ''python:2'']]\<rparr>"

definition heap_twice :: heap where
  "heap_twice =
     (let (r, h0) = alloc_array [''x'', ''x''] empty_heap in
      snd (alloc_obj \<lparr>FunctionDefinition.handler = None,
             runtime = Some ''nodejs10.x'', layers = Some r\<rparr> h0))"

section \<open>The three cases of the loop body\<close>

lemma applyLayers_body_skip:
  "layer_arn rr hi = None \<Longrightarrow> applyLayers_body rr hi h = h"
  by (auto simp: applyLayers_body_def layer_arn_def split: option.splits if_splits)

lemma applyLayers_body_fresh:
  assumes "layer_arn rr hi = Some arn" and "layers (objs h (handler hi)) = None"
  shows "applyLayers_body rr hi h =
           set_layers (handler hi) (arr_lim h)
             (array_push (arr_lim h) arn (snd (alloc_array [] h)))"
  using assms
  by (auto simp: applyLayers_body_def layer_arn_def getLayers_def setLayers_def Let_def
      alloc_array_def store_simps split: option.splits if_splits)

lemma applyLayers_body_present:
  assumes "layer_arn rr hi = Some arn" and "layers (objs h (handler hi)) = Some r"
  shows "applyLayers_body rr hi h =
           (if arn \<in> set (arrs h r) then h else array_push r arn h)"
  using assms
  by (auto simp: applyLayers_body_def layer_arn_def getLayers_def setLayers_def Let_def
      set_layers_same store_simps split: option.splits if_splits)

text \<open>
  A case rule over the three lemmas: to prove a property of the store
  after the body, prove it for the unchanged store, for the store with a
  new one-element array, and for the store with one array extended.
\<close>

lemma applyLayers_body_induct [case_names skip fresh extend]:
  assumes "P h"
    and "\<And>arn. layer_arn rr hi = Some arn \<Longrightarrow> layers (objs h (handler hi)) = None \<Longrightarrow>
           P (set_layers (handler hi) (arr_lim h)
                (array_push (arr_lim h) arn (snd (alloc_array [] h))))"
    and "\<And>arn r. layer_arn rr hi = Some arn \<Longrightarrow> layers (objs h (handler hi)) = Some r \<Longrightarrow>
           arn \<notin> set (arrs h r) \<Longrightarrow> P (array_push r arn h)"
  shows "P (applyLayers_body rr hi h)"
proof (cases "layer_arn rr hi")
  case None
  with assms(1) show ?thesis by (simp add: applyLayers_body_skip)
next
  case (Some arn)
  show ?thesis
  proof (cases "layers (objs h (handler hi))")
    case None
    with Some assms(2) show ?thesis by (simp add: applyLayers_body_fresh)
  next
    case (Some r)
    with \<open>layer_arn rr hi = Some arn\<close> assms(1,3) show ?thesis
      by (simp add: applyLayers_body_present)
  qed
qed

text \<open>A property that every step of the loop keeps holds after the loop.\<close>

lemma applyLayers_invariant:
  assumes "P h" and "\<And>rr hi h. P h \<Longrightarrow> P (applyLayers_body rr hi h)"
  shows "P (applyLayers rgn handlers lj h)"
proof -
  have "P (fold (applyLayers_body rr) handlers h)" for rr
    using assms(1)
    by (induction handlers arbitrary: h) (auto intro: assms(2))
  with assms(1) show ?thesis
    by (simp add: applyLayers_def split: option.splits)
qed

section \<open>What one step keeps\<close>

lemma applyLayers_body_wf: "wf_heap h \<Longrightarrow> wf_heap (applyLayers_body rr hi h)"
proof (induction rule: applyLayers_body_induct [of _ h rr hi])
  case skip
  then show ?case .
next
  case (fresh arn)
  then show ?case
    by (auto intro!: wf_heap_set_layers wf_heap_array_push wf_heap_alloc_array
        simp: store_simps)
next
  case (extend arn r)
  then show ?case by (simp add: wf_heap_array_push)
qed

lemma applyLayers_body_no_dups: "no_dups h \<Longrightarrow> no_dups (applyLayers_body rr hi h)"
proof (induction rule: applyLayers_body_induct [of _ h rr hi])
  case skip
  then show ?case .
next
  case (fresh arn)
  then show ?case
    by (auto simp: no_dups_set_layers store_simps
        intro!: no_dups_array_push no_dups_alloc_array)
next
  case (extend arn r)
  then show ?case by (simp add: no_dups_array_push)
qed

lemma applyLayers_body_heap_le: "heap_le h (applyLayers_body rr hi h)"
proof (induction rule: applyLayers_body_induct [of _ h rr hi])
  case skip
  show ?case by simp
next
  case (fresh arn)
  show ?case
    by (auto simp: heap_le_def store_simps)
next
  case (extend arn r)
  show ?case by (rule heap_le_array_push)
qed

lemma applyLayers_body_obj_lim [frame_simps]:
  "obj_lim (applyLayers_body rr hi h) = obj_lim h"
  by (rule applyLayers_body_induct [of _ h rr hi]) (simp_all add: store_simps)

lemma applyLayers_body_handler [frame_simps]:
  "FunctionDefinition.handler (objs (applyLayers_body rr hi h) a) =
   FunctionDefinition.handler (objs h a)"
  by (rule applyLayers_body_induct [of _ h rr hi]) (simp_all add: store_simps)

lemma applyLayers_body_runtime [frame_simps]:
  "FunctionDefinition.runtime (objs (applyLayers_body rr hi h) a) =
   FunctionDefinition.runtime (objs h a)"
  by (rule applyLayers_body_induct [of _ h rr hi]) (simp_all add: store_simps)

lemma applyLayers_body_other_obj [frame_simps]:
  "a \<noteq> handler hi \<Longrightarrow> objs (applyLayers_body rr hi h) a = objs h a"
  by (rule applyLayers_body_induct [of _ h rr hi]) (simp_all add: store_simps)

lemma applyLayers_body_valid:
  "valid_handlers (applyLayers_body rr hi h) hs = valid_handlers h hs"
  by (simp add: valid_handlers_def frame_simps)

section \<open>Settled handler records\<close>

lemma settled_fixed: "settled rr h hi \<Longrightarrow> applyLayers_body rr hi h = h"
  by (auto simp: settled_def applyLayers_body_skip applyLayers_body_present
      split: option.splits)

lemma settled_after_body:
  assumes "wf_heap h" and "handler hi < obj_lim h"
  shows "settled rr (applyLayers_body rr hi h) hi"
proof (cases "layer_arn rr hi")
  case None
  then show ?thesis by (simp add: settled_def)
next
  case arn: (Some arn)
  show ?thesis
  proof (cases "layers (objs h (handler hi))")
    case None
    with arn show ?thesis
      by (simp add: settled_def applyLayers_body_fresh store_simps)
  next
    case (Some r)
    with assms have "r < arr_lim h" by (auto dest: wf_heapD)
    with arn Some show ?thesis
      by (simp add: settled_def applyLayers_body_present store_simps)
  qed
qed

lemma settled_body_mono:
  assumes "settled rr h hi"
  shows "settled rr (applyLayers_body rr hj h) hi"
proof (cases "layer_arn rr hi")
  case None
  then show ?thesis by (simp add: settled_def)
next
  case arn: (Some arn)
  with assms obtain r where r: "layers (objs h (handler hi)) = Some r"
    "r < arr_lim h" "arn \<in> set (arrs h r)"
    by (auto simp: settled_def split: option.splits)
  show ?thesis
  proof (induction rule: applyLayers_body_induct [of _ h rr hj])
    case skip
    from assms show ?case .
  next
    case (fresh arn')
    with arn r show ?case
      by (auto simp: settled_def store_simps)
  next
    case (extend arn' r')
    with arn r show ?case
      by (auto simp: settled_def store_simps)
  qed
qed

lemma settled_fold_mono:
  "settled rr h hi \<Longrightarrow> settled rr (fold (applyLayers_body rr) hs h) hi"
  by (induction hs arbitrary: h) (auto intro: settled_body_mono)

lemma fold_settled_fixed:
  "(\<And>hi. hi \<in> set hs \<Longrightarrow> settled rr h hi) \<Longrightarrow> fold (applyLayers_body rr) hs h = h"
  by (induction hs) (auto simp: settled_fixed)

lemma fold_wf: "wf_heap h \<Longrightarrow> wf_heap (fold (applyLayers_body rr) hs h)"
  by (induction hs arbitrary: h) (auto intro: applyLayers_body_wf)

lemma settled_after_fold:
  assumes "wf_heap h" and "valid_handlers h hs" and "hi \<in> set hs"
  shows "settled rr (fold (applyLayers_body rr) hs h) hi"
  using assms
proof (induction hs arbitrary: h)
  case Nil
  then show ?case by simp
next
  case (Cons x xs)
  let ?h = "applyLayers_body rr x h"
  from Cons.prems have wf: "wf_heap ?h" and valid: "valid_handlers ?h xs"
    by (simp_all add: applyLayers_body_wf valid_handlers_def frame_simps)
  show ?case
  proof (cases "hi = x")
    case True
    from Cons.prems have "settled rr ?h x"
      by (intro settled_after_body) (simp_all add: valid_handlers_def)
    with True show ?thesis by (simp add: settled_fold_mono)
  next
    case False
    with Cons.prems have "hi \<in> set xs" by simp
    with wf valid show ?thesis by (simp add: Cons.IH)
  qed
qed

section \<open>Properties of applyLayers\<close>

text \<open>
  C1. A pass of \<open>applyLayers\<close> never introduces a duplicate: if no layer
  array of the store holds an element twice before the pass, none does
  after it, whatever the handler records, the region and the table are,
  and however the function definitions share their arrays.
\<close>

theorem applyLayers_no_dups:
  assumes "no_dups h"
  shows "no_dups (applyLayers rgn handlers lj h)"
  using assms by (rule applyLayers_invariant) (rule applyLayers_body_no_dups)

theorem applyLayers_no_dups_witness:
  "no_dups heap_node_layer1 \<and>
   no_dups (applyLayers ''us-east-1'' [hi_node ''f''] layers_node1 heap_node_layer1)"
  using applyLayers_no_dups [of heap_node_layer1 "''us-east-1''" "[hi_node ''f'']" layers_node1]
  by simp

text \<open>
  C3. \<open>applyLayers\<close> is idempotent: in a store where every layer
  reference points to a live array, a second pass with the same region,
  handler records and table changes nothing.
\<close>

theorem applyLayers_idempotent:
  assumes "wf_heap h" and "valid_handlers h handlers"
  shows "applyLayers rgn handlers lj (applyLayers rgn handlers lj h) =
         applyLayers rgn handlers lj h"
proof (cases "regions lj rgn")
  case None
  then show ?thesis by (simp add: applyLayers_def)
next
  case (Some rr)
  have "fold (applyLayers_body rr) handlers (fold (applyLayers_body rr) handlers h) =
        fold (applyLayers_body rr) handlers h"
    using assms by (intro fold_settled_fixed settled_after_fold)
  with Some show ?thesis by (simp add: applyLayers_def)
qed

theorem applyLayers_idempotent_witness:
  "wf_heap heap_node \<and> valid_handlers heap_node [hi_node ''f''] \<and>
   applyLayers ''us-east-1'' [hi_node ''f''] layers_node2
     (applyLayers ''us-east-1'' [hi_node ''f''] layers_node2 heap_node) =
   applyLayers ''us-east-1'' [hi_node ''f''] layers_node2 heap_node"
proof -
  have v: "valid_handlers heap_node [hi_node ''f'']"
    by (simp add: valid_handlers_def hi_node_def)
  from applyLayers_idempotent [OF fixtures_wf(1) v] v show ?thesis by simp
qed

text \<open>
  C13. After a pass, every handler record that asks for a layer has it: the
  function definition of a record of a supported runtime, whose runtime
  has a layer in the region, has a layer list, and the layer is in it.
\<close>

theorem applyLayers_adds_layer:
  assumes "wf_heap h" and "valid_handlers h handlers"
    and "regions lj rgn = Some rr" and "hi \<in> set handlers"
    and "layer_arn rr hi = Some arn"
  shows "\<exists>xs. layers_of (applyLayers rgn handlers lj h) (handler hi) = Some xs \<and> arn \<in> set xs"
proof -
  from assms(1,2,4) have "settled rr (fold (applyLayers_body rr) handlers h) hi"
    by (rule settled_after_fold)
  with assms(3,5) show ?thesis
    by (auto simp: settled_def applyLayers_def layers_of_def split: option.splits)
qed

theorem applyLayers_adds_layer_witness:
  "layers_of (applyLayers ''us-east-1'' [hi_node ''f''] layers_node2 heap_node) 0 =
     Some [''node:2'']"
proof -
  have v: "valid_handlers heap_node [hi_node ''f'']"
    by (simp add: valid_handlers_def hi_node_def)
  have r: "regions layers_node2 ''us-east-1'' = Some [''nodejs10.x'' \<mapsto> ''node:2'']"
    by (simp add: layers_node2_def)
  have a: "layer_arn [''nodejs10.x'' \<mapsto> ''node:2''] (hi_node ''f'') = Some ''node:2''"
    by (simp add: layer_arn_def hi_node_def)
  from applyLayers_adds_layer [OF fixtures_wf(1) v r _ a]
  have "\<exists>xs. layers_of (applyLayers ''us-east-1'' [hi_node ''f''] layers_node2 heap_node)
          (handler (hi_node ''f'')) = Some xs \<and> ''node:2'' \<in> set xs"
    by simp
  moreover have "layers_of (applyLayers ''us-east-1'' [hi_node ''f''] layers_node2 heap_node) 0 =
      Some [''node:2'']"
    by (simp add: applyLayers_def applyLayers_body_def getLayers_def setLayers_def
        hi_node_def layers_node2_def heap_node_def layers_of_def
        alloc_array_def alloc_obj_def array_push_def set_layers_def empty_heap_def)
  ultimately show ?thesis by simp
qed

text \<open>
  C26. A pass only appends: no object is created or lost, no array is lost,
  and every array that existed before the pass is a prefix of what it is
  after the pass.
\<close>

theorem applyLayers_append_only: "heap_le h (applyLayers rgn handlers lj h)"
proof (rule applyLayers_invariant [where P = "heap_le h"])
  show "heap_le h h" by simp
next
  fix rr hi h'
  assume "heap_le h h'"
  then show "heap_le h (applyLayers_body rr hi h')"
    by (rule heap_le_trans) (rule applyLayers_body_heap_le)
qed

theorem applyLayers_append_only_witness:
  "heap_le heap_node_layer1
     (applyLayers ''us-east-1'' [hi_node ''f''] layers_node2 heap_node_layer1) \<and>
   arrs (applyLayers ''us-east-1'' [hi_node ''f''] layers_node2 heap_node_layer1) 0 =
     arrs heap_node_layer1 0 @ [''node:2'']"
  using applyLayers_append_only [of heap_node_layer1 "''us-east-1''" "[hi_node ''f'']" layers_node2]
  by (simp add: applyLayers_def applyLayers_body_def getLayers_def setLayers_def
      hi_node_def layers_node2_def array_push_def set_layers_def heap_node_layer1_def
      alloc_array_def alloc_obj_def empty_heap_def)

text \<open>
  A pass keeps the store well formed: every layer reference of a live
  function definition still points to a live array.
\<close>

theorem applyLayers_wf:
  assumes "wf_heap h"
  shows "wf_heap (applyLayers rgn handlers lj h)"
  using assms by (rule applyLayers_invariant) (rule applyLayers_body_wf)

theorem applyLayers_wf_witness:
  "wf_heap heap_node \<and> wf_heap (applyLayers ''us-east-1'' [hi_node ''f''] layers_node2 heap_node)"
  using applyLayers_wf [of heap_node "''us-east-1''" "[hi_node ''f'']" layers_node2]
  by simp

text \<open>
  A pass in which no handler record asks for a layer leaves the store
  as it is: this covers the records of unsupported runtimes, the records
  without a runtime name, and the runtimes that have no layer in the region.
\<close>

theorem applyLayers_nothing_to_add:
  assumes "\<And>rr hi. regions lj rgn = Some rr \<Longrightarrow> hi \<in> set handlers \<Longrightarrow> layer_arn rr hi = None"
  shows "applyLayers rgn handlers lj h = h"
proof (cases "regions lj rgn")
  case None
  then show ?thesis by (simp add: applyLayers_def)
next
  case (Some rr)
  then have "fold (applyLayers_body rr) handlers h = h"
    using assms by (intro fold_settled_fixed) (simp add: settled_def)
  with Some show ?thesis by (simp add: applyLayers_def)
qed

theorem applyLayers_nothing_to_add_witness:
  "applyLayers ''us-east-1'' [hi_unsupported ''f''] layers_python heap_bare = heap_bare"
  by (rule applyLayers_nothing_to_add) (simp add: layer_arn_def hi_unsupported_def)

section \<open>Shared arrays\<close>

lemma applyLayers_body_layers_kept:
  "layers (objs h a) = Some r \<Longrightarrow> layers (objs (applyLayers_body rr hi h) a) = Some r"
  by (rule applyLayers_body_induct [of _ h rr hi]) (auto simp: store_simps)

lemma fold_layers_kept:
  "layers (objs h a) = Some r \<Longrightarrow>
   layers (objs (fold (applyLayers_body rr) hs h) a) = Some r"
  by (induction hs arbitrary: h) (simp_all add: applyLayers_body_layers_kept)

lemmas applyLayers_unfold =
  applyLayers_def applyLayers_body_def getLayers_def setLayers_def layers_of_def
  alloc_array_def alloc_obj_def array_push_def set_layers_def empty_heap_def

lemma heap_shared_wf: "wf_heap heap_shared"
  by (simp add: wf_heap_def heap_shared_def alloc_array_def alloc_obj_def empty_heap_def
      less_Suc_eq)

text \<open>
  C28. The layer arrays are shared, not copied: a function definition that
  refers to the same array as the definition of a handler record ends the
  pass with the layer that this record asks for, whatever its own runtime
  is and whether or not a record refers to it.
\<close>

theorem applyLayers_shared_array:
  assumes "wf_heap h" and "valid_handlers h handlers"
    and "regions lj rgn = Some rr" and "hi \<in> set handlers" and "layer_arn rr hi = Some arn"
    and "layers (objs h (handler hi)) = Some r" and "layers (objs h a) = Some r"
  shows "\<exists>xs. layers_of (applyLayers rgn handlers lj h) a = Some xs \<and> arn \<in> set xs"
proof -
  let ?h = "fold (applyLayers_body rr) handlers h"
  from assms(1,2,4) have "settled rr ?h hi" by (rule settled_after_fold)
  moreover from assms(6,7) have "layers (objs ?h (handler hi)) = Some r"
    "layers (objs ?h a) = Some r"
    by (simp_all add: fold_layers_kept)
  ultimately show ?thesis
    using assms(3,5) by (simp add: settled_def applyLayers_def layers_of_def)
qed

theorem applyLayers_shared_array_witness:
  "wf_heap heap_shared \<and> valid_handlers heap_shared handlers_shared \<and>
   layers (objs heap_shared 1) = Some 0 \<and> layers (objs heap_shared 0) = Some 0 \<and>
   layers_of (applyLayers ''us-east-1'' handlers_shared layers_both heap_shared) 0 =
     Some [''node:2'', ''python:2'']"
proof -
  let ?py = "\<lparr>name = ''b'', type = PYTHON, handler = 1, runtime = Some ''python2.7''\<rparr>"
  have v: "valid_handlers heap_shared handlers_shared"
    by (simp add: valid_handlers_def handlers_shared_def heap_shared_def alloc_array_def
        alloc_obj_def empty_heap_def)
  have r: "regions layers_both ''us-east-1'' =
      Some [''nodejs10.x'' \<mapsto> ''node:2'', ''python2.7'' \<mapsto> ''python:2'']"
    by (simp add: layers_both_def)
  have a: "layer_arn [''nodejs10.x'' \<mapsto> ''node:2'', ''python2.7'' \<mapsto> ''python:2''] ?py =
      Some ''python:2''"
    by (simp add: layer_arn_def)
  have l: "layers (objs heap_shared (handler ?py)) = Some 0" "layers (objs heap_shared 0) = Some 0"
    by (simp_all add: heap_shared_def alloc_array_def alloc_obj_def empty_heap_def)
  have "?py \<in> set handlers_shared" by (simp add: handlers_shared_def)
  from applyLayers_shared_array [OF heap_shared_wf v r this a l] v l heap_shared_wf
  show ?thesis
    by (simp add: applyLayers_unfold handlers_shared_def layers_both_def heap_shared_def)
qed

section \<open>The multiplicity of the elements of a layer list\<close>

lemma applyLayers_body_count:
  assumes "r < arr_lim h" and "x \<in> set (arrs h r)"
  shows "count_list (arrs (applyLayers_body rr hi h) r) x = count_list (arrs h r) x"
  using assms
  by (induction rule: applyLayers_body_induct [of _ h rr hi]) (auto simp: store_simps)

lemma fold_count:
  assumes "r < arr_lim h" and "x \<in> set (arrs h r)"
  shows "count_list (arrs (fold (applyLayers_body rr) hs h) r) x = count_list (arrs h r) x"
  using assms
proof (induction hs arbitrary: h)
  case Nil
  show ?case by simp
next
  case (Cons hi hs)
  let ?h = "applyLayers_body rr hi h"
  have le: "heap_le h ?h" by (rule applyLayers_body_heap_le)
  with Cons.prems have "r < arr_lim ?h" "x \<in> set (arrs ?h r)"
    using heap_le_subset [OF le Cons.prems(1)] by (auto simp: heap_le_def)
  from Cons.IH [OF this] applyLayers_body_count [OF Cons.prems] show ?case by simp
qed

text \<open>
  C35. An element that a layer list holds keeps its multiplicity through a
  pass: the pass does not add it again, and it does not remove a
  repetition that the list has. So a list that holds a layer twice before
  the pass holds it twice after.
\<close>

theorem applyLayers_keeps_duplicates:
  assumes "r < arr_lim h" and "x \<in> set (arrs h r)"
  shows "count_list (arrs (applyLayers rgn handlers lj h) r) x = count_list (arrs h r) x"
  using fold_count [OF assms] by (simp add: applyLayers_def split: option.splits)

theorem applyLayers_keeps_duplicates_witness:
  "0 < arr_lim heap_twice \<and> ''x'' \<in> set (arrs heap_twice 0) \<and>
   count_list (arrs (applyLayers ''us-east-1'' [hi_node ''f''] layers_node2 heap_twice) 0) ''x'' = 2 \<and>
   layers_of (applyLayers ''us-east-1'' [hi_node ''f''] layers_node2 heap_twice) 0 =
     Some [''x'', ''x'', ''node:2'']"
proof -
  have l: "0 < arr_lim heap_twice" "''x'' \<in> set (arrs heap_twice 0)"
    by (simp_all add: heap_twice_def alloc_array_def alloc_obj_def empty_heap_def)
  from applyLayers_keeps_duplicates [OF l, of "''us-east-1''" "[hi_node ''f'']" layers_node2] l
  show ?thesis
    by (simp add: applyLayers_unfold hi_node_def layers_node2_def heap_twice_def)
qed

section \<open>How much a pass adds\<close>

lemma applyLayers_region_table:
  "applyLayers rgn handlers lj h = fold (applyLayers_body (region_table lj rgn)) handlers h"
proof (cases "regions lj rgn")
  case None
  have "fold (applyLayers_body Map.empty) handlers h = h"
    by (rule fold_settled_fixed) (simp add: settled_def layer_arn_def split: option.splits)
  with None show ?thesis by (simp add: applyLayers_def region_table_def)
next
  case (Some rr)
  then show ?thesis by (simp add: applyLayers_def region_table_def)
qed

text \<open>The body creates an array exactly for a record that needs one.\<close>

lemma applyLayers_body_needs:
  assumes "needs_array rr h hi"
  shows "arr_lim (applyLayers_body rr hi h) = Suc (arr_lim h)"
    and "needs_array rr (applyLayers_body rr hi h) hj \<longleftrightarrow>
         needs_array rr h hj \<and> handler hj \<noteq> handler hi"
  using assms
  by (auto simp: needs_array_def applyLayers_body_fresh store_simps split: if_splits)

lemma applyLayers_body_no_needs:
  assumes "\<not> needs_array rr h hi"
  shows "arr_lim (applyLayers_body rr hi h) = arr_lim h"
    and "needs_array rr (applyLayers_body rr hi h) hj \<longleftrightarrow> needs_array rr h hj"
proof -
  have "arr_lim (applyLayers_body rr hi h) = arr_lim h \<and>
      objs (applyLayers_body rr hi h) = objs h"
  proof (cases "layer_arn rr hi")
    case None
    then show ?thesis by (simp add: applyLayers_body_skip)
  next
    case (Some arn)
    with assms obtain r where "layers (objs h (handler hi)) = Some r"
      by (auto simp: needs_array_def)
    with Some show ?thesis by (simp add: applyLayers_body_present store_simps)
  qed
  then show "arr_lim (applyLayers_body rr hi h) = arr_lim h"
    and "needs_array rr (applyLayers_body rr hi h) hj \<longleftrightarrow> needs_array rr h hj"
    by (simp_all add: needs_array_def)
qed

lemma fold_arr_lim:
  "arr_lim (fold (applyLayers_body rr) hs h) =
   arr_lim h + card (handler ` {hi \<in> set hs. needs_array rr h hi})"
proof (induction hs arbitrary: h)
  case Nil
  show ?case by simp
next
  case (Cons hi hs)
  let ?h = "applyLayers_body rr hi h"
  show ?case
  proof (cases "needs_array rr h hi")
    case True
    let ?rest = "handler ` {hj \<in> set hs. needs_array rr ?h hj}"
    have "handler ` {hj \<in> set (hi # hs). needs_array rr h hj} = insert (handler hi) ?rest"
      using True by (auto simp: applyLayers_body_needs(2) [OF True])
    moreover have "handler hi \<notin> ?rest"
      by (auto simp: applyLayers_body_needs(2) [OF True])
    ultimately have "card (handler ` {hj \<in> set (hi # hs). needs_array rr h hj}) =
        Suc (card ?rest)"
      by simp
    with Cons.IH [of ?h] applyLayers_body_needs(1) [OF True] show ?thesis by simp
  next
    case False
    then have "{hj \<in> set (hi # hs). needs_array rr h hj} =
        {hj \<in> set hs. needs_array rr ?h hj}"
      by (auto simp: applyLayers_body_no_needs(2) [OF False])
    with Cons.IH [of ?h] applyLayers_body_no_needs(1) [OF False] show ?thesis by simp
  qed
qed

text \<open>
  The length of a live array and the number of the layers of \<open>A\<close> that it
  does not hold: what the body adds to the one it takes from the other.
\<close>

lemma applyLayers_body_growth:
  assumes "r < arr_lim h" and "finite A"
    and "\<And>arn. layer_arn rr hi = Some arn \<Longrightarrow> arn \<in> A"
  shows "length (arrs (applyLayers_body rr hi h) r) + card (A - set (arrs (applyLayers_body rr hi h) r))
         \<le> length (arrs h r) + card (A - set (arrs h r))"
proof (induction rule: applyLayers_body_induct [of _ h rr hi])
  case skip
  show ?case by simp
next
  case (fresh arn)
  with assms(1) show ?case by (simp add: store_simps)
next
  case (extend arn r')
  show ?case
  proof (cases "r' = r")
    case True
    with extend assms(3) have "arn \<in> A - set (arrs h r)" by simp
    with assms(2) have "card (A - set (arrs h r)) = Suc (card (A - set (arrs h r) - {arn}))"
      by (intro card.remove) simp_all
    moreover have "A - set (arrs h r) - {arn} = A - insert arn (set (arrs h r))" by auto
    ultimately show ?thesis using True by (simp add: store_simps)
  next
    case False
    then show ?thesis by (simp add: store_simps)
  qed
qed

lemma fold_growth:
  assumes "finite A"
  shows "\<forall>hi \<in> set hs. \<forall>arn. layer_arn rr hi = Some arn \<longrightarrow> arn \<in> A \<Longrightarrow> r < arr_lim h \<Longrightarrow>
    length (arrs (fold (applyLayers_body rr) hs h) r) +
      card (A - set (arrs (fold (applyLayers_body rr) hs h) r))
    \<le> length (arrs h r) + card (A - set (arrs h r))"
proof (induction hs arbitrary: h)
  case Nil
  show ?case by simp
next
  case (Cons hi hs)
  let ?h = "applyLayers_body rr hi h"
  have "arr_lim h \<le> arr_lim ?h"
    using applyLayers_body_heap_le [of h rr hi] by (simp add: heap_le_def)
  with Cons.prems(2) have live: "r < arr_lim ?h" by simp
  from Cons.prems(1) have rest: "\<forall>hi \<in> set hs. \<forall>arn. layer_arn rr hi = Some arn \<longrightarrow> arn \<in> A"
    by simp
  have "length (arrs (fold (applyLayers_body rr) hs ?h) r) +
      card (A - set (arrs (fold (applyLayers_body rr) hs ?h) r))
    \<le> length (arrs ?h r) + card (A - set (arrs ?h r))"
    by (rule Cons.IH [OF rest live])
  also have "\<dots> \<le> length (arrs h r) + card (A - set (arrs h r))"
    using Cons.prems by (intro applyLayers_body_growth assms) simp_all
  finally show ?case by simp
qed

lemma asked_layers_mem:
  "hi \<in> set hs \<Longrightarrow> layer_arn rr hi = Some arn \<Longrightarrow> arn \<in> set (asked_layers rr hs)"
  by (force simp: asked_layers_def)

lemma asked_layers_missing:
  "length (filter (\<lambda>arn. arn \<notin> S) (asked_layers rr hs)) = card (set (asked_layers rr hs) - S)"
proof -
  have "distinct (filter (\<lambda>arn. arn \<notin> S) (asked_layers rr hs))"
    by (simp add: asked_layers_def)
  from distinct_card [OF this] show ?thesis
    by (simp add: set_diff_eq)
qed

text \<open>
  C24. What a pass adds, exactly and at most. It creates one array for
  every function definition without a layer list that a handler record
  asks a layer for, however many records refer to the definition, and no
  other array. An array that was there grows by no more than the number of
  the layers that the records ask for and that it does not hold.
\<close>

theorem applyLayers_bounds:
  assumes "r < arr_lim h"
  shows "arr_lim (applyLayers rgn handlers lj h) =
           arr_lim h +
           length (remdups (map handler (filter (needs_array (region_table lj rgn) h) handlers))) \<and>
         length (arrs (applyLayers rgn handlers lj h) r) \<le>
           length (arrs h r) +
           length (filter (\<lambda>arn. arn \<notin> set (arrs h r))
             (asked_layers (region_table lj rgn) handlers))"
proof -
  let ?rr = "region_table lj rgn"
  let ?A = "set (asked_layers ?rr handlers)"
  have "length (remdups (map handler (filter (needs_array ?rr h) handlers))) =
      card (handler ` {hi \<in> set handlers. needs_array ?rr h hi})"
    by (simp add: length_remdups_card_conv)
  moreover from fold_growth [of ?A handlers ?rr r h] assms
  have "length (arrs (fold (applyLayers_body ?rr) handlers h) r)
      \<le> length (arrs h r) + card (?A - set (arrs h r))"
    by (simp add: asked_layers_mem)
  ultimately show ?thesis
    by (simp add: applyLayers_region_table fold_arr_lim asked_layers_missing)
qed

theorem applyLayers_bounds_witness:
  "0 < arr_lim heap_shared \<and>
   arr_lim (applyLayers ''us-east-1'' handlers_shared layers_both heap_shared) =
     arr_lim heap_shared + 0 \<and>
   length (arrs (applyLayers ''us-east-1'' handlers_shared layers_both heap_shared) 0) \<le>
     length (arrs heap_shared 0) + 2"
proof -
  have l: "0 < arr_lim heap_shared"
    by (simp add: heap_shared_def alloc_array_def alloc_obj_def empty_heap_def)
  from applyLayers_bounds [OF l, of "''us-east-1''" handlers_shared layers_both] l
  show ?thesis
    by (simp add: region_table_def layers_both_def handlers_shared_def needs_array_def
        asked_layers_def layer_arn_def heap_shared_def alloc_array_def alloc_obj_def
        empty_heap_def)
qed

end
