(* ===== verification/Layer_Refine.thy ===== *)
theory Layer_Refine
  imports Apply_Layers
begin

text \<open>
  The contract of the layer merger, on values: every function definition
  has a layer list of its own, and a pass appends to the list of each
  handler record's definition the layer the record asks for, unless the
  list has it. The theory states this contract without the store and
  proves that \<open>applyLayers\<close> implements it on every store in which no two
  function definitions share a layer array.
\<close>

section \<open>The contract\<close>

text \<open>The layer lists of the function definitions, by address.\<close>

type_synonym layer_view = "addr \<Rightarrow> string list option"

definition merge_layer :: "string \<Rightarrow> string list option \<Rightarrow> string list option" where
  "merge_layer arn ls =
     (let cur = (case ls of None \<Rightarrow> [] | Some xs \<Rightarrow> xs) in
      Some (if arn \<in> set cur then cur else cur @ [arn]))"

definition applyLayers_spec_body :: "string dict \<Rightarrow> HandlerInfo \<Rightarrow> layer_view \<Rightarrow> layer_view" where
  "applyLayers_spec_body rr hi v =
     (case layer_arn rr hi of
        None \<Rightarrow> v
      | Some arn \<Rightarrow> v(handler hi := merge_layer arn (v (handler hi))))"

definition applyLayers_spec :: "string \<Rightarrow> HandlerInfo list \<Rightarrow> LayerJSON \<Rightarrow> layer_view \<Rightarrow> layer_view" where
  "applyLayers_spec rgn handlers lj v =
     (case regions lj rgn of
        None \<Rightarrow> v
      | Some rr \<Rightarrow> fold (applyLayers_spec_body rr) handlers v)"

text \<open>The layers that the handler records ask for on behalf of one definition, in order.\<close>

definition arns_for :: "string dict \<Rightarrow> HandlerInfo list \<Rightarrow> addr \<Rightarrow> string list" where
  "arns_for rr handlers a =
     concat (map (\<lambda>hi. if handler hi = a
                        then (case layer_arn rr hi of None \<Rightarrow> [] | Some arn \<Rightarrow> [arn])
                        else []) handlers)"

section \<open>The abstraction\<close>

text \<open>The view of a store: the layer list of every live function definition.\<close>

definition abs_heap :: "heap \<Rightarrow> layer_view" where
  "abs_heap h a = (if a < obj_lim h then layers_of h a else None)"

section \<open>One step of the loop implements one step of the contract\<close>

lemma merge_layer_simps [simp]:
  "merge_layer arn None = Some [arn]"
  "arn \<in> set xs \<Longrightarrow> merge_layer arn (Some xs) = Some xs"
  "arn \<notin> set xs \<Longrightarrow> merge_layer arn (Some xs) = Some (xs @ [arn])"
  by (simp_all add: merge_layer_def)

lemma merge_layer_idem: "merge_layer arn (merge_layer arn ls) = merge_layer arn ls"
  by (cases ls) (auto simp: merge_layer_def)

lemma merge_layer_distinct:
  "(\<And>xs. ls = Some xs \<Longrightarrow> distinct xs) \<Longrightarrow> merge_layer arn ls = Some ys \<Longrightarrow> distinct ys"
  by (cases ls) (auto simp: merge_layer_def split: if_splits)

lemma abs_heap_fresh:
  assumes "wf_heap h" and "a < obj_lim h" and "layers (objs h a) = None"
  shows "abs_heap (set_layers a (arr_lim h) (array_push (arr_lim h) arn (snd (alloc_array [] h)))) =
         (abs_heap h)(a := Some [arn])"
proof
  fix x
  show "abs_heap (set_layers a (arr_lim h) (array_push (arr_lim h) arn (snd (alloc_array [] h)))) x =
        ((abs_heap h)(a := Some [arn])) x"
  proof (cases "x = a")
    case True
    with assms show ?thesis
      by (simp add: abs_heap_def layers_of_def store_simps)
  next
    case False
    show ?thesis
    proof (cases "x < obj_lim h")
      case True
      then have "\<And>r. layers (objs h x) = Some r \<Longrightarrow> r \<noteq> arr_lim h"
        using assms(1) by (auto dest: wf_heapD)
      with False True show ?thesis
        by (cases "layers (objs h x)") (simp_all add: abs_heap_def layers_of_def store_simps)
    next
      case False
      with \<open>x \<noteq> a\<close> show ?thesis
        by (simp add: abs_heap_def store_simps)
    qed
  qed
qed

lemma abs_heap_extend:
  assumes "separated h" and "a < obj_lim h" and "layers (objs h a) = Some r"
  shows "abs_heap (array_push r arn h) = (abs_heap h)(a := Some (arrs h r @ [arn]))"
proof
  fix x
  show "abs_heap (array_push r arn h) x = ((abs_heap h)(a := Some (arrs h r @ [arn]))) x"
  proof (cases "x = a")
    case True
    with assms show ?thesis
      by (simp add: abs_heap_def layers_of_def store_simps)
  next
    case False
    show ?thesis
    proof (cases "x < obj_lim h")
      case True
      with False assms have "layers (objs h x) \<noteq> Some r"
        by (auto simp: separated_def)
      with False True show ?thesis
        by (cases "layers (objs h x)") (simp_all add: abs_heap_def layers_of_def store_simps)
    next
      case False
      with \<open>x \<noteq> a\<close> show ?thesis
        by (simp add: abs_heap_def store_simps)
    qed
  qed
qed

lemma applyLayers_body_refines:
  assumes "wf_heap h" and "separated h" and "handler hi < obj_lim h"
  shows "abs_heap (applyLayers_body rr hi h) = applyLayers_spec_body rr hi (abs_heap h)"
proof (cases "layer_arn rr hi")
  case None
  then show ?thesis
    by (simp add: applyLayers_body_skip applyLayers_spec_body_def)
next
  case arn: (Some arn)
  show ?thesis
  proof (cases "layers (objs h (handler hi))")
    case None
    with arn assms show ?thesis
      by (simp add: applyLayers_body_fresh abs_heap_fresh applyLayers_spec_body_def
          abs_heap_def layers_of_def)
  next
    case (Some r)
    show ?thesis
    proof (cases "arn \<in> set (arrs h r)")
      case True
      with arn Some assms(3) show ?thesis
        by (simp add: applyLayers_body_present applyLayers_spec_body_def abs_heap_def
            layers_of_def fun_upd_same_value)
    next
      case False
      with arn Some assms show ?thesis
        by (simp add: applyLayers_body_present abs_heap_extend applyLayers_spec_body_def
            abs_heap_def layers_of_def)
    qed
  qed
qed

lemma applyLayers_body_separated:
  assumes "wf_heap h" and "separated h"
  shows "separated (applyLayers_body rr hi h)"
proof (induction rule: applyLayers_body_induct [of _ h rr hi])
  case skip
  from assms(2) show ?case .
next
  case (fresh arn)
  have "\<And>b r. b < obj_lim h \<Longrightarrow> layers (objs h b) = Some r \<Longrightarrow> r \<noteq> arr_lim h"
    using assms(1) by (auto dest: wf_heapD)
  with assms(2) show ?case
    by (auto simp: separated_def store_simps)
next
  case (extend arn r)
  from assms(2) show ?case
    by (simp add: separated_def store_simps)
qed

lemma fold_refines:
  assumes "wf_heap h" and "separated h" and "valid_handlers h hs"
  shows "abs_heap (fold (applyLayers_body rr) hs h) =
         fold (applyLayers_spec_body rr) hs (abs_heap h)"
  using assms
proof (induction hs arbitrary: h)
  case Nil
  show ?case by simp
next
  case (Cons x xs)
  let ?h = "applyLayers_body rr x h"
  from Cons.prems have "wf_heap ?h" "separated ?h" "valid_handlers ?h xs"
    by (simp_all add: applyLayers_body_wf applyLayers_body_separated
        valid_handlers_def frame_simps)
  then have "abs_heap (fold (applyLayers_body rr) xs ?h) =
      fold (applyLayers_spec_body rr) xs (abs_heap ?h)"
    by (rule Cons.IH)
  moreover from Cons.prems have "abs_heap ?h = applyLayers_spec_body rr x (abs_heap h)"
    by (intro applyLayers_body_refines) (simp_all add: valid_handlers_def)
  ultimately show ?case by simp
qed

section \<open>The contract, definition by definition\<close>

lemma fold_spec_body_pointwise:
  "fold (applyLayers_spec_body rr) hs v a = fold merge_layer (arns_for rr hs a) (v a)"
proof (induction hs arbitrary: v)
  case Nil
  show ?case by (simp add: arns_for_def)
next
  case (Cons x xs)
  have "fold (applyLayers_spec_body rr) (x # xs) v a =
        fold merge_layer (arns_for rr xs a) (applyLayers_spec_body rr x v a)"
    by (simp add: Cons.IH)
  also have "\<dots> = fold merge_layer (arns_for rr (x # xs) a) (v a)"
    by (cases "layer_arn rr x") (simp_all add: applyLayers_spec_body_def arns_for_def)
  finally show ?case .
qed

lemma fold_merge_layer_distinct:
  "(\<And>xs. ls = Some xs \<Longrightarrow> distinct xs) \<Longrightarrow> fold merge_layer arns ls = Some ys \<Longrightarrow> distinct ys"
proof (induction arns arbitrary: ls)
  case Nil
  then show ?case by simp
next
  case (Cons arn arns)
  obtain zs where zs: "merge_layer arn ls = Some zs"
    by (auto simp: merge_layer_def Let_def)
  then have "distinct zs"
    using Cons.prems(1) by (auto intro: merge_layer_distinct)
  with Cons.IH [of "Some zs" ] Cons.prems(2) zs show ?case by simp
qed

section \<open>Properties\<close>

text \<open>
  C5. \<open>applyLayers\<close> implements the contract: on a well-formed store in
  which no two function definitions share a layer array, and for handler
  records of live definitions, the layer lists after a pass are those that
  the contract computes from the layer lists before the pass.
\<close>

theorem applyLayers_refines:
  assumes "wf_heap h" and "separated h" and "valid_handlers h handlers"
  shows "abs_heap (applyLayers rgn handlers lj h) =
         applyLayers_spec rgn handlers lj (abs_heap h)"
  using assms
  by (simp add: applyLayers_def applyLayers_spec_def fold_refines split: option.splits)

theorem applyLayers_refines_witness:
  "abs_heap (applyLayers ''us-east-1'' [hi_node ''f''] layers_node2 heap_node_layer1) 0 =
     Some [''node:1'', ''node:2'']"
proof -
  have v: "valid_handlers heap_node_layer1 [hi_node ''f'']"
    by (simp add: valid_handlers_def hi_node_def)
  have "applyLayers_spec ''us-east-1'' [hi_node ''f''] layers_node2 (abs_heap heap_node_layer1) 0 =
      Some [''node:1'', ''node:2'']"
    by (simp add: applyLayers_spec_def applyLayers_spec_body_def layer_arn_def
        layers_node2_def hi_node_def abs_heap_def layers_of_def)
  with applyLayers_refines [OF fixtures_wf(2) fixtures_separated(2) v] show ?thesis
    by simp
qed

text \<open>
  C27. Without sharing, the functions are independent: the layer list of a
  function definition after a pass is its list before the pass, merged in
  order with the layers that the handler records of this very definition
  ask for; the other records and definitions have no influence on it.
\<close>

theorem applyLayers_independent:
  assumes "wf_heap h" and "separated h" and "valid_handlers h handlers"
    and "regions lj rgn = Some rr" and "a < obj_lim h"
  shows "layers_of (applyLayers rgn handlers lj h) a =
         fold merge_layer (arns_for rr handlers a) (layers_of h a)"
proof -
  have "obj_lim (applyLayers rgn handlers lj h) = obj_lim h"
    by (rule applyLayers_invariant [where P = "\<lambda>h'. obj_lim h' = obj_lim h"])
      (simp_all add: frame_simps)
  with assms(5) have "layers_of (applyLayers rgn handlers lj h) a =
      abs_heap (applyLayers rgn handlers lj h) a"
    by (simp add: abs_heap_def)
  also have "\<dots> = applyLayers_spec rgn handlers lj (abs_heap h) a"
    using assms(1-3)
    by (simp add: applyLayers_def applyLayers_spec_def fold_refines split: option.splits)
  also have "\<dots> = fold merge_layer (arns_for rr handlers a) (abs_heap h a)"
    using assms(4) by (simp add: applyLayers_spec_def fold_spec_body_pointwise)
  finally show ?thesis using assms(5) by (simp add: abs_heap_def)
qed

theorem applyLayers_independent_witness:
  "layers_of (applyLayers ''us-east-1'' [hi_node ''f''] layers_node2 heap_node_layer1) 0 =
     Some [''node:1'', ''node:2'']"
proof -
  have v: "valid_handlers heap_node_layer1 [hi_node ''f'']"
    by (simp add: valid_handlers_def hi_node_def)
  have r: "regions layers_node2 ''us-east-1'' = Some [''nodejs10.x'' \<mapsto> ''node:2'']"
    by (simp add: layers_node2_def)
  have a: "(0::nat) < obj_lim heap_node_layer1" by simp
  from applyLayers_independent [OF fixtures_wf(2) fixtures_separated(2) v r a]
  show ?thesis
    by (simp add: arns_for_def layer_arn_def hi_node_def layers_of_def)
qed

text \<open>
  C34. A pass creates no sharing: if no two function definitions of a
  well-formed store share a layer array before a pass, none do after it,
  since every array that the pass creates goes to one definition.
\<close>

theorem applyLayers_separated:
  assumes "wf_heap h" and "separated h"
  shows "separated (applyLayers rgn handlers lj h)"
proof -
  have "wf_heap (applyLayers rgn handlers lj h) \<and> separated (applyLayers rgn handlers lj h)"
    by (rule applyLayers_invariant [where P = "\<lambda>h. wf_heap h \<and> separated h"])
      (simp_all add: assms applyLayers_body_wf applyLayers_body_separated)
  then show ?thesis ..
qed

theorem applyLayers_separated_witness:
  "wf_heap heap_node \<and> separated heap_node \<and>
   separated (applyLayers ''us-east-1'' [hi_node ''f''] layers_node2 heap_node)"
  using applyLayers_separated [OF fixtures_wf(1) fixtures_separated(1)] by simp

end
