(* ===== verification/JS_Lib.thy ===== *)
theory JS_Lib
  imports Prelude
begin

text \<open>
  The built-in string and array operations that \<^verbatim>\<open>src/src/util.ts\<close> and
  \<^verbatim>\<open>src/src/layer.ts\<close> call, as functions on lists: \<^verbatim>\<open>String.prototype.split\<close>
  with a one-character separator, \<^verbatim>\<open>Array.prototype.join\<close>, and what the two
  have to do with each other. Strings are lists of characters, an array
  of strings is a list of them.
\<close>

section \<open>split and join\<close>

text \<open>
  \<^verbatim>\<open>s.split(c)\<close> cuts \<open>s\<close> at every occurrence of \<open>c\<close>; the result always
  has at least one piece, and the empty string gives one empty piece.
\<close>

fun js_split :: "'a \<Rightarrow> 'a list \<Rightarrow> 'a list list" where
  "js_split c [] = [[]]"
| "js_split c (x # xs) =
     (if x = c then [] # js_split c xs
      else (case js_split c xs of [] \<Rightarrow> [[x]] | p # ps \<Rightarrow> (x # p) # ps))"

text \<open>
  \<^verbatim>\<open>ps.join(sep)\<close> concatenates the pieces with \<open>sep\<close> between
  neighbours; the empty array gives the empty string.
\<close>

fun js_join :: "'a list \<Rightarrow> 'a list list \<Rightarrow> 'a list" where
  "js_join sep [] = []"
| "js_join sep [p] = p"
| "js_join sep (p # q # ps) = p @ sep @ js_join sep (q # ps)"

lemma js_split_nonempty [simp]: "js_split c s \<noteq> []"
  by (induction s) (auto split: list.splits)

lemma js_split_Cons [js_simps]:
  "js_split c (x # xs) =
     (if x = c then [] # js_split c xs
      else (x # hd (js_split c xs)) # tl (js_split c xs))"
  by (cases "js_split c xs") auto

lemma js_join_Cons [js_simps]:
  "js_join sep (p # ps) = (if ps = [] then p else p @ sep @ js_join sep ps)"
  by (cases ps) auto

lemma js_join_snoc:
  "ps \<noteq> [] \<Longrightarrow> js_join sep (ps @ [q]) = js_join sep ps @ sep @ q"
  by (induction sep ps rule: js_join.induct) auto

lemma js_join_butlast_last:
  assumes "2 \<le> length ps"
  shows "js_join sep ps = js_join sep (butlast ps) @ sep @ last ps"
proof -
  from assms have ne: "ps \<noteq> []" by auto
  from assms have "length (butlast ps) \<noteq> 0" by simp
  then have bne: "butlast ps \<noteq> []" by (simp del: length_butlast)
  have "js_join sep (butlast ps @ [last ps]) = js_join sep (butlast ps) @ sep @ last ps"
    using bne by (rule js_join_snoc)
  with ne show ?thesis by simp
qed

text \<open>Joining the pieces of a split with the separator restores the string.\<close>

lemma js_join_split [simp]: "js_join [c] (js_split c s) = s"
proof (induction s)
  case Nil
  show ?case by simp
next
  case (Cons x xs)
  obtain p ps where sp: "js_split c xs = p # ps"
    by (cases "js_split c xs") auto
  with Cons show ?case
    by (cases ps) auto
qed

text \<open>No piece of a split contains the separator.\<close>

lemma js_split_no_sep: "p \<in> set (js_split c s) \<Longrightarrow> c \<notin> set p"
proof (induction s arbitrary: p)
  case Nil
  then show ?case by simp
next
  case (Cons x xs)
  obtain q qs where sp: "js_split c xs = q # qs"
    by (cases "js_split c xs") auto
  with Cons.prems Cons.IH [of q] Cons.IH [of p] show ?case
    by (auto split: if_splits)
qed

text \<open>There is one more piece than there are separators.\<close>

lemma length_js_split: "length (js_split c s) = Suc (length (filter (\<lambda>x. x = c) s))"
  by (induction s) (auto split: list.splits)

lemma js_split_single_iff: "length (js_split c s) < 2 \<longleftrightarrow> c \<notin> set s"
proof -
  have "length (filter (\<lambda>x. x = c) s) = 0 \<longleftrightarrow> c \<notin> set s"
    by (auto simp: filter_empty_conv)
  then show ?thesis
    by (auto simp: length_js_split)
qed

lemma js_split_no_sep_id: "c \<notin> set s \<Longrightarrow> js_split c s = [s]"
  by (induction s) auto

text \<open>Splitting what was joined from separator-free pieces restores the pieces.\<close>

lemma js_split_append_sep:
  "c \<notin> set p \<Longrightarrow> js_split c (p @ c # s) = p # js_split c s"
  by (induction p) auto

text \<open>A separator between two strings separates their pieces.\<close>

lemma js_split_append:
  "js_split c (s @ c # t) = js_split c s @ js_split c t"
  by (induction s) (simp_all add: js_split_Cons del: js_split.simps(2))

lemma js_split_join:
  "ps \<noteq> [] \<Longrightarrow> (\<And>p. p \<in> set ps \<Longrightarrow> c \<notin> set p) \<Longrightarrow> js_split c (js_join [c] ps) = ps"
proof (induction ps)
  case Nil
  then show ?case by simp
next
  case (Cons p ps)
  then have p: "c \<notin> set p" by simp
  show ?case
  proof (cases "ps = []")
    case True
    with p show ?thesis by (simp add: js_split_no_sep_id)
  next
    case False
    with Cons have "js_split c (js_join [c] ps) = ps" by simp
    with False p show ?thesis by (simp add: js_join_Cons js_split_append_sep)
  qed
qed

text \<open>
  The last piece of a split is what follows the last separator, and the
  pieces before it, joined again, are what precedes that separator.
\<close>

lemma last_js_split: "last (js_split c s) = rev (takeWhile (\<lambda>x. x \<noteq> c) (rev s))"
proof -
  let ?ps = "js_split c s"
  show ?thesis
  proof (cases "c \<in> set s")
    case False
    then have tw: "takeWhile (\<lambda>x. x \<noteq> c) (rev s) = rev s"
      by auto
    from False have "last ?ps = s"
      by (simp add: js_split_no_sep_id)
    also have "s = rev (takeWhile (\<lambda>x. x \<noteq> c) (rev s))"
      by (subst tw) simp
    finally show ?thesis .
  next
    case True
    then have len: "2 \<le> length ?ps"
      using js_split_single_iff [of c s] by auto
    have nl: "c \<notin> set (last ?ps)"
      by (rule js_split_no_sep [of _ c s]) simp
    have "s = js_join [c] (butlast ?ps) @ [c] @ last ?ps"
      using js_join_butlast_last [OF len, of "[c]"] by simp
    then have "rev s = rev (js_join [c] (butlast ?ps) @ [c] @ last ?ps)"
      by simp
    then have "rev s = rev (last ?ps) @ c # rev (js_join [c] (butlast ?ps))"
      by simp
    then have "takeWhile (\<lambda>x. x \<noteq> c) (rev s) = rev (last ?ps)"
      using nl by (auto simp: takeWhile_tail)
    then show ?thesis by simp
  qed
qed

end
