(* ===== verification/Util.thy ===== *)
theory Util
  imports JS_Lib Fixtures
begin

text \<open>
  \<^verbatim>\<open>getHandlerPath\<close> of \<^verbatim>\<open>src/src/util.ts\<close>: the handler reference of a
  function, \<^verbatim>\<open>"dir/module.method"\<close>, cut at its last dot into the module
  path and the method name. The theory states what the two parts are in
  terms of the reference alone, when the function gives none, and when it
  raises.
\<close>

section \<open>getHandlerPath\<close>

text \<open>
  The part of the function that works on the handler string: split at the
  dots, give up on fewer than two pieces, else the last piece is the
  method and the others, joined again, the file name.
\<close>

definition handlerPath_of :: "string \<Rightarrow> HandlerPath option" where
  "handlerPath_of handlerfile =
     (let parts = js_split (CHR ''.'') handlerfile in
      if length parts < 2 then None
      else Some \<lparr>method = last parts, filename = js_join ''.'' (butlast parts)\<rparr>)"

text \<open>
  The function itself reads the handler string through the handler record
  and the definition object; on a definition without handler the call of
  \<^verbatim>\<open>split\<close> raises.
\<close>

definition getHandlerPath :: "heap \<Rightarrow> HandlerInfo \<Rightarrow> HandlerPath option result" where
  "getHandlerPath h handlerInfo =
     (case FunctionDefinition.handler (objs h (handler handlerInfo)) of
        None \<Rightarrow> Inl TypeError
      | Some handlerfile \<Rightarrow> Inr (handlerPath_of handlerfile))"

section \<open>The handler string and its two parts\<close>

lemma handlerPath_of_None_iff:
  "handlerPath_of s = None \<longleftrightarrow> CHR ''.'' \<notin> set s"
  by (simp add: handlerPath_of_def Let_def js_split_single_iff)

lemma handlerPath_of_Some_iff:
  "(\<exists>hp. handlerPath_of s = Some hp) \<longleftrightarrow> CHR ''.'' \<in> set s"
  using handlerPath_of_None_iff [of s] by (cases "handlerPath_of s") auto

lemma handlerPath_of_join:
  assumes "handlerPath_of s = Some hp"
  shows "filename hp @ ''.'' @ method hp = s"
proof -
  let ?ps = "js_split (CHR ''.'') s"
  from assms have len: "2 \<le> length ?ps"
    and hp: "hp = \<lparr>method = last ?ps, filename = js_join ''.'' (butlast ?ps)\<rparr>"
    by (auto simp: handlerPath_of_def Let_def split: if_splits)
  have "js_join ''.'' ?ps = js_join ''.'' (butlast ?ps) @ ''.'' @ last ?ps"
    using len by (rule js_join_butlast_last)
  with hp show ?thesis by simp
qed

lemma handlerPath_of_method:
  assumes "handlerPath_of s = Some hp"
  shows "method hp = rev (takeWhile (\<lambda>x. x \<noteq> CHR ''.'') (rev s))"
  using assms
  by (auto simp: handlerPath_of_def Let_def last_js_split split: if_splits)

lemma handlerPath_of_method_no_dot:
  assumes "handlerPath_of s = Some hp"
  shows "CHR ''.'' \<notin> set (method hp)"
proof -
  have "CHR ''.'' \<notin> set (rev (takeWhile (\<lambda>x. x \<noteq> CHR ''.'') (rev s)))"
    by (auto dest: set_takeWhileD)
  with assms show ?thesis by (simp add: handlerPath_of_method)
qed

text \<open>
  The file name is what precedes the last dot: two decompositions of the
  same string whose last parts have no dot agree.
\<close>

lemma dot_split_unique:
  assumes "f @ c # m = f' @ c # m'" and "c \<notin> set m" and "c \<notin> set m'"
  shows "f = f' \<and> m = m'"
proof -
  from assms(1) have "rev (f @ c # m) = rev (f' @ c # m')"
    by simp
  then have "rev m @ c # rev f = rev m' @ c # rev f'"
    by simp
  moreover from assms(2,3) have "c \<notin> set (rev m)" "c \<notin> set (rev m')"
    by simp_all
  ultimately have "rev m = rev m' \<and> rev f = rev f'"
    by (rule append_sep_unique [rotated 2])
  then show ?thesis by simp
qed

lemma handlerPath_of_complete:
  assumes "CHR ''.'' \<notin> set m"
  shows "handlerPath_of (f @ ''.'' @ m) = Some \<lparr>method = m, filename = f\<rparr>"
proof -
  let ?s = "f @ ''.'' @ m"
  have "CHR ''.'' \<in> set ?s" by simp
  then obtain hp where hp: "handlerPath_of ?s = Some hp"
    using handlerPath_of_Some_iff [of ?s] by blast
  have "filename hp @ CHR ''.'' # method hp = f @ CHR ''.'' # m"
    using handlerPath_of_join [OF hp] by simp
  moreover have "CHR ''.'' \<notin> set (method hp)"
    using hp by (rule handlerPath_of_method_no_dot)
  ultimately have "filename hp = f \<and> method hp = m"
    using assms by (rule dot_split_unique)
  with hp show ?thesis by simp
qed

section \<open>Properties of getHandlerPath\<close>

text \<open>
  C7. When \<open>getHandlerPath\<close> returns a path, the file name, a dot and the
  method name make up the handler string of the function's definition
  again, and the method name contains no dot: the string was cut at its
  last dot.
\<close>

theorem getHandlerPath_roundtrip:
  assumes "getHandlerPath h hi = Inr (Some hp)"
  shows "FunctionDefinition.handler (objs h (handler hi)) =
           Some (filename hp @ ''.'' @ method hp) \<and>
         CHR ''.'' \<notin> set (method hp)"
proof -
  from assms obtain s where s: "FunctionDefinition.handler (objs h (handler hi)) = Some s"
    and hp: "handlerPath_of s = Some hp"
    by (auto simp: getHandlerPath_def split: option.splits)
  from hp have "filename hp @ ''.'' @ method hp = s"
    by (rule handlerPath_of_join)
  moreover from hp have "CHR ''.'' \<notin> set (method hp)"
    by (rule handlerPath_of_method_no_dot)
  ultimately show ?thesis using s by simp
qed

theorem getHandlerPath_roundtrip_witness:
  "getHandlerPath (heap_of [(''f'', fn ''src/app.index.handler'' None)])
     \<lparr>name = ''f'', type = NODE, handler = 0, runtime = None\<rparr> =
     Inr (Some \<lparr>method = ''handler'', filename = ''src/app.index''\<rparr>) \<and>
   FunctionDefinition.handler (objs (heap_of [(''f'', fn ''src/app.index.handler'' None)]) 0) =
     Some ''src/app.index.handler''"
proof -
  let ?h = "heap_of [(''f'', fn ''src/app.index.handler'' None)]"
  let ?hi = "\<lparr>name = ''f'', type = NODE, handler = 0, runtime = None\<rparr>"
  have run: "getHandlerPath ?h ?hi =
      Inr (Some \<lparr>method = ''handler'', filename = ''src/app.index''\<rparr>)"
    by (simp add: getHandlerPath_def handlerPath_of_def fixture_defs)
  from getHandlerPath_roundtrip [OF run] run show ?thesis by simp
qed

end
