(* ===== verification/Find_Handlers.thy ===== *)
theory Find_Handlers
  imports Util Fixtures "HOL-Library.Sublist"
begin

text \<open>
  \<^verbatim>\<open>findHandlers\<close> of \<^verbatim>\<open>src/src/layer.ts\<close>: the classification of every
  function of the service by runtime. The theory gives the runtime table,
  the plugin test and the classification as the source has them, a
  specification of the classification of one function that does not
  mention the order of the tests, and the lemmas that relate the two.
  The file system enters as the predicate \<open>existsSync\<close> on paths.
\<close>

section \<open>The runtime table and the plugin test\<close>

definition runtimeLookup :: "RuntimeType dict" where
  "runtimeLookup = map_of
     [(''nodejs10.x'', NODE),
      (''nodejs12.x'', NODE),
      (''nodejs8.10'', NODE),
      (''python2.7'', PYTHON),
      (''python3.6'', PYTHON),
      (''python3.7'', PYTHON),
      (''python3.8'', PYTHON)]"

definition hasWebpackPlugin :: "Service \<Rightarrow> bool" where
  "hasWebpackPlugin service =
     (case plugins service of
        None \<Rightarrow> False
      | Some ps \<Rightarrow> find (\<lambda>plugin. plugin = ''serverless-webpack'') ps \<noteq> None)"

section \<open>findHandlers\<close>

text \<open>
  The inference of the source dialect of a Node function from the files
  beside its module and from the plugin list, when no dialect is forced:
  the two tests run one after the other, and the second overwrites what
  the first found.
\<close>

definition inferNodeType :: "(string \<Rightarrow> bool) \<Rightarrow> Service \<Rightarrow> HandlerPath \<Rightarrow> RuntimeType \<Rightarrow> RuntimeType" where
  "inferNodeType existsSync service handlerPath t =
     (let t1 = (if existsSync (''./'' @ filename handlerPath @ ''.es.js'') \<or>
                   existsSync (''./'' @ filename handlerPath @ ''.mjs'') \<or>
                   hasWebpackPlugin service
                then NODE_ES6 else t);
          t2 = (if existsSync (''./'' @ filename handlerPath @ ''.ts'') then NODE_TS else t1)
      in t2)"

text \<open>
  The function that \<^verbatim>\<open>findHandlers\<close> maps over the entries of the function
  table. \<open>Inr None\<close> is the bare \<^verbatim>\<open>return\<close> for a Node function whose handler
  reference has no dot, \<open>Inl\<close> the exception of \<open>getHandlerPath\<close>.
\<close>

definition findHandlers_map ::
  "(string \<Rightarrow> bool) \<Rightarrow> heap \<Rightarrow> Service \<Rightarrow> string option \<Rightarrow> RuntimeType option \<Rightarrow>
   string \<times> addr \<Rightarrow> HandlerInfo option result" where
  "findHandlers_map existsSync h service defaultRuntime defaultNodeRuntime entry =
     (let rt = (case FunctionDefinition.runtime (objs h (snd entry)) of
                  None \<Rightarrow> defaultRuntime
                | Some r \<Rightarrow> Some r)
      in case Option.bind rt runtimeLookup of
           None \<Rightarrow>
             Inr (Some \<lparr>name = fst entry, type = UNSUPPORTED, handler = snd entry, runtime = rt\<rparr>)
         | Some t \<Rightarrow>
             (let handlerInfo = \<lparr>name = fst entry, type = t, handler = snd entry, runtime = rt\<rparr> in
              if type handlerInfo = NODE then
                (case getHandlerPath h handlerInfo of
                   Inl e \<Rightarrow> Inl e
                 | Inr None \<Rightarrow> Inr None
                 | Inr (Some handlerPath) \<Rightarrow>
                     (case defaultNodeRuntime of
                        None \<Rightarrow>
                          Inr (Some (handlerInfo
                            \<lparr>type := inferNodeType existsSync service handlerPath (type handlerInfo)\<rparr>))
                      | Some d \<Rightarrow> Inr (Some (handlerInfo\<lparr>type := d\<rparr>))))
              else Inr (Some handlerInfo)))"

definition findHandlers ::
  "(string \<Rightarrow> bool) \<Rightarrow> heap \<Rightarrow> Service \<Rightarrow> string option \<Rightarrow> RuntimeType option \<Rightarrow>
   HandlerInfo list result" where
  "findHandlers existsSync h service defaultRuntime defaultNodeRuntime =
     (case mapM_result
             (findHandlers_map existsSync h service defaultRuntime defaultNodeRuntime)
             (functions service) of
        Inl e \<Rightarrow> Inl e
      | Inr results \<Rightarrow> Inr (filter_defined results))"

section \<open>Specification of the classification of one function\<close>

text \<open>
  The runtime name that counts for a function: its own, else the default.
\<close>

definition effective_runtime :: "heap \<Rightarrow> string option \<Rightarrow> addr \<Rightarrow> string option" where
  "effective_runtime h defaultRuntime a =
     (case FunctionDefinition.runtime (objs h a) of None \<Rightarrow> defaultRuntime | Some r \<Rightarrow> Some r)"

text \<open>
  The dialect of a Node module by precedence: a TypeScript source wins,
  then an ES6 source or the bundler plugin, else plain Node.
\<close>

definition dialect_spec :: "(string \<Rightarrow> bool) \<Rightarrow> Service \<Rightarrow> string \<Rightarrow> RuntimeType" where
  "dialect_spec existsSync service file =
     (if existsSync (''./'' @ file @ ''.ts'') then NODE_TS
      else if existsSync (''./'' @ file @ ''.es.js'') \<or> existsSync (''./'' @ file @ ''.mjs'') \<or>
              ''serverless-webpack'' \<in> set (case plugins service of None \<Rightarrow> [] | Some ps \<Rightarrow> ps)
      then NODE_ES6
      else NODE)"

text \<open>
  The outcome for one function: an exception, no record, or the category
  of the record.
\<close>

datatype outcome = Raises | Dropped | Category RuntimeType

definition classify_spec ::
  "(string \<Rightarrow> bool) \<Rightarrow> heap \<Rightarrow> Service \<Rightarrow> string option \<Rightarrow> RuntimeType option \<Rightarrow> addr \<Rightarrow> outcome" where
  "classify_spec existsSync h service defaultRuntime defaultNodeRuntime a =
     (case Option.bind (effective_runtime h defaultRuntime a) runtimeLookup of
        None \<Rightarrow> Category UNSUPPORTED
      | Some t \<Rightarrow>
          if t \<noteq> NODE then Category t
          else (case FunctionDefinition.handler (objs h a) of
                  None \<Rightarrow> Raises
                | Some s \<Rightarrow>
                    if CHR ''.'' \<notin> set s then Dropped
                    else (case defaultNodeRuntime of
                            Some d \<Rightarrow> Category d
                          | None \<Rightarrow>
                              Category (dialect_spec existsSync service
                                (rev (tl (dropWhile (\<lambda>x. x \<noteq> CHR ''.'') (rev s))))))))"

text \<open>What the mapped function returns for an outcome.\<close>

definition outcome_result ::
  "heap \<Rightarrow> string option \<Rightarrow> string \<times> addr \<Rightarrow> outcome \<Rightarrow> HandlerInfo option result" where
  "outcome_result h defaultRuntime entry out =
     (case out of
        Raises \<Rightarrow> Inl TypeError
      | Dropped \<Rightarrow> Inr None
      | Category t \<Rightarrow>
          Inr (Some \<lparr>name = fst entry, type = t, handler = snd entry,
                     runtime = effective_runtime h defaultRuntime (snd entry)\<rparr>))"

text \<open>
  The specification of the whole function: an exception if some function
  raises, else the records of the functions that are not dropped, in the
  order of the function table.
\<close>

definition findHandlers_spec ::
  "(string \<Rightarrow> bool) \<Rightarrow> heap \<Rightarrow> Service \<Rightarrow> string option \<Rightarrow> RuntimeType option \<Rightarrow>
   HandlerInfo list result" where
  "findHandlers_spec existsSync h service defaultRuntime defaultNodeRuntime =
     (let out = (\<lambda>e. classify_spec existsSync h service defaultRuntime defaultNodeRuntime (snd e)) in
      if \<exists>e \<in> set (functions service). out e = Raises then Inl TypeError
      else Inr (concat (map (\<lambda>e. case out e of
                   Category t \<Rightarrow>
                     [\<lparr>name = fst e, type = t, handler = snd e,
                       runtime = effective_runtime h defaultRuntime (snd e)\<rparr>]
                 | _ \<Rightarrow> []) (functions service))))"

text \<open>
  A function definition that makes \<open>findHandlers\<close> raise: a Node runtime
  and no handler.
\<close>

definition is_node_without_handler :: "heap \<Rightarrow> string option \<Rightarrow> addr \<Rightarrow> bool" where
  "is_node_without_handler h defaultRuntime a \<longleftrightarrow>
     Option.bind (effective_runtime h defaultRuntime a) runtimeLookup = Some NODE \<and>
     FunctionDefinition.handler (objs h a) = None"

text \<open>
  Functions for an example: a Node function whose handler reference has
  no method, and a Python function whose handler reference has none
  either.
\<close>

definition funcs_malformed :: "(string \<times> FunctionDefinition) list" where
  "funcs_malformed =
     [(''func-a'', fn ''mylambda'' (Some ''nodejs8.10'')),
      (''func-b'', fn ''main'' (Some ''python3.8''))]"

text \<open>
  A handler record is well typed when it carries the runtime name that
  counts for its function and a category that this name allows.
\<close>

definition well_typed :: "heap \<Rightarrow> string option \<Rightarrow> RuntimeType option \<Rightarrow> HandlerInfo \<Rightarrow> bool" where
  "well_typed h defaultRuntime defaultNodeRuntime hi \<longleftrightarrow>
     runtime hi = effective_runtime h defaultRuntime (handler hi) \<and>
     (case Option.bind (runtime hi) runtimeLookup of
        None \<Rightarrow> type hi = UNSUPPORTED
      | Some t \<Rightarrow>
          if t = NODE then
            (case defaultNodeRuntime of
               None \<Rightarrow> type hi = NODE \<or> type hi = NODE_TS \<or> type hi = NODE_ES6
             | Some d \<Rightarrow> type hi = d)
          else type hi = PYTHON)"

section \<open>Lemmas on the runtime table and the plugin test\<close>

lemma runtimeLookup_dom:
  "dom runtimeLookup =
     {''nodejs10.x'', ''nodejs12.x'', ''nodejs8.10'',
      ''python2.7'', ''python3.6'', ''python3.7'', ''python3.8''}"
  unfolding runtimeLookup_def by (auto simp: dom_map_of_conv_image_fst)

lemma runtimeLookup_ran: "runtimeLookup r = Some t \<Longrightarrow> t = NODE \<or> t = PYTHON"
  by (auto simp: runtimeLookup_def split: if_splits)

lemma bind_runtimeLookup_ran:
  "Option.bind rt runtimeLookup = Some t \<Longrightarrow> t = NODE \<or> t = PYTHON"
  by (cases rt) (auto dest: runtimeLookup_ran)

lemma runtimeLookup_NODE_iff:
  "runtimeLookup r = Some NODE \<longleftrightarrow> r \<in> {''nodejs10.x'', ''nodejs12.x'', ''nodejs8.10''}"
  by (auto simp: runtimeLookup_def split: if_splits)

lemma runtimeLookup_PYTHON_iff:
  "runtimeLookup r = Some PYTHON \<longleftrightarrow>
     r \<in> {''python2.7'', ''python3.6'', ''python3.7'', ''python3.8''}"
  by (auto simp: runtimeLookup_def split: if_splits)

lemma hasWebpackPlugin_iff:
  "hasWebpackPlugin service \<longleftrightarrow>
     ''serverless-webpack'' \<in> set (case plugins service of None \<Rightarrow> [] | Some ps \<Rightarrow> ps)"
  by (cases "plugins service") (simp_all add: hasWebpackPlugin_def find_None_iff)

section \<open>The source agrees with the specification\<close>

lemma inferNodeType_spec:
  "inferNodeType existsSync service hp NODE = dialect_spec existsSync service (filename hp)"
  by (simp add: inferNodeType_def dialect_spec_def hasWebpackPlugin_iff)

text \<open>The file name of a handler path is what precedes the last dot.\<close>

lemma handlerPath_of_filename:
  assumes "handlerPath_of s = Some hp"
  shows "filename hp = rev (tl (dropWhile (\<lambda>x. x \<noteq> CHR ''.'') (rev s)))"
proof -
  let ?m = "method hp" and ?f = "filename hp"
  have s: "s = ?f @ ''.'' @ ?m"
    by (rule handlerPath_of_join [OF assms, symmetric])
  have m: "CHR ''.'' \<notin> set ?m"
    by (rule handlerPath_of_method_no_dot [OF assms])
  have "rev s = rev ?m @ CHR ''.'' # rev ?f"
    by (subst s) simp
  with m have "dropWhile (\<lambda>x. x \<noteq> CHR ''.'') (rev s) = CHR ''.'' # rev ?f"
    by (auto simp: dropWhile_append3)
  then show ?thesis by simp
qed

lemma findHandlers_map_spec:
  "findHandlers_map existsSync h service defaultRuntime defaultNodeRuntime entry =
   outcome_result h defaultRuntime entry
     (classify_spec existsSync h service defaultRuntime defaultNodeRuntime (snd entry))"
proof -
  let ?rt = "effective_runtime h defaultRuntime (snd entry)"
  show ?thesis
  proof (cases "Option.bind ?rt runtimeLookup")
    case None
    then show ?thesis
      by (simp add: findHandlers_map_def classify_spec_def outcome_result_def
          effective_runtime_def)
  next
    case (Some t)
    show ?thesis
    proof (cases "t = NODE")
      case False
      with Some show ?thesis
        by (simp add: findHandlers_map_def classify_spec_def outcome_result_def
            effective_runtime_def)
    next
      case True
      show ?thesis
      proof (cases "FunctionDefinition.handler (objs h (snd entry))")
        case None
        with Some True show ?thesis
          by (simp add: findHandlers_map_def classify_spec_def outcome_result_def
              effective_runtime_def getHandlerPath_def)
      next
        case (Some s)
        note s = this
        show ?thesis
        proof (cases "handlerPath_of s")
          case None
          then have "CHR ''.'' \<notin> set s"
            by (simp add: handlerPath_of_None_iff)
          with None s \<open>Option.bind ?rt runtimeLookup = Some t\<close> True show ?thesis
            by (simp add: findHandlers_map_def classify_spec_def outcome_result_def
                effective_runtime_def getHandlerPath_def)
        next
          case (Some hp)
          then have dot: "CHR ''.'' \<in> set s"
            using handlerPath_of_Some_iff [of s] by blast
          from Some have "filename hp = rev (tl (dropWhile (\<lambda>x. x \<noteq> CHR ''.'') (rev s)))"
            by (rule handlerPath_of_filename)
          with Some dot s \<open>Option.bind ?rt runtimeLookup = Some t\<close> True show ?thesis
            by (simp add: findHandlers_map_def classify_spec_def outcome_result_def
                effective_runtime_def getHandlerPath_def inferNodeType_spec
                split: option.splits)
        qed
      qed
    qed
  qed
qed

lemma mapM_outcome_result:
  "mapM_result (\<lambda>e. outcome_result h dr e (out e)) es =
     (if \<exists>e \<in> set es. out e = Raises then Inl TypeError
      else Inr (map (\<lambda>e. case out e of
                  Category t \<Rightarrow>
                    Some \<lparr>name = fst e, type = t, handler = snd e,
                      runtime = effective_runtime h dr (snd e)\<rparr>
                | _ \<Rightarrow> None) es))"
  by (induction es) (auto simp: outcome_result_def split: outcome.splits)

lemma classify_spec_Raises_iff:
  "classify_spec existsSync h service dr dn a = Raises \<longleftrightarrow> is_node_without_handler h dr a"
  by (auto simp: classify_spec_def is_node_without_handler_def
      split: option.splits if_splits)

lemma findHandlers_by_outcome:
  "findHandlers existsSync h service dr dn =
     (if \<exists>e \<in> set (functions service).
           classify_spec existsSync h service dr dn (snd e) = Raises
      then Inl TypeError
      else Inr (filter_defined (map (\<lambda>e.
             case classify_spec existsSync h service dr dn (snd e) of
               Category t \<Rightarrow>
                 Some \<lparr>name = fst e, type = t, handler = snd e,
                   runtime = effective_runtime h dr (snd e)\<rparr>
             | _ \<Rightarrow> None) (functions service))))"
proof -
  have "findHandlers_map existsSync h service dr dn =
        (\<lambda>e. outcome_result h dr e (classify_spec existsSync h service dr dn (snd e)))"
    by (rule ext) (rule findHandlers_map_spec)
  then show ?thesis
    by (simp add: findHandlers_def mapM_outcome_result)
qed

lemma findHandlers_Inr_set:
  assumes "findHandlers existsSync h service dr dn = Inr hs"
  shows "set hs =
    {hi. \<exists>e \<in> set (functions service). findHandlers_map existsSync h service dr dn e = Inr (Some hi)}"
proof -
  from assms obtain rs where rs: "mapM_result (findHandlers_map existsSync h service dr dn)
      (functions service) = Inr rs" and hs: "hs = filter_defined rs"
    by (auto simp: findHandlers_def split: sum.splits)
  from mapM_result_set [OF rs] hs show ?thesis by auto
qed

lemma findHandlers_map_fields:
  assumes "findHandlers_map existsSync h service dr dn e = Inr (Some hi)"
  shows "name hi = fst e" and "handler hi = snd e"
    and "runtime hi = effective_runtime h dr (snd e)"
  using assms unfolding findHandlers_map_spec outcome_result_def
  by (auto split: outcome.splits)

lemma findHandlers_map_well_typed:
  assumes "findHandlers_map existsSync h service dr dn e = Inr (Some hi)"
  shows "well_typed h dr dn hi"
proof -
  from assms obtain t where
    t: "classify_spec existsSync h service dr dn (snd e) = Category t"
    and hi: "hi = \<lparr>name = fst e, type = t, handler = snd e,
               runtime = effective_runtime h dr (snd e)\<rparr>"
    unfolding findHandlers_map_spec outcome_result_def by (auto split: outcome.splits)
  from t show ?thesis
    unfolding hi well_typed_def classify_spec_def dialect_spec_def
    by (auto split: option.splits if_splits dest: bind_runtimeLookup_ran)
qed

lemmas findHandlers_eval =
  findHandlers_def findHandlers_map_def getHandlerPath_def handlerPath_of_def
  inferNodeType_def hasWebpackPlugin_def runtimeLookup_def effective_runtime_def Let_def

section \<open>Runs on the fixtures\<close>

lemma run_global_no_default:
  "findHandlers (mock []) (heap_of funcs_global) (service_of funcs_global None) None None =
     Inr [\<lparr>name = ''func-a'', type = UNSUPPORTED, handler = 0, runtime = None\<rparr>]"
  by (simp add: findHandlers_eval fixture_defs)

lemma run_mylambda_ts_and_es6:
  "findHandlers (mock [''mylambda.es.js'', ''mylambda.ts'']) (heap_of funcs_mylambda)
     (service_of funcs_mylambda None) None None =
     Inr [\<lparr>name = ''func-a'', type = NODE_TS, handler = 0, runtime = Some ''nodejs8.10''\<rparr>]"
  by (simp add: findHandlers_eval fixture_defs)

lemma run_mylambda_es6:
  "findHandlers (mock [''mylambda.mjs'']) (heap_of funcs_mylambda)
     (service_of funcs_mylambda None) None None =
     Inr [\<lparr>name = ''func-a'', type = NODE_ES6, handler = 0, runtime = Some ''nodejs8.10''\<rparr>]"
  by (simp add: findHandlers_eval fixture_defs)

lemma run_mylambda_forced:
  "findHandlers (mock [''mylambda.ts'']) (heap_of funcs_mylambda)
     (service_of funcs_mylambda None) None (Some NODE_ES6) =
     Inr [\<lparr>name = ''func-a'', type = NODE_ES6, handler = 0, runtime = Some ''nodejs8.10''\<rparr>]"
  by (simp add: findHandlers_eval fixture_defs)

lemma run_malformed:
  "findHandlers (mock []) (heap_of funcs_malformed) (service_of funcs_malformed None) None None =
     Inr [\<lparr>name = ''func-b'', type = PYTHON, handler = 1, runtime = Some ''python3.8''\<rparr>]"
  by (simp add: findHandlers_eval fixture_defs funcs_malformed_def)

text \<open>The record of a Node function with a well-formed handler reference.\<close>

lemma findHandlers_node_record:
  assumes "findHandlers existsSync h service dr dn = Inr hs"
    and "(nm, a) \<in> set (functions service)"
    and "Option.bind (effective_runtime h dr a) runtimeLookup = Some NODE"
    and "FunctionDefinition.handler (objs h a) = Some (file @ ''.'' @ m)"
    and "CHR ''.'' \<notin> set m"
  shows "\<lparr>name = nm,
           type = (case dn of Some d \<Rightarrow> d | None \<Rightarrow> dialect_spec existsSync service file),
           handler = a, runtime = effective_runtime h dr a\<rparr> \<in> set hs"
proof -
  have "handlerPath_of (file @ ''.'' @ m) = Some \<lparr>method = m, filename = file\<rparr>"
    using assms(5) by (rule handlerPath_of_complete)
  with assms(3,4)
  have "findHandlers_map existsSync h service dr dn (nm, a) =
      Inr (Some \<lparr>name = nm,
        type = (case dn of Some d \<Rightarrow> d | None \<Rightarrow> dialect_spec existsSync service file),
        handler = a, runtime = effective_runtime h dr a\<rparr>)"
    by (simp add: findHandlers_map_def getHandlerPath_def inferNodeType_spec
        effective_runtime_def split: option.splits)
  with assms(2) show ?thesis
    unfolding findHandlers_Inr_set [OF assms(1)] by force
qed

section \<open>Properties of findHandlers\<close>

text \<open>
  C2. \<open>findHandlers\<close> computes the classification that the specification
  describes: it raises exactly when some function raises, and otherwise
  returns, in the order of the function table, one record for every
  function that is not dropped, with the category by precedence
  (unsupported runtime, non-Node runtime as in the table, forced dialect,
  TypeScript before ES6 before plain Node).
\<close>

theorem findHandlers_refines_spec:
  "findHandlers existsSync h service defaultRuntime defaultNodeRuntime =
   findHandlers_spec existsSync h service defaultRuntime defaultNodeRuntime"
  by (simp add: findHandlers_by_outcome findHandlers_spec_def
      filter_defined_concat comp_def option.case_distrib outcome.case_distrib
      cong: outcome.case_cong)

theorem findHandlers_refines_spec_witness:
  "findHandlers_spec (mock [''mylambda.es.js'', ''mylambda.ts'']) (heap_of funcs_mylambda)
     (service_of funcs_mylambda None) None None =
     Inr [\<lparr>name = ''func-a'', type = NODE_TS, handler = 0, runtime = Some ''nodejs8.10''\<rparr>]"
  using findHandlers_refines_spec [of "mock [''mylambda.es.js'', ''mylambda.ts'']"
      "heap_of funcs_mylambda" "service_of funcs_mylambda None" None None]
  by (simp add: run_mylambda_ts_and_es6)

text \<open>
  C18. A function whose runtime name is absent, or is not in the runtime
  table, is classified as unsupported and is still in the result, with
  the runtime name as it was found.
\<close>

theorem findHandlers_unsupported:
  assumes "findHandlers existsSync h service defaultRuntime defaultNodeRuntime = Inr hs"
    and "(nm, a) \<in> set (functions service)"
    and "effective_runtime h defaultRuntime a = None \<or>
         (\<exists>r. effective_runtime h defaultRuntime a = Some r \<and> r \<notin> dom runtimeLookup)"
  shows "\<lparr>name = nm, type = UNSUPPORTED, handler = a,
           runtime = effective_runtime h defaultRuntime a\<rparr> \<in> set hs"
proof -
  from assms(3) have "Option.bind (effective_runtime h defaultRuntime a) runtimeLookup = None"
    by (auto simp: domIff)
  then have "findHandlers_map existsSync h service defaultRuntime defaultNodeRuntime (nm, a) =
      Inr (Some \<lparr>name = nm, type = UNSUPPORTED, handler = a,
                  runtime = effective_runtime h defaultRuntime a\<rparr>)"
    by (simp add: findHandlers_map_spec classify_spec_def outcome_result_def)
  with assms(2) show ?thesis
    unfolding findHandlers_Inr_set [OF assms(1)] by force
qed

theorem findHandlers_unsupported_witness:
  "(\<exists>hs. findHandlers (mock []) (heap_of funcs_global) (service_of funcs_global None)
           None None = Inr hs \<and>
         \<lparr>name = ''func-a'', type = UNSUPPORTED, handler = 0, runtime = None\<rparr> \<in> set hs) \<and>
   effective_runtime (heap_of funcs_global) None 0 = None \<and>
   (''func-a'', 0) \<in> set (functions (service_of funcs_global None))"
proof -
  have mem: "(''func-a'', 0) \<in> set (functions (service_of funcs_global None))"
    by (simp add: fixture_defs)
  have rt: "effective_runtime (heap_of funcs_global) None 0 = None"
    by (simp add: effective_runtime_def fixture_defs)
  from findHandlers_unsupported [OF run_global_no_default mem] rt mem
  show ?thesis by (subst run_global_no_default) simp
qed

text \<open>
  C12. \<open>findHandlers\<close> raises exactly when the function table holds a
  function of a Node runtime whose definition has no handler; in every
  other case it returns a list of records.
\<close>

theorem findHandlers_raises_iff:
  "findHandlers existsSync h service defaultRuntime defaultNodeRuntime = Inl TypeError \<longleftrightarrow>
   (\<exists>e \<in> set (functions service). is_node_without_handler h defaultRuntime (snd e))"
  by (simp add: findHandlers_by_outcome classify_spec_Raises_iff)

theorem findHandlers_raises_iff_witness:
  "findHandlers (mock []) heap_node
     (createMockService ''us-east-1'' [(''f'', 0)] None) None None = Inl TypeError"
proof -
  have "is_node_without_handler heap_node None 0"
    by (simp add: is_node_without_handler_def effective_runtime_def runtimeLookup_def)
  then show ?thesis
    unfolding findHandlers_raises_iff by (simp add: createMockService_def)
qed

text \<open>
  The records come in the order of the function table and only for its
  entries: the names of the records are a subsequence of the names of the
  table, and every record carries the address of the definition that the
  table has under its name and the runtime name that counts for it.
\<close>

theorem findHandlers_order:
  assumes "findHandlers existsSync h service defaultRuntime defaultNodeRuntime = Inr hs"
  shows "subseq (map (\<lambda>hi. (name hi, handler hi)) hs) (functions service) \<and>
         (\<forall>hi \<in> set hs. runtime hi = effective_runtime h defaultRuntime (handler hi))"
proof -
  let ?out = "\<lambda>e. classify_spec existsSync h service defaultRuntime defaultNodeRuntime (snd e)"
  let ?rec = "\<lambda>e. case ?out e of
       Category t \<Rightarrow>
         Some \<lparr>name = fst e, type = t, handler = snd e,
           runtime = effective_runtime h defaultRuntime (snd e)\<rparr>
     | _ \<Rightarrow> None"
  from assms have hs: "hs = filter_defined (map ?rec (functions service))"
    by (auto simp: findHandlers_by_outcome split: if_splits)
  have "subseq (map (\<lambda>hi. (name hi, handler hi)) (filter_defined (map ?rec es))) es" for es
    by (induction es) (auto split: outcome.splits)
  moreover have "\<forall>hi \<in> set (filter_defined (map ?rec es)).
      runtime hi = effective_runtime h defaultRuntime (handler hi)" for es
    by (induction es) (auto split: outcome.splits)
  ultimately show ?thesis unfolding hs by blast
qed

theorem findHandlers_order_witness:
  "subseq [(''func-a'', 0)] (functions (service_of funcs_mylambda None)) \<and>
   effective_runtime (heap_of funcs_mylambda) None 0 = Some ''nodejs8.10''"
  using findHandlers_order [OF run_mylambda_ts_and_es6]
  by simp

text \<open>
  C31. TypeScript wins: for a function of a Node runtime with a handler
  reference \<open>file.method\<close>, when no dialect is forced and the file
  \<open>./file.ts\<close> exists, the record has the TypeScript category, whether
  or not an ES6 source exists or the bundler plugin is listed.
\<close>

theorem findHandlers_typescript_wins:
  assumes "findHandlers existsSync h service defaultRuntime None = Inr hs"
    and "(nm, a) \<in> set (functions service)"
    and "Option.bind (effective_runtime h defaultRuntime a) runtimeLookup = Some NODE"
    and "FunctionDefinition.handler (objs h a) = Some (file @ ''.'' @ m)"
    and "CHR ''.'' \<notin> set m"
    and "existsSync (''./'' @ file @ ''.ts'')"
  shows "\<lparr>name = nm, type = NODE_TS, handler = a,
           runtime = effective_runtime h defaultRuntime a\<rparr> \<in> set hs"
proof -
  have "handlerPath_of (file @ ''.'' @ m) = Some \<lparr>method = m, filename = file\<rparr>"
    using assms(5) by (rule handlerPath_of_complete)
  with assms(3,4,6)
  have "findHandlers_map existsSync h service defaultRuntime None (nm, a) =
      Inr (Some \<lparr>name = nm, type = NODE_TS, handler = a,
                  runtime = effective_runtime h defaultRuntime a\<rparr>)"
    by (simp add: findHandlers_map_def getHandlerPath_def inferNodeType_def
        effective_runtime_def)
  with assms(2) show ?thesis
    unfolding findHandlers_Inr_set [OF assms(1)] by force
qed

theorem findHandlers_typescript_wins_witness:
  "(\<exists>hs. findHandlers (mock [''mylambda.es.js'', ''mylambda.ts'']) (heap_of funcs_mylambda)
           (service_of funcs_mylambda None) None None = Inr hs \<and>
         \<lparr>name = ''func-a'', type = NODE_TS, handler = 0, runtime = Some ''nodejs8.10''\<rparr>
           \<in> set hs) \<and>
   mock [''mylambda.es.js'', ''mylambda.ts''] ''./mylambda.ts'' \<and>
   mock [''mylambda.es.js'', ''mylambda.ts''] ''./mylambda.es.js''"
proof -
  let ?fs = "mock [''mylambda.es.js'', ''mylambda.ts'']"
  have mem: "(''func-a'', 0) \<in> set (functions (service_of funcs_mylambda None))"
    by (simp add: fixture_defs)
  have rt: "Option.bind (effective_runtime (heap_of funcs_mylambda) None 0) runtimeLookup =
      Some NODE"
    by (simp add: effective_runtime_def runtimeLookup_def fixture_defs)
  have hd: "FunctionDefinition.handler (objs (heap_of funcs_mylambda) 0) =
      Some (''mylambda'' @ ''.'' @ ''handler'')"
    by (simp add: fixture_defs)
  have nodot: "CHR ''.'' \<notin> set ''handler''" by simp
  have ts: "?fs (''./'' @ ''mylambda'' @ ''.ts'')" by (simp add: mock_def)
  from findHandlers_typescript_wins [OF run_mylambda_ts_and_es6 mem rt hd nodot ts]
  show ?thesis by (subst run_mylambda_ts_and_es6) (simp add: effective_runtime_def fixture_defs)
qed

text \<open>
  C19. A malformed handler reference is a silent skip for a Node function:
  when the handler reference of a function of a Node runtime has no dot,
  the result of a call that returns has no record for its definition.
\<close>

theorem findHandlers_drops_malformed:
  assumes "findHandlers existsSync h service defaultRuntime defaultNodeRuntime = Inr hs"
    and "Option.bind (effective_runtime h defaultRuntime a) runtimeLookup = Some NODE"
    and "FunctionDefinition.handler (objs h a) = Some s" and "CHR ''.'' \<notin> set s"
  shows "\<forall>hi \<in> set hs. handler hi \<noteq> a"
proof
  fix hi assume "hi \<in> set hs"
  then obtain e where e: "e \<in> set (functions service)"
    "findHandlers_map existsSync h service defaultRuntime defaultNodeRuntime e = Inr (Some hi)"
    unfolding findHandlers_Inr_set [OF assms(1)] by auto
  show "handler hi \<noteq> a"
  proof
    assume "handler hi = a"
    with findHandlers_map_fields(2) [OF e(2)] have "snd e = a" by simp
    with assms(2-4) have "classify_spec existsSync h service defaultRuntime defaultNodeRuntime
        (snd e) = Dropped"
      by (simp add: classify_spec_def)
    with e(2) show False
      by (simp add: findHandlers_map_spec outcome_result_def)
  qed
qed

theorem findHandlers_drops_malformed_witness:
  "list_all (\<lambda>hi. handler hi \<noteq> 0)
     [\<lparr>name = ''func-b'', type = PYTHON, handler = 1, runtime = Some ''python3.8''\<rparr>] \<and>
   FunctionDefinition.handler (objs (heap_of funcs_malformed) 0) = Some ''mylambda''"
proof -
  have rt: "Option.bind (effective_runtime (heap_of funcs_malformed) None 0) runtimeLookup =
      Some NODE"
    by (simp add: effective_runtime_def runtimeLookup_def fixture_defs funcs_malformed_def)
  have hd: "FunctionDefinition.handler (objs (heap_of funcs_malformed) 0) = Some ''mylambda''"
    by (simp add: fixture_defs funcs_malformed_def)
  have nodot: "CHR ''.'' \<notin> set ''mylambda''" by simp
  from findHandlers_drops_malformed [OF run_malformed rt hd nodot] hd
  show ?thesis by simp
qed

text \<open>
  C32. ES6 when there is no TypeScript source: for a function of a Node
  runtime with handler reference \<open>file.method\<close>, when no dialect is forced
  and \<open>./file.ts\<close> does not exist, the record has the ES6 category if
  \<open>./file.es.js\<close> or \<open>./file.mjs\<close> exists or the bundler plugin is listed,
  and the plain Node category otherwise.
\<close>

theorem findHandlers_es6_source:
  assumes "findHandlers existsSync h service defaultRuntime None = Inr hs"
    and "(nm, a) \<in> set (functions service)"
    and "Option.bind (effective_runtime h defaultRuntime a) runtimeLookup = Some NODE"
    and "FunctionDefinition.handler (objs h a) = Some (file @ ''.'' @ m)"
    and "CHR ''.'' \<notin> set m"
    and "\<not> existsSync (''./'' @ file @ ''.ts'')"
  shows "\<lparr>name = nm,
           type = (if existsSync (''./'' @ file @ ''.es.js'') \<or>
                      existsSync (''./'' @ file @ ''.mjs'') \<or> hasWebpackPlugin service
                   then NODE_ES6 else NODE),
           handler = a, runtime = effective_runtime h defaultRuntime a\<rparr> \<in> set hs"
  using findHandlers_node_record [OF assms(1-5)] assms(6)
  by (simp add: dialect_spec_def hasWebpackPlugin_iff)

theorem findHandlers_es6_source_witness:
  "(\<exists>hs. findHandlers (mock [''mylambda.mjs'']) (heap_of funcs_mylambda)
           (service_of funcs_mylambda None) None None = Inr hs \<and>
         \<lparr>name = ''func-a'', type = NODE_ES6, handler = 0, runtime = Some ''nodejs8.10''\<rparr>
           \<in> set hs) \<and>
   \<not> mock [''mylambda.mjs''] ''./mylambda.ts'' \<and> mock [''mylambda.mjs''] ''./mylambda.mjs''"
proof -
  have mem: "(''func-a'', 0) \<in> set (functions (service_of funcs_mylambda None))"
    by (simp add: fixture_defs)
  have rt: "Option.bind (effective_runtime (heap_of funcs_mylambda) None 0) runtimeLookup =
      Some NODE"
    by (simp add: effective_runtime_def runtimeLookup_def fixture_defs)
  have hd: "FunctionDefinition.handler (objs (heap_of funcs_mylambda) 0) =
      Some (''mylambda'' @ ''.'' @ ''handler'')"
    by (simp add: fixture_defs)
  have nodot: "CHR ''.'' \<notin> set ''handler''" by simp
  have ts: "\<not> mock [''mylambda.mjs''] (''./'' @ ''mylambda'' @ ''.ts'')"
    by (simp add: mock_def)
  from findHandlers_es6_source [OF run_mylambda_es6 mem rt hd nodot ts]
  show ?thesis by (subst run_mylambda_es6) (simp add: effective_runtime_def fixture_defs)
qed

text \<open>
  C33. A forced dialect is applied without a look at the file system: for a
  function of a Node runtime with a well-formed handler reference, the
  record has the category that \<open>defaultNodeRuntime\<close> gives, whatever files
  exist.
\<close>

theorem findHandlers_forced_dialect:
  assumes "findHandlers existsSync h service defaultRuntime (Some d) = Inr hs"
    and "(nm, a) \<in> set (functions service)"
    and "Option.bind (effective_runtime h defaultRuntime a) runtimeLookup = Some NODE"
    and "FunctionDefinition.handler (objs h a) = Some (file @ ''.'' @ m)"
    and "CHR ''.'' \<notin> set m"
  shows "\<lparr>name = nm, type = d, handler = a,
           runtime = effective_runtime h defaultRuntime a\<rparr> \<in> set hs"
  using findHandlers_node_record [OF assms] by simp

theorem findHandlers_forced_dialect_witness:
  "(\<exists>hs. findHandlers (mock [''mylambda.ts'']) (heap_of funcs_mylambda)
           (service_of funcs_mylambda None) None (Some NODE_ES6) = Inr hs \<and>
         \<lparr>name = ''func-a'', type = NODE_ES6, handler = 0, runtime = Some ''nodejs8.10''\<rparr>
           \<in> set hs) \<and>
   mock [''mylambda.ts''] ''./mylambda.ts''"
proof -
  have mem: "(''func-a'', 0) \<in> set (functions (service_of funcs_mylambda None))"
    by (simp add: fixture_defs)
  have rt: "Option.bind (effective_runtime (heap_of funcs_mylambda) None 0) runtimeLookup =
      Some NODE"
    by (simp add: effective_runtime_def runtimeLookup_def fixture_defs)
  have hd: "FunctionDefinition.handler (objs (heap_of funcs_mylambda) 0) =
      Some (''mylambda'' @ ''.'' @ ''handler'')"
    by (simp add: fixture_defs)
  have nodot: "CHR ''.'' \<notin> set ''handler''" by simp
  from findHandlers_forced_dialect [OF run_mylambda_forced mem rt hd nodot]
  show ?thesis by (subst run_mylambda_forced) (simp add: effective_runtime_def fixture_defs mock_def)
qed

text \<open>
  C15. Every record that \<open>findHandlers\<close> returns is well typed: it names a
  function of the service with its definition, it carries the runtime name
  that counts for the function, and its category agrees with that name:
  unsupported when the table does not know the name, Python for a Python
  runtime, and for a Node runtime the forced dialect or else one of the
  three Node dialects.
\<close>

theorem findHandlers_well_typed:
  assumes "findHandlers existsSync h service dr dn = Inr hs"
  shows "list_all (\<lambda>hi. (name hi, handler hi) \<in> set (functions service) \<and>
           well_typed h dr dn hi) hs"
  unfolding list_all_iff findHandlers_Inr_set [OF assms]
  using findHandlers_map_fields(1,2) findHandlers_map_well_typed
  by fastforce

theorem findHandlers_well_typed_witness:
  "findHandlers (mock []) (heap_of funcs_malformed) (service_of funcs_malformed None) None None =
     Inr [\<lparr>name = ''func-b'', type = PYTHON, handler = 1, runtime = Some ''python3.8''\<rparr>] \<and>
   well_typed (heap_of funcs_malformed) None None
     \<lparr>name = ''func-b'', type = PYTHON, handler = 1, runtime = Some ''python3.8''\<rparr>"
  using findHandlers_well_typed [OF run_malformed] run_malformed by simp

end
