(* ===== verification/Layer_Tests.thy ===== *)
theory Layer_Tests
  imports Find_Handlers Apply_Layers
begin

text \<open>
  The test suite \<^verbatim>\<open>src/unnamed/part_000\<close>, run on the model. Every test is a
  definition that says what the test does and expects: the fixtures it
  builds, the call it makes, and the matcher it applies to the result. The
  theorems at the end say that the tests pass. The first two tests of
  \<open>findHandlers\<close> run on the file system of the repository; the model runs
  them on a file system without the probed files.
\<close>

section \<open>The matchers\<close>

text \<open>
  An object literal for a function definition, as the tests write it: a
  property is given with its value or is left out.
\<close>

record PartialDefinition =
  p_handler :: "string option"
  p_runtime :: "string option"
  p_layers :: "string list option"

text \<open>An object literal for a handler record.\<close>

record ExpectedInfo =
  e_handler :: PartialDefinition
  e_type :: "RuntimeType option"
  e_runtime :: "string option"

text \<open>
  \<^verbatim>\<open>toMatchObject\<close> on one function definition: the properties that the
  literal gives have the given values; the others are not looked at.
\<close>

definition matches_definition :: "heap \<Rightarrow> addr \<Rightarrow> PartialDefinition \<Rightarrow> bool" where
  "matches_definition h a pd \<longleftrightarrow>
     (case p_handler pd of None \<Rightarrow> True
      | Some s \<Rightarrow> FunctionDefinition.handler (objs h a) = Some s) \<and>
     (case p_runtime pd of None \<Rightarrow> True
      | Some r \<Rightarrow> FunctionDefinition.runtime (objs h a) = Some r) \<and>
     (case p_layers pd of None \<Rightarrow> True
      | Some ls \<Rightarrow> layers_of h a = Some ls)"

definition matches_info :: "heap \<Rightarrow> HandlerInfo \<Rightarrow> ExpectedInfo \<Rightarrow> bool" where
  "matches_info h hi ex \<longleftrightarrow>
     matches_definition h (handler hi) (e_handler ex) \<and>
     (case e_type ex of None \<Rightarrow> True | Some t \<Rightarrow> type hi = t) \<and>
     (case e_runtime ex of None \<Rightarrow> True | Some r \<Rightarrow> runtime hi = Some r)"

text \<open>
  \<^verbatim>\<open>expect(result).toMatchObject([...])\<close>: the call has not thrown, the
  result has as many records as the literal, and each record matches its
  literal.
\<close>

definition toMatchObject :: "heap \<Rightarrow> HandlerInfo list result \<Rightarrow> ExpectedInfo list \<Rightarrow> bool" where
  "toMatchObject h result expected \<longleftrightarrow>
     (case result of
        Inl e \<Rightarrow> False
      | Inr his \<Rightarrow> list_all2 (matches_info h) his expected)"

text \<open>
  \<^verbatim>\<open>expect(handler.handler).toEqual({...})\<close>: the function definition has
  the properties of the literal with their values, and no others.
\<close>

definition toEqual :: "heap \<Rightarrow> addr \<Rightarrow> PartialDefinition \<Rightarrow> bool" where
  "toEqual h a pd \<longleftrightarrow>
     FunctionDefinition.handler (objs h a) = p_handler pd \<and>
     FunctionDefinition.runtime (objs h a) = p_runtime pd \<and>
     layers_of h a = p_layers pd"

section \<open>The tests of findHandlers\<close>

definition it_finds_all_node_and_python :: bool where
  "it_finds_all_node_and_python \<longleftrightarrow>
     (let existsSync = mock [];
          h = heap_of funcs_all;
          mockService = service_of funcs_all None;
          result = findHandlers existsSync h mockService None None
      in toMatchObject h result
          [\<lparr>e_handler = \<lparr>p_handler = Some ''myfile.handler'', p_runtime = Some ''nodejs8.10'', p_layers = None\<rparr>,
             e_type = Some NODE, e_runtime = Some ''nodejs8.10''\<rparr>,
           \<lparr>e_handler = \<lparr>p_handler = Some ''myfile.handler'', p_runtime = Some ''go1.10'', p_layers = None\<rparr>,
             e_type = Some UNSUPPORTED, e_runtime = Some ''go1.10''\<rparr>,
           \<lparr>e_handler = \<lparr>p_handler = Some ''myfile.handler'', p_runtime = Some ''nodejs10.x'', p_layers = None\<rparr>,
             e_type = Some NODE, e_runtime = Some ''nodejs10.x''\<rparr>,
           \<lparr>e_handler = \<lparr>p_handler = Some ''myfile.handler'', p_runtime = Some ''python2.7'', p_layers = None\<rparr>,
             e_type = Some PYTHON, e_runtime = Some ''python2.7''\<rparr>,
           \<lparr>e_handler = \<lparr>p_handler = Some ''myfile.handler'', p_runtime = Some ''python3.6'', p_layers = None\<rparr>,
             e_type = Some PYTHON, e_runtime = Some ''python3.6''\<rparr>,
           \<lparr>e_handler = \<lparr>p_handler = Some ''myfile.handler'', p_runtime = Some ''python3.7'', p_layers = None\<rparr>,
             e_type = Some PYTHON, e_runtime = Some ''python3.7''\<rparr>,
           \<lparr>e_handler = \<lparr>p_handler = Some ''myfile.handler'', p_runtime = Some ''python3.8'', p_layers = None\<rparr>,
             e_type = Some PYTHON, e_runtime = Some ''python3.8''\<rparr>,
           \<lparr>e_handler = \<lparr>p_handler = None, p_runtime = Some ''nodejs12.x'', p_layers = None\<rparr>,
             e_type = Some NODE, e_runtime = Some ''nodejs12.x''\<rparr>])"

definition it_uses_global_runtime :: bool where
  "it_uses_global_runtime \<longleftrightarrow>
     (let existsSync = mock [];
          h = heap_of funcs_global;
          mockService = service_of funcs_global None;
          result = findHandlers existsSync h mockService (Some ''nodejs8.10'') None
      in toMatchObject h result
          [\<lparr>e_handler = \<lparr>p_handler = None, p_runtime = None, p_layers = None\<rparr>,
             e_type = Some NODE, e_runtime = Some ''nodejs8.10''\<rparr>])"

definition it_typescript_when_ts_file :: bool where
  "it_typescript_when_ts_file \<longleftrightarrow>
     (let existsSync = mock [''mylambda.ts''];
          h = heap_of funcs_mylambda;
          mockService = service_of funcs_mylambda None;
          result = findHandlers existsSync h mockService (Some ''nodejs8.10'') None
      in toMatchObject h result
          [\<lparr>e_handler = \<lparr>p_handler = Some ''mylambda.handler'', p_runtime = Some ''nodejs8.10'', p_layers = None\<rparr>,
             e_type = Some NODE_TS, e_runtime = Some ''nodejs8.10''\<rparr>])"

definition it_es6_when_es_js_file :: bool where
  "it_es6_when_es_js_file \<longleftrightarrow>
     (let existsSync = mock [''mylambda.es.js''];
          h = heap_of funcs_mylambda;
          mockService = service_of funcs_mylambda None;
          result = findHandlers existsSync h mockService (Some ''nodejs8.10'') None
      in toMatchObject h result
          [\<lparr>e_handler = \<lparr>p_handler = Some ''mylambda.handler'', p_runtime = Some ''nodejs8.10'', p_layers = None\<rparr>,
             e_type = Some NODE_ES6, e_runtime = Some ''nodejs8.10''\<rparr>])"

definition it_es6_when_mjs_file :: bool where
  "it_es6_when_mjs_file \<longleftrightarrow>
     (let existsSync = mock [''mylambda.mjs''];
          h = heap_of funcs_mylambda;
          mockService = service_of funcs_mylambda None;
          result = findHandlers existsSync h mockService (Some ''nodejs8.10'') None
      in toMatchObject h result
          [\<lparr>e_handler = \<lparr>p_handler = Some ''mylambda.handler'', p_runtime = Some ''nodejs8.10'', p_layers = None\<rparr>,
             e_type = Some NODE_ES6, e_runtime = Some ''nodejs8.10''\<rparr>])"

definition it_default_node_runtime :: bool where
  "it_default_node_runtime \<longleftrightarrow>
     (let existsSync = mock [''mylambda.js''];
          h = heap_of funcs_mylambda;
          mockService = service_of funcs_mylambda None;
          result = findHandlers existsSync h mockService (Some ''nodejs8.10'') (Some NODE_TS)
      in toMatchObject h result
          [\<lparr>e_handler = \<lparr>p_handler = Some ''mylambda.handler'', p_runtime = Some ''nodejs8.10'', p_layers = None\<rparr>,
             e_type = Some NODE_TS, e_runtime = Some ''nodejs8.10''\<rparr>])"

definition it_es6_when_webpack :: bool where
  "it_es6_when_webpack \<longleftrightarrow>
     (let existsSync = mock [''mylambda.js''];
          h = heap_of funcs_mylambda;
          mockService = service_of funcs_mylambda (Some [''serverless-plugin-datadog'', ''serverless-webpack'']);
          result = findHandlers existsSync h mockService (Some ''nodejs8.10'') None
      in toMatchObject h result
          [\<lparr>e_handler = \<lparr>p_handler = Some ''mylambda.handler'', p_runtime = Some ''nodejs8.10'', p_layers = None\<rparr>,
             e_type = Some NODE_ES6, e_runtime = Some ''nodejs8.10''\<rparr>])"

section \<open>The tests of applyLayers\<close>

definition it_adds_layer_array :: bool where
  "it_adds_layer_array \<longleftrightarrow>
     (let handlerInfo = hi_node [];
          lj = layers_node2;
          h = applyLayers ''us-east-1'' [handlerInfo] lj heap_node
      in toEqual h (handler handlerInfo)
          \<lparr>p_handler = None, p_runtime = Some ''nodejs10.x'', p_layers = Some [''node:2'']\<rparr>)"

definition it_appends_to_layer_array :: bool where
  "it_appends_to_layer_array \<longleftrightarrow>
     (let handlerInfo = hi_node [];
          lj = layers_node2;
          h = applyLayers ''us-east-1'' [handlerInfo] lj heap_node_layer1
      in toEqual h (handler handlerInfo)
          \<lparr>p_handler = None, p_runtime = Some ''nodejs10.x'', p_layers = Some [''node:1'', ''node:2'']\<rparr>)"

definition it_no_duplicate_layers :: bool where
  "it_no_duplicate_layers \<longleftrightarrow>
     (let handlerInfo = hi_node [];
          lj = layers_node1;
          h = applyLayers ''us-east-1'' [handlerInfo] lj heap_node_layer1
      in toEqual h (handler handlerInfo)
          \<lparr>p_handler = None, p_runtime = Some ''nodejs10.x'', p_layers = Some [''node:1'']\<rparr>)"

definition it_only_when_region_found :: bool where
  "it_only_when_region_found \<longleftrightarrow>
     (let handlerInfo = hi_node [];
          lj = layers_node1;
          h = applyLayers ''us-east-2'' [handlerInfo] lj heap_node
      in toEqual h (handler handlerInfo)
          \<lparr>p_handler = None, p_runtime = Some ''nodejs10.x'', p_layers = None\<rparr>)"

definition it_only_when_layer_found :: bool where
  "it_only_when_layer_found \<longleftrightarrow>
     (let handlerInfo = hi_node [];
          lj = layers_python;
          h = applyLayers ''us-east-1'' [handlerInfo] lj heap_node
      in toEqual h (handler handlerInfo)
          \<lparr>p_handler = None, p_runtime = Some ''nodejs10.x'', p_layers = None\<rparr>)"

definition it_only_when_runtime_present :: bool where
  "it_only_when_runtime_present \<longleftrightarrow>
     (let handlerInfo = hi_node [];
          lj = layers_python;
          h = applyLayers ''us-east-1'' [handlerInfo] lj heap_bare
      in toEqual h (handler handlerInfo)
          \<lparr>p_handler = None, p_runtime = None, p_layers = None\<rparr>)"

definition it_only_when_supported_runtime :: bool where
  "it_only_when_supported_runtime \<longleftrightarrow>
     (let handlerInfo = hi_unsupported [];
          lj = layers_python;
          h = applyLayers ''us-east-1'' [handlerInfo] lj heap_bare
      in toEqual h (handler handlerInfo)
          \<lparr>p_handler = None, p_runtime = None, p_layers = None\<rparr>)"

section \<open>The runs of findHandlers in the tests\<close>

lemma test_finds_all_node_and_python:
  "findHandlers (mock []) (heap_of funcs_all) (service_of funcs_all None) None None =
     Inr [\<lparr>name = ''func-a'', type = NODE, handler = 0, runtime = Some ''nodejs8.10''\<rparr>,
          \<lparr>name = ''func-b'', type = UNSUPPORTED, handler = 1, runtime = Some ''go1.10''\<rparr>,
          \<lparr>name = ''func-c'', type = NODE, handler = 2, runtime = Some ''nodejs10.x''\<rparr>,
          \<lparr>name = ''func-d'', type = PYTHON, handler = 3, runtime = Some ''python2.7''\<rparr>,
          \<lparr>name = ''func-e'', type = PYTHON, handler = 4, runtime = Some ''python3.6''\<rparr>,
          \<lparr>name = ''func-f'', type = PYTHON, handler = 5, runtime = Some ''python3.7''\<rparr>,
          \<lparr>name = ''func-g'', type = PYTHON, handler = 6, runtime = Some ''python3.8''\<rparr>,
          \<lparr>name = ''func-h'', type = NODE, handler = 7, runtime = Some ''nodejs12.x''\<rparr>]"
  by (simp add: findHandlers_eval fixture_defs)

lemma test_uses_global_runtime:
  "findHandlers (mock []) (heap_of funcs_global) (service_of funcs_global None)
     (Some ''nodejs8.10'') None =
     Inr [\<lparr>name = ''func-a'', type = NODE, handler = 0, runtime = Some ''nodejs8.10''\<rparr>]"
  by (simp add: findHandlers_eval fixture_defs)

lemma test_typescript_when_ts_file:
  "findHandlers (mock [''mylambda.ts'']) (heap_of funcs_mylambda)
     (service_of funcs_mylambda None) (Some ''nodejs8.10'') None =
     Inr [\<lparr>name = ''func-a'', type = NODE_TS, handler = 0, runtime = Some ''nodejs8.10''\<rparr>]"
  by (simp add: findHandlers_eval fixture_defs)

lemma test_es6_when_es_js_file:
  "findHandlers (mock [''mylambda.es.js'']) (heap_of funcs_mylambda)
     (service_of funcs_mylambda None) (Some ''nodejs8.10'') None =
     Inr [\<lparr>name = ''func-a'', type = NODE_ES6, handler = 0, runtime = Some ''nodejs8.10''\<rparr>]"
  by (simp add: findHandlers_eval fixture_defs)

lemma test_es6_when_mjs_file:
  "findHandlers (mock [''mylambda.mjs'']) (heap_of funcs_mylambda)
     (service_of funcs_mylambda None) (Some ''nodejs8.10'') None =
     Inr [\<lparr>name = ''func-a'', type = NODE_ES6, handler = 0, runtime = Some ''nodejs8.10''\<rparr>]"
  by (simp add: findHandlers_eval fixture_defs)

lemma test_default_node_runtime:
  "findHandlers (mock [''mylambda.js'']) (heap_of funcs_mylambda)
     (service_of funcs_mylambda None) (Some ''nodejs8.10'') (Some NODE_TS) =
     Inr [\<lparr>name = ''func-a'', type = NODE_TS, handler = 0, runtime = Some ''nodejs8.10''\<rparr>]"
  by (simp add: findHandlers_eval fixture_defs)

lemma test_es6_when_webpack:
  "findHandlers (mock [''mylambda.js'']) (heap_of funcs_mylambda)
     (service_of funcs_mylambda (Some [''serverless-plugin-datadog'', ''serverless-webpack'']))
     (Some ''nodejs8.10'') None =
     Inr [\<lparr>name = ''func-a'', type = NODE_ES6, handler = 0, runtime = Some ''nodejs8.10''\<rparr>]"
  by (simp add: findHandlers_eval fixture_defs)

section \<open>The runs of applyLayers in the tests\<close>

lemmas applyLayers_eval =
  applyLayers_def applyLayers_body_def getLayers_def setLayers_def layers_of_def
  hi_node_def hi_unsupported_def layers_node2_def layers_node1_def layers_python_def
  alloc_array_def array_push_def set_layers_def

lemma test_adds_layer_array:
  "objs (applyLayers ''us-east-1'' [hi_node nm] layers_node2 heap_node) 0 =
     \<lparr>FunctionDefinition.handler = None, runtime = Some ''nodejs10.x'', layers = Some 0\<rparr> \<and>
   layers_of (applyLayers ''us-east-1'' [hi_node nm] layers_node2 heap_node) 0 =
     Some [''node:2'']"
  by (simp add: applyLayers_eval)

lemma test_appends_to_layer_array:
  "layers_of (applyLayers ''us-east-1'' [hi_node nm] layers_node2 heap_node_layer1) 0 =
     Some [''node:1'', ''node:2'']"
  by (simp add: applyLayers_eval)

lemma test_no_duplicate_layers:
  "applyLayers ''us-east-1'' [hi_node nm] layers_node1 heap_node_layer1 = heap_node_layer1"
  by (simp add: applyLayers_eval set_layers_same [unfolded set_layers_def] fun_upd_same_value)

lemma test_only_when_region_found:
  "applyLayers ''us-east-2'' [hi_node nm] layers_node1 heap_node = heap_node"
  by (simp add: applyLayers_eval)

lemma test_only_when_layer_found:
  "applyLayers ''us-east-1'' [hi_node nm] layers_python heap_node = heap_node"
  by (simp add: applyLayers_eval)

lemma test_only_when_runtime_present:
  "applyLayers ''us-east-1'' [hi_node nm] layers_python heap_bare = heap_bare"
  by (simp add: applyLayers_eval)

lemma test_only_when_supported_runtime:
  "applyLayers ''us-east-1'' [hi_unsupported nm] layers_python heap_bare = heap_bare"
  by (simp add: applyLayers_eval)

section \<open>Every test passes\<close>

lemmas matcher_defs =
  toMatchObject_def matches_info_def matches_definition_def toEqual_def layers_of_def

lemma it_finds_all_node_and_python_passes: "it_finds_all_node_and_python"
  unfolding it_finds_all_node_and_python_def Let_def test_finds_all_node_and_python
  by (simp add: matcher_defs fixture_defs)

lemma it_uses_global_runtime_passes: "it_uses_global_runtime"
  unfolding it_uses_global_runtime_def Let_def test_uses_global_runtime
  by (simp add: matcher_defs fixture_defs)

lemma it_typescript_when_ts_file_passes: "it_typescript_when_ts_file"
  unfolding it_typescript_when_ts_file_def Let_def test_typescript_when_ts_file
  by (simp add: matcher_defs fixture_defs)

lemma it_es6_when_es_js_file_passes: "it_es6_when_es_js_file"
  unfolding it_es6_when_es_js_file_def Let_def test_es6_when_es_js_file
  by (simp add: matcher_defs fixture_defs)

lemma it_es6_when_mjs_file_passes: "it_es6_when_mjs_file"
  unfolding it_es6_when_mjs_file_def Let_def test_es6_when_mjs_file
  by (simp add: matcher_defs fixture_defs)

lemma it_default_node_runtime_passes: "it_default_node_runtime"
  unfolding it_default_node_runtime_def Let_def test_default_node_runtime
  by (simp add: matcher_defs fixture_defs)

lemma it_es6_when_webpack_passes: "it_es6_when_webpack"
  unfolding it_es6_when_webpack_def Let_def test_es6_when_webpack
  by (simp add: matcher_defs fixture_defs)

lemma it_adds_layer_array_passes: "it_adds_layer_array"
  unfolding it_adds_layer_array_def Let_def toEqual_def
  by (simp add: applyLayers_eval)

lemma it_appends_to_layer_array_passes: "it_appends_to_layer_array"
  unfolding it_appends_to_layer_array_def Let_def toEqual_def
  by (simp add: applyLayers_eval)

lemma it_no_duplicate_layers_passes: "it_no_duplicate_layers"
  unfolding it_no_duplicate_layers_def Let_def toEqual_def test_no_duplicate_layers
  by (simp add: layers_of_def hi_node_def hi_unsupported_def)

lemma it_only_when_region_found_passes: "it_only_when_region_found"
  unfolding it_only_when_region_found_def Let_def toEqual_def test_only_when_region_found
  by (simp add: layers_of_def hi_node_def hi_unsupported_def)

lemma it_only_when_layer_found_passes: "it_only_when_layer_found"
  unfolding it_only_when_layer_found_def Let_def toEqual_def test_only_when_layer_found
  by (simp add: layers_of_def hi_node_def hi_unsupported_def)

lemma it_only_when_runtime_present_passes: "it_only_when_runtime_present"
  unfolding it_only_when_runtime_present_def Let_def toEqual_def test_only_when_runtime_present
  by (simp add: layers_of_def hi_node_def hi_unsupported_def)

lemma it_only_when_supported_runtime_passes: "it_only_when_supported_runtime"
  unfolding it_only_when_supported_runtime_def Let_def toEqual_def test_only_when_supported_runtime
  by (simp add: layers_of_def hi_node_def hi_unsupported_def)

section \<open>The suite as a whole\<close>

lemmas findHandlers_tests_pass =
  it_finds_all_node_and_python_passes it_uses_global_runtime_passes
  it_typescript_when_ts_file_passes it_es6_when_es_js_file_passes
  it_es6_when_mjs_file_passes it_default_node_runtime_passes it_es6_when_webpack_passes

lemmas applyLayers_tests_pass =
  it_adds_layer_array_passes it_appends_to_layer_array_passes it_no_duplicate_layers_passes
  it_only_when_region_found_passes it_only_when_layer_found_passes
  it_only_when_runtime_present_passes it_only_when_supported_runtime_passes

text \<open>
  The model passes the test suite. For \<open>findHandlers\<close>: on the
  functions, file systems, plugin lists and defaults of the seven tests it
  returns the records with the types, runtime names and definitions that
  the tests expect, in their order. For \<open>applyLayers\<close>: a missing layer
  list is created with the layer, an existing list gets the layer appended,
  a layer that is present is not added again, and an unknown region, a
  runtime without layer, and an unsupported handler record leave the
  function definition as it was.
\<close>

theorem test_suite_passes:
  "(it_finds_all_node_and_python \<and>
    it_uses_global_runtime \<and>
    it_typescript_when_ts_file \<and>
    it_es6_when_es_js_file \<and>
    it_es6_when_mjs_file \<and>
    it_default_node_runtime \<and>
    it_es6_when_webpack) \<and>
   (it_adds_layer_array \<and>
    it_appends_to_layer_array \<and>
    it_no_duplicate_layers \<and>
    it_only_when_region_found \<and>
    it_only_when_layer_found \<and>
    it_only_when_runtime_present \<and>
    it_only_when_supported_runtime)"
  by (simp add: findHandlers_tests_pass applyLayers_tests_pass)

end
