(* ===== verification/Env.thy ===== *)
theory Env
  imports Types
begin

text \<open>
  \<^verbatim>\<open>src/src/env.ts\<close>: the plugin's configuration with its defaults
  (\<open>getConfig\<close>) and the environment variables that the plugin adds to the
  provider section of the service (\<open>setEnvConfiguration\<close>). The service is
  passed in and returned; the environment is a map from variable names to
  values. The theory proves that the user's own variables always win, that
  the configuration fills exactly the gaps, and that the two functions
  one after the other give every variable by precedence: the user's
  value, else the setting of the plugin section, else the default.
\<close>

section \<open>Names of the environment variables and the default configuration\<close>

definition apiKeyEnvVar :: string where
  "apiKeyEnvVar = ''DD_API_KEY''"

definition apiKeyKMSEnvVar :: string where
  "apiKeyKMSEnvVar = ''DD_KMS_API_KEY''"

definition siteURLEnvVar :: string where
  "siteURLEnvVar = ''DD_SITE''"

definition logLevelEnvVar :: string where
  "logLevelEnvVar = ''DD_LOG_LEVEL''"

definition logForwardingEnvVar :: string where
  "logForwardingEnvVar = ''DD_FLUSH_TO_LOG''"

definition defaultConfiguration :: Configuration where
  "defaultConfiguration =
     \<lparr>addLayers = True, apiKey = None, apiKMSKey = None,
      site = ''datadoghq.com'', logLevel = ''info'',
      flushMetricsToLogs = False, nodeModuleType = None\<rparr>"

section \<open>setEnvConfiguration\<close>

text \<open>
  The step that the function repeats for every variable: the value is
  stored under the name only if the name has no value yet.
\<close>

definition set_if_undefined :: "string \<Rightarrow> env_value \<Rightarrow> env_value dict \<Rightarrow> env_value dict" where
  "set_if_undefined k v env = (if env k = None then env(k \<mapsto> v) else env)"

text \<open>
  The same step for a setting that the configuration may lack: nothing
  happens when the setting is absent.
\<close>

definition set_optional :: "string \<Rightarrow> string option \<Rightarrow> env_value dict \<Rightarrow> env_value dict" where
  "set_optional k v env =
     (case v of None \<Rightarrow> env | Some s \<Rightarrow> set_if_undefined k (EnvString s) env)"

text \<open>The environment that the function leaves in the provider section.\<close>

definition env_with_config :: "Configuration \<Rightarrow> env_value dict \<Rightarrow> env_value dict" where
  "env_with_config config env =
     set_if_undefined logForwardingEnvVar (EnvBoolean (flushMetricsToLogs config))
       (set_if_undefined logLevelEnvVar (EnvString (logLevel config))
         (set_if_undefined siteURLEnvVar (EnvString (site config))
           (set_optional apiKeyKMSEnvVar (apiKMSKey config)
             (set_optional apiKeyEnvVar (apiKey config) env))))"

definition setEnvConfiguration :: "Configuration \<Rightarrow> Service \<Rightarrow> Service" where
  "setEnvConfiguration config service =
     (let env = (case environment (provider service) of None \<Rightarrow> Map.empty | Some e \<Rightarrow> e)
      in service\<lparr>provider := (provider service)\<lparr>environment := Some (env_with_config config env)\<rparr>\<rparr>)"

section \<open>getConfig\<close>

text \<open>
  The object spread \<^verbatim>\<open>{ ...defaults, ...partial }\<close>: a field of the partial
  configuration overrides the default, an absent field leaves it.
\<close>

definition or_default :: "'a option \<Rightarrow> 'a \<Rightarrow> 'a" where
  "or_default x d = (case x of None \<Rightarrow> d | Some v \<Rightarrow> v)"

definition or_option :: "'a option \<Rightarrow> 'a option \<Rightarrow> 'a option" where
  "or_option x d = (case x of None \<Rightarrow> d | Some v \<Rightarrow> Some v)"

definition spread :: "Configuration \<Rightarrow> Partial_Configuration \<Rightarrow> Configuration" where
  "spread d p =
     \<lparr>addLayers = or_default (Partial_Configuration.addLayers p) (addLayers d),
      apiKey = or_option (Partial_Configuration.apiKey p) (apiKey d),
      apiKMSKey = or_option (Partial_Configuration.apiKMSKey p) (apiKMSKey d),
      site = or_default (Partial_Configuration.site p) (site d),
      logLevel = or_default (Partial_Configuration.logLevel p) (logLevel d),
      flushMetricsToLogs =
        or_default (Partial_Configuration.flushMetricsToLogs p) (flushMetricsToLogs d),
      nodeModuleType = or_option (Partial_Configuration.nodeModuleType p) (nodeModuleType d)\<rparr>"

text \<open>The empty object \<^verbatim>\<open>{}\<close> as a partial configuration.\<close>

definition empty_partial :: Partial_Configuration where
  "empty_partial =
     \<lparr>Partial_Configuration.addLayers = None, apiKey = None, apiKMSKey = None,
      site = None, logLevel = None, flushMetricsToLogs = None, nodeModuleType = None\<rparr>"

definition getConfig :: "Service \<Rightarrow> Configuration" where
  "getConfig service =
     (let cust = (case custom service of None \<Rightarrow> \<lparr>datadog = None\<rparr> | Some c \<Rightarrow> c);
          dd = (case datadog cust of None \<Rightarrow> empty_partial | Some p \<Rightarrow> p)
      in spread defaultConfiguration dd)"

section \<open>The three sources of a variable\<close>

text \<open>The variables that the user has set in the provider section.\<close>

definition user_env :: "Service \<Rightarrow> env_value dict" where
  "user_env service =
     (case environment (provider service) of None \<Rightarrow> Map.empty | Some e \<Rightarrow> e)"

text \<open>The plugin section of the service, empty when there is none.\<close>

definition section_of :: "Service \<Rightarrow> Partial_Configuration" where
  "section_of service =
     (case custom service of
        None \<Rightarrow> empty_partial
      | Some c \<Rightarrow> (case datadog c of None \<Rightarrow> empty_partial | Some p \<Rightarrow> p))"

text \<open>The settings of the plugin section, read as variables.\<close>

definition section_env :: "Service \<Rightarrow> env_value dict" where
  "section_env service k =
     (let p = section_of service in
      if k = ''DD_API_KEY'' then map_option EnvString (Partial_Configuration.apiKey p)
      else if k = ''DD_KMS_API_KEY'' then map_option EnvString (Partial_Configuration.apiKMSKey p)
      else if k = ''DD_SITE'' then map_option EnvString (Partial_Configuration.site p)
      else if k = ''DD_LOG_LEVEL'' then map_option EnvString (Partial_Configuration.logLevel p)
      else if k = ''DD_FLUSH_TO_LOG''
        then map_option EnvBoolean (Partial_Configuration.flushMetricsToLogs p)
      else None)"

text \<open>The variables that have a default.\<close>

definition default_env :: "env_value dict" where
  "default_env =
     [''DD_SITE'' \<mapsto> EnvString ''datadoghq.com'',
      ''DD_LOG_LEVEL'' \<mapsto> EnvString ''info'',
      ''DD_FLUSH_TO_LOG'' \<mapsto> EnvBoolean False]"

section \<open>Examples\<close>

text \<open>
  A service without settings, and one whose user has set a site and whose
  plugin section gives an API key and a log level.
\<close>

definition service_plain :: Service where
  "service_plain =
     \<lparr>functions = [], plugins = None,
      provider = \<lparr>region = ''us-east-1'', environment = None\<rparr>, custom = None\<rparr>"

definition service_custom :: Service where
  "service_custom =
     \<lparr>functions = [], plugins = None,
      provider = \<lparr>region = ''us-east-1'',
                  environment = Some [''DD_SITE'' \<mapsto> EnvString ''datadoghq.eu'']\<rparr>,
      custom = Some \<lparr>datadog = Some (empty_partial
                 \<lparr>Partial_Configuration.apiKey := Some ''1234'',
                  Partial_Configuration.logLevel := Some ''debug''\<rparr>)\<rparr>\<rparr>"

section \<open>The single steps\<close>

lemmas env_names =
  apiKeyEnvVar_def apiKeyKMSEnvVar_def siteURLEnvVar_def logLevelEnvVar_def
  logForwardingEnvVar_def

lemma env_names_neq [simp]:
  "apiKeyEnvVar \<noteq> apiKeyKMSEnvVar" "apiKeyEnvVar \<noteq> siteURLEnvVar"
  "apiKeyEnvVar \<noteq> logLevelEnvVar" "apiKeyEnvVar \<noteq> logForwardingEnvVar"
  "apiKeyKMSEnvVar \<noteq> apiKeyEnvVar" "apiKeyKMSEnvVar \<noteq> siteURLEnvVar"
  "apiKeyKMSEnvVar \<noteq> logLevelEnvVar" "apiKeyKMSEnvVar \<noteq> logForwardingEnvVar"
  "siteURLEnvVar \<noteq> apiKeyEnvVar" "siteURLEnvVar \<noteq> apiKeyKMSEnvVar"
  "siteURLEnvVar \<noteq> logLevelEnvVar" "siteURLEnvVar \<noteq> logForwardingEnvVar"
  "logLevelEnvVar \<noteq> apiKeyEnvVar" "logLevelEnvVar \<noteq> apiKeyKMSEnvVar"
  "logLevelEnvVar \<noteq> siteURLEnvVar" "logLevelEnvVar \<noteq> logForwardingEnvVar"
  "logForwardingEnvVar \<noteq> apiKeyEnvVar" "logForwardingEnvVar \<noteq> apiKeyKMSEnvVar"
  "logForwardingEnvVar \<noteq> siteURLEnvVar" "logForwardingEnvVar \<noteq> logLevelEnvVar"
  by (simp_all add: env_names)

lemma set_if_undefined_keeps:
  "env k' = Some v' \<Longrightarrow> set_if_undefined k v env k' = Some v'"
  by (auto simp: set_if_undefined_def)

lemma set_if_undefined_apply:
  "set_if_undefined k v env k' =
     (if k' = k then (case env k of None \<Rightarrow> Some v | Some w \<Rightarrow> Some w) else env k')"
  by (auto simp: set_if_undefined_def)

lemma set_if_undefined_dom: "dom (set_if_undefined k v env) = insert k (dom env)"
  by (auto simp: set_if_undefined_def)

lemma set_if_undefined_idem:
  "set_if_undefined k v (set_if_undefined k v env) = set_if_undefined k v env"
  by (simp add: set_if_undefined_def)

lemma set_if_undefined_defined:
  "env k \<noteq> None \<Longrightarrow> set_if_undefined k v env = env"
  by (auto simp: set_if_undefined_def)

lemma set_optional_keeps:
  "env k' = Some v' \<Longrightarrow> set_optional k v env k' = Some v'"
  by (simp add: set_optional_def set_if_undefined_keeps split: option.splits)

lemma set_optional_apply:
  "set_optional k v env k' =
     (if k' = k then (case env k of None \<Rightarrow> map_option EnvString v | Some w \<Rightarrow> Some w)
      else env k')"
  by (auto simp: set_optional_def set_if_undefined_apply split: option.splits)

lemma set_optional_dom:
  "dom (set_optional k v env) = (if v = None then dom env else insert k (dom env))"
  by (simp add: set_optional_def set_if_undefined_dom split: option.splits)

lemma env_with_config_keeps:
  "env k = Some v \<Longrightarrow> env_with_config config env k = Some v"
  by (simp add: env_with_config_def set_if_undefined_keeps set_optional_keeps)

text \<open>The environment after the function, name by name.\<close>

lemma env_with_config_apply:
  "env_with_config config env k =
     (case env k of
        Some w \<Rightarrow> Some w
      | None \<Rightarrow>
          if k = apiKeyEnvVar then map_option EnvString (apiKey config)
          else if k = apiKeyKMSEnvVar then map_option EnvString (apiKMSKey config)
          else if k = siteURLEnvVar then Some (EnvString (site config))
          else if k = logLevelEnvVar then Some (EnvString (logLevel config))
          else if k = logForwardingEnvVar then Some (EnvBoolean (flushMetricsToLogs config))
          else None)"
proof (cases "env k")
  case (Some w)
  then show ?thesis by (simp add: env_with_config_keeps)
next
  case None
  then show ?thesis
    by (auto simp: env_with_config_def set_if_undefined_apply set_optional_apply)
qed

lemma env_with_config_idem:
  "env_with_config config (env_with_config config env) = env_with_config config env"
  by (rule ext) (simp add: env_with_config_apply split: option.splits)

lemma or_default_simps [simp]:
  "or_default None d = d" "or_default (Some v) d = v"
  by (simp_all add: or_default_def)

lemma or_option_simps [simp]:
  "or_option None d = d" "or_option (Some v) d = Some v" "or_option x None = x"
  by (simp_all add: or_option_def split: option.splits)

lemma spread_empty [simp]: "spread d empty_partial = d"
  by (simp add: spread_def empty_partial_def)

section \<open>Properties of setEnvConfiguration\<close>

text \<open>
  C4. The user's settings win: a variable that has a value in the
  provider's environment before \<open>setEnvConfiguration\<close> has the same value
  after it, whatever the configuration says.
\<close>

theorem setEnvConfiguration_keeps_user_values:
  assumes "environment (provider service) = Some env" and "env k = Some v"
  shows "\<exists>env'. environment (provider (setEnvConfiguration config service)) = Some env' \<and>
                 env' k = Some v"
  using assms by (simp add: setEnvConfiguration_def env_with_config_keeps)

theorem setEnvConfiguration_keeps_user_values_witness:
  "\<exists>env'. environment (provider (setEnvConfiguration defaultConfiguration service_custom)) =
             Some env' \<and> env' ''DD_SITE'' = Some (EnvString ''datadoghq.eu'')"
proof -
  have e: "environment (provider service_custom) =
      Some [''DD_SITE'' \<mapsto> EnvString ''datadoghq.eu'']"
    by (simp add: service_custom_def)
  from setEnvConfiguration_keeps_user_values [OF e, of "''DD_SITE''" "EnvString ''datadoghq.eu''"]
  show ?thesis by simp
qed

text \<open>
  C14. What the function adds: a variable without a value before the call
  gets the API key, the KMS key, the site, the log level or the
  log-forwarding flag of the configuration when it is the variable of
  that setting (the two keys only if the configuration has them), and no
  other variable gets a value.
\<close>

theorem setEnvConfiguration_fills_gaps:
  assumes "environment (provider (setEnvConfiguration config service)) = Some env'"
    and "(case environment (provider service) of None \<Rightarrow> None | Some env \<Rightarrow> env k) = None"
  shows "env' k =
     (if k = ''DD_API_KEY'' then map_option EnvString (apiKey config)
      else if k = ''DD_KMS_API_KEY'' then map_option EnvString (apiKMSKey config)
      else if k = ''DD_SITE'' then Some (EnvString (site config))
      else if k = ''DD_LOG_LEVEL'' then Some (EnvString (logLevel config))
      else if k = ''DD_FLUSH_TO_LOG'' then Some (EnvBoolean (flushMetricsToLogs config))
      else None)"
proof -
  let ?env = "case environment (provider service) of None \<Rightarrow> Map.empty | Some e \<Rightarrow> e"
  from assms(1) have e': "env' = env_with_config config ?env"
    by (simp add: setEnvConfiguration_def)
  from assms(2) have "?env k = None"
    by (simp split: option.splits)
  then have "env' k =
     (if k = apiKeyEnvVar then map_option EnvString (apiKey config)
      else if k = apiKeyKMSEnvVar then map_option EnvString (apiKMSKey config)
      else if k = siteURLEnvVar then Some (EnvString (site config))
      else if k = logLevelEnvVar then Some (EnvString (logLevel config))
      else if k = logForwardingEnvVar then Some (EnvBoolean (flushMetricsToLogs config))
      else None)"
    unfolding e' by (simp add: env_with_config_apply)
  then show ?thesis by (simp add: env_names)
qed

theorem setEnvConfiguration_fills_gaps_witness:
  "\<exists>env'. environment (provider (setEnvConfiguration defaultConfiguration service_plain)) =
             Some env' \<and>
     env' ''DD_SITE'' = Some (EnvString ''datadoghq.com'') \<and>
     env' ''DD_LOG_LEVEL'' = Some (EnvString ''info'') \<and>
     env' ''DD_FLUSH_TO_LOG'' = Some (EnvBoolean False) \<and>
     env' ''DD_API_KEY'' = None"
proof -
  obtain env' where e:
    "environment (provider (setEnvConfiguration defaultConfiguration service_plain)) = Some env'"
    by (simp add: setEnvConfiguration_def)
  have n: "(case environment (provider service_plain) of None \<Rightarrow> None | Some env \<Rightarrow> env k) = None"
    for k by (simp add: service_plain_def)
  from setEnvConfiguration_fills_gaps [OF e n] e show ?thesis
    by (simp add: defaultConfiguration_def)
qed

section \<open>From the configuration of the service to its environment\<close>

text \<open>
  C29. \<open>getConfig\<close> and then \<open>setEnvConfiguration\<close> give every variable
  by precedence: the value that the user has set in the provider section
  (be it \<^verbatim>\<open>null\<close>), else the setting of the plugin section, else the
  default. The two keys have no default, and no other variable gets a
  value.
\<close>

theorem setEnvConfiguration_getConfig_precedence:
  "environment (provider (setEnvConfiguration (getConfig service) service)) =
     Some (default_env ++ section_env service ++ user_env service)"
proof -
  let ?p = "section_of service"
  have config: "getConfig service = spread defaultConfiguration ?p"
    by (simp add: getConfig_def section_of_def split: option.splits)
  have "env_with_config (spread defaultConfiguration ?p) (user_env service) k =
      (default_env ++ section_env service ++ user_env service) k" for k
  proof (cases "user_env service k")
    case (Some v)
    then show ?thesis by (simp add: env_with_config_keeps map_add_def)
  next
    case None
    then show ?thesis
      by (simp add: env_with_config_apply env_names spread_def defaultConfiguration_def
          map_add_def default_env_def section_env_def or_default_def or_option_def
          split: option.splits)
  qed
  then show ?thesis
    by (simp add: setEnvConfiguration_def user_env_def config fun_eq_iff)
qed

theorem setEnvConfiguration_getConfig_precedence_witness:
  "\<exists>env'. environment (provider (setEnvConfiguration (getConfig service_custom) service_custom)) =
             Some env' \<and>
     env' ''DD_SITE'' = Some (EnvString ''datadoghq.eu'') \<and>
     env' ''DD_API_KEY'' = Some (EnvString ''1234'') \<and>
     env' ''DD_LOG_LEVEL'' = Some (EnvString ''debug'') \<and>
     env' ''DD_FLUSH_TO_LOG'' = Some (EnvBoolean False) \<and>
     env' ''DD_KMS_API_KEY'' = None"
  using setEnvConfiguration_getConfig_precedence [of service_custom]
  by (simp add: map_add_def default_env_def section_env_def section_of_def user_env_def
      service_custom_def empty_partial_def)

end
