(* ===== verification/File_System.thy ===== *)
theory File_System
  imports JS_Lib "HOL-Library.Sublist"
begin

text \<open>
  The file system as far as \<^verbatim>\<open>removeDirectory\<close> of \<^verbatim>\<open>src/src/util.ts\<close> and the
  probes of \<^verbatim>\<open>findHandlers\<close> see it: the entries below the working
  directory, each with its kind, and the calls \<^verbatim>\<open>exists\<close>, \<^verbatim>\<open>readdir\<close>,
  \<^verbatim>\<open>lstat\<close>, \<^verbatim>\<open>unlink\<close> and \<^verbatim>\<open>rmdir\<close> of the \<^verbatim>\<open>fs\<close> module on path strings.
  A call that fails returns its error code and leaves the file system as
  it was. Every entry that is not a directory counts as a regular file,
  which is how \<^verbatim>\<open>lstat\<close> followed by \<^verbatim>\<open>isDirectory\<close> sees a symbolic link.
  Paths are read from the working directory; the components \<^verbatim>\<open>..\<close> are
  names that no entry has.
\<close>

section \<open>Paths and entries\<close>

datatype fs_error = ENOENT | ENOTDIR | EISDIR | ENOTEMPTY | EINVAL

type_synonym 'a fs_result = "fs_error + 'a"

datatype kind = RegularFile | Directory

type_synonym path = "string list"

type_synonym fs = "(path \<times> kind) list"

text \<open>The names that a directory entry can have.\<close>

definition valid_name :: "string \<Rightarrow> bool" where
  "valid_name n \<longleftrightarrow> n \<noteq> [] \<and> CHR ''/'' \<notin> set n \<and> n \<noteq> ''.'' \<and> n \<noteq> ''..''"

text \<open>
  The components of a path string: the pieces between slashes, without
  the empty ones and the ones that name the directory itself.
\<close>

definition components :: "string \<Rightarrow> path" where
  "components p = filter (\<lambda>c. c \<noteq> [] \<and> c \<noteq> ''.'') (js_split (CHR ''/'') p)"

text \<open>The working directory is always there; the other entries are listed.\<close>

definition lookup :: "fs \<Rightarrow> path \<Rightarrow> kind option" where
  "lookup fs q = (if q = [] then Some Directory else map_of fs q)"

definition children :: "fs \<Rightarrow> path \<Rightarrow> string list" where
  "children fs q =
     map (\<lambda>e. last (fst e)) (filter (\<lambda>e. fst e \<noteq> [] \<and> butlast (fst e) = q) fs)"

definition remove_entry :: "path \<Rightarrow> fs \<Rightarrow> fs" where
  "remove_entry q fs = filter (\<lambda>e. fst e \<noteq> q) fs"

section \<open>The calls of the fs module\<close>

text \<open>What a path string names; the empty string names nothing.\<close>

definition resolve :: "fs \<Rightarrow> string \<Rightarrow> kind option" where
  "resolve fs p = (if p = [] then None else lookup fs (components p))"

definition fs_exists :: "fs \<Rightarrow> string \<Rightarrow> bool" where
  "fs_exists fs p \<longleftrightarrow> resolve fs p \<noteq> None"

definition readdir :: "fs \<Rightarrow> string \<Rightarrow> string list fs_result" where
  "readdir fs p =
     (case resolve fs p of
        None \<Rightarrow> Inl ENOENT
      | Some RegularFile \<Rightarrow> Inl ENOTDIR
      | Some Directory \<Rightarrow> Inr (children fs (components p)))"

text \<open>\<^verbatim>\<open>lstat\<close> followed by \<^verbatim>\<open>isDirectory\<close>.\<close>

definition lstat :: "fs \<Rightarrow> string \<Rightarrow> bool fs_result" where
  "lstat fs p =
     (case resolve fs p of
        None \<Rightarrow> Inl ENOENT
      | Some k \<Rightarrow> Inr (k = Directory))"

definition unlink :: "string \<Rightarrow> fs \<Rightarrow> fs fs_result" where
  "unlink p fs =
     (case resolve fs p of
        None \<Rightarrow> Inl ENOENT
      | Some Directory \<Rightarrow> Inl EISDIR
      | Some RegularFile \<Rightarrow> Inr (remove_entry (components p) fs))"

text \<open>
  \<^verbatim>\<open>rmdir\<close> removes an empty directory; it refuses the working directory
  itself.
\<close>

definition rmdir :: "string \<Rightarrow> fs \<Rightarrow> fs fs_result" where
  "rmdir p fs =
     (case resolve fs p of
        None \<Rightarrow> Inl ENOENT
      | Some RegularFile \<Rightarrow> Inl ENOTDIR
      | Some Directory \<Rightarrow>
          if components p = [] then Inl EINVAL
          else if children fs (components p) \<noteq> [] then Inl ENOTEMPTY
          else Inr (remove_entry (components p) fs))"

section \<open>Well-formed file systems and subtrees\<close>

text \<open>
  No path is listed twice, every name is one that an entry can have, and
  every entry lies in a directory.
\<close>

definition wf_fs :: "fs \<Rightarrow> bool" where
  "wf_fs fs \<longleftrightarrow>
     distinct (map fst fs) \<and>
     list_all (\<lambda>e. fst e \<noteq> [] \<and> list_all valid_name (fst e) \<and>
                   lookup fs (butlast (fst e)) = Some Directory) fs"

text \<open>The file system without the entry at \<open>q\<close> and everything below it.\<close>

definition remove_tree :: "path \<Rightarrow> fs \<Rightarrow> fs" where
  "remove_tree q fs = filter (\<lambda>e. \<not> prefix q (fst e)) fs"

text \<open>The file system without everything below \<open>q\<close>, but with \<open>q\<close>.\<close>

definition remove_below :: "path \<Rightarrow> fs \<Rightarrow> fs" where
  "remove_below q fs = filter (\<lambda>e. \<not> strict_prefix q (fst e)) fs"

text \<open>
  A file system for examples: a build directory with a file and a
  subdirectory that holds another file, and a file beside it.
\<close>

definition fs_example :: fs where
  "fs_example =
     [([''.build''], Directory),
      ([''.build'', ''a.js''], RegularFile),
      ([''.build'', ''lib''], Directory),
      ([''.build'', ''lib'', ''b.js''], RegularFile),
      ([''handler.ts''], RegularFile)]"

section \<open>Path strings\<close>

lemma components_append:
  assumes "valid_name f"
  shows "components (p @ ''/'' @ f) = components p @ [f]"
proof -
  from assms have "js_split (CHR ''/'') f = [f]"
    by (simp add: valid_name_def js_split_no_sep_id)
  with assms show ?thesis
    by (simp add: components_def js_split_append valid_name_def)
qed

lemma components_simple: "valid_name f \<Longrightarrow> components f = [f]"
  by (simp add: components_def valid_name_def js_split_no_sep_id)

lemma components_Nil [simp]: "components [] = []"
  by (simp add: components_def)

lemma components_snoc: "valid_name f \<Longrightarrow> components (p @ CHR ''/'' # f) = components p @ [f]"
  using components_append [of f p] by simp

lemma resolve_components: "components p \<noteq> [] \<Longrightarrow> resolve fs p = lookup fs (components p)"
  by (auto simp: resolve_def)

lemma resolve_append:
  "valid_name f \<Longrightarrow> resolve fs (p @ CHR ''/'' # f) = lookup fs (components p @ [f])"
  using components_append [of f p] by (simp add: resolve_def)

lemma resolve_root: "p \<noteq> [] \<Longrightarrow> components p = [] \<Longrightarrow> resolve fs p = Some Directory"
  by (simp add: resolve_def lookup_def)

section \<open>Lookup in a filtered file system\<close>

lemma map_of_filter_fst:
  "map_of (filter (\<lambda>e. P (fst e)) fs) k = (if P k then map_of fs k else None)"
  by (induction fs) auto

lemma lookup_keys: "q \<noteq> [] \<Longrightarrow> lookup fs q \<noteq> None \<longleftrightarrow> q \<in> fst ` set fs"
  by (simp add: lookup_def map_of_eq_None_iff)

lemma lookup_remove_tree:
  "lookup (remove_tree q fs) k =
     (if k \<noteq> [] \<and> prefix q k then None else lookup fs k)"
  by (simp add: lookup_def remove_tree_def map_of_filter_fst [where P = "\<lambda>k. \<not> prefix q k"])

lemma lookup_remove_below:
  "lookup (remove_below q fs) k = (if strict_prefix q k then None else lookup fs k)"
  by (auto simp: lookup_def remove_below_def
      map_of_filter_fst [where P = "\<lambda>k. \<not> strict_prefix q k"])

lemma lookup_remove_entry:
  "lookup (remove_entry q fs) k = (if k \<noteq> [] \<and> k = q then None else lookup fs k)"
  by (simp add: lookup_def remove_entry_def map_of_filter_fst [where P = "\<lambda>k. k \<noteq> q"])

lemma children_iff: "f \<in> set (children fs q) \<longleftrightarrow> q @ [f] \<in> fst ` set fs"
proof
  assume "f \<in> set (children fs q)"
  then obtain e where "e \<in> set fs" "fst e \<noteq> []" "butlast (fst e) = q" "last (fst e) = f"
    by (auto simp: children_def)
  then have "fst e = q @ [f]"
    using append_butlast_last_id [of "fst e"] by simp
  with \<open>e \<in> set fs\<close> show "q @ [f] \<in> fst ` set fs" by force
next
  assume "q @ [f] \<in> fst ` set fs"
  then obtain e where "e \<in> set fs" "fst e = q @ [f]" by auto
  then show "f \<in> set (children fs q)"
    by (force simp: children_def)
qed

lemma children_empty_iff:
  "children fs q = [] \<longleftrightarrow> (\<forall>f. q @ [f] \<notin> fst ` set fs)"
  using children_iff [of _ fs q] by (metis empty_iff empty_set last_in_set)

lemma distinct_children: "distinct (map fst fs) \<Longrightarrow> distinct (children fs q)"
proof (induction fs)
  case Nil
  show ?case by (simp add: children_def)
next
  case (Cons e fs)
  then have IH: "distinct (children fs q)" by simp
  show ?case
  proof (cases "fst e \<noteq> [] \<and> butlast (fst e) = q")
    case True
    then have e: "fst e = q @ [last (fst e)]"
      using append_butlast_last_id [of "fst e"] by simp
    have "last (fst e) \<notin> set (children fs q)"
    proof
      assume "last (fst e) \<in> set (children fs q)"
      then have "fst e \<in> fst ` set fs"
        unfolding children_iff using e by simp
      with Cons.prems show False by simp
    qed
    with IH True show ?thesis
      using IH by (simp add: children_def)
  next
    case False
    with IH show ?thesis by (auto simp: children_def)
  qed
qed

section \<open>Well-formed file systems\<close>

lemma wf_fs_entry:
  assumes "wf_fs fs" and "k \<in> fst ` set fs"
  shows "k \<noteq> []" and "list_all valid_name k" and "lookup fs (butlast k) = Some Directory"
  using assms by (auto simp: wf_fs_def list_all_iff)

text \<open>Whatever lies above an entry is a directory.\<close>

lemma wf_ancestor:
  assumes "wf_fs fs"
  shows "q @ r \<in> fst ` set fs \<Longrightarrow> r \<noteq> [] \<Longrightarrow> lookup fs q = Some Directory"
proof (induction r rule: rev_induct)
  case Nil
  then show ?case by simp
next
  case (snoc x r)
  from wf_fs_entry(3) [OF assms snoc.prems(1)]
  have up: "lookup fs (q @ r) = Some Directory"
    by (simp add: butlast_append)
  show ?case
  proof (cases "r = []")
    case True
    with up show ?thesis by simp
  next
    case False
    with up have "q @ r \<in> fst ` set fs"
      using lookup_keys [of "q @ r" fs] by simp
    from snoc.IH [OF this False] show ?thesis .
  qed
qed

text \<open>Nothing lies below a regular file.\<close>

lemma wf_file_leaf:
  assumes "wf_fs fs" and "lookup fs q = Some RegularFile"
    and "k \<in> fst ` set fs" and "prefix q k"
  shows "k = q"
proof (rule ccontr)
  assume "k \<noteq> q"
  with assms(4) obtain r where "k = q @ r" "r \<noteq> []"
    by (auto simp: prefix_def)
  with wf_ancestor [OF assms(1), of q r] assms(2,3) show False by simp
qed

lemma remove_entry_file:
  assumes "wf_fs fs" and "lookup fs q = Some RegularFile"
  shows "remove_entry q fs = remove_tree q fs"
  unfolding remove_entry_def remove_tree_def
  using wf_file_leaf [OF assms] by (intro filter_cong) auto

lemma wf_remove_tree:
  assumes "wf_fs fs"
  shows "wf_fs (remove_tree q fs)"
proof -
  have "lookup (remove_tree q fs) (butlast k) = Some Directory"
    if "k \<in> fst ` set fs" "\<not> prefix q k" for k
  proof -
    have "\<not> prefix q (butlast k)"
      using that(2) prefix_order.trans [OF _ prefixeq_butlast [of k], of q] by blast
    with wf_fs_entry(3) [OF assms that(1)] show ?thesis
      by (simp add: lookup_remove_tree)
  qed
  moreover have "distinct (map fst (remove_tree q fs))"
    using assms by (simp add: wf_fs_def remove_tree_def distinct_map_filter)
  ultimately show ?thesis
    using assms by (auto simp: wf_fs_def list_all_iff remove_tree_def)
qed

section \<open>Subtrees\<close>

lemma fold_remove_tree:
  "fold (\<lambda>f. remove_tree (g f)) ns fs =
     filter (\<lambda>e. \<forall>f \<in> set ns. \<not> prefix (g f) (fst e)) fs"
  by (induction ns arbitrary: fs) (simp_all add: remove_tree_def)

lemma wf_fold_remove_tree: "wf_fs fs \<Longrightarrow> wf_fs (fold (\<lambda>f. remove_tree (g f)) ns fs)"
  by (induction ns arbitrary: fs) (simp_all add: wf_remove_tree)

lemma lookup_fold_remove_tree:
  "lookup (fold (\<lambda>f. remove_tree (g f)) ns fs) k =
     (if k \<noteq> [] \<and> (\<exists>f \<in> set ns. prefix (g f) k) then None else lookup fs k)"
  by (induction ns arbitrary: fs) (auto simp: lookup_remove_tree)

text \<open>What lies below a directory lies in one of its children.\<close>

lemma below_child:
  assumes "wf_fs fs" and "k \<in> fst ` set fs" and "strict_prefix q k"
  obtains f where "f \<in> set (children fs q)" and "prefix (q @ [f]) k"
proof -
  from assms(3) obtain x r where k: "k = q @ x # r"
    by (auto elim: strict_prefixE')
  have "q @ [x] \<in> fst ` set fs"
  proof (cases "r = []")
    case True
    with k assms(2) show ?thesis by simp
  next
    case False
    with wf_ancestor [OF assms(1), of "q @ [x]" r] k assms(2)
    have "lookup fs (q @ [x]) = Some Directory" by simp
    then show ?thesis using lookup_keys [of "q @ [x]" fs] by simp
  qed
  then have "x \<in> set (children fs q)" by (simp add: children_iff)
  moreover have "prefix (q @ [x]) k" by (simp add: k)
  ultimately show ?thesis by (rule that)
qed

text \<open>Removing the subtrees of all children leaves the empty directory.\<close>

lemma fold_remove_children:
  assumes "wf_fs fs"
  shows "fold (\<lambda>f. remove_tree (q @ [f])) (children fs q) fs = remove_below q fs"
  unfolding fold_remove_tree remove_below_def
proof (rule filter_cong [OF refl])
  fix e assume e: "e \<in> set fs"
  show "(\<forall>f \<in> set (children fs q). \<not> prefix (q @ [f]) (fst e)) \<longleftrightarrow>
        \<not> strict_prefix q (fst e)"
  proof
    assume none: "\<forall>f \<in> set (children fs q). \<not> prefix (q @ [f]) (fst e)"
    show "\<not> strict_prefix q (fst e)"
    proof
      assume "strict_prefix q (fst e)"
      with assms e obtain f where "f \<in> set (children fs q)" "prefix (q @ [f]) (fst e)"
        by (auto elim: below_child)
      with none show False by blast
    qed
  next
    assume "\<not> strict_prefix q (fst e)"
    then show "\<forall>f \<in> set (children fs q). \<not> prefix (q @ [f]) (fst e)"
      by (auto simp: prefix_def strict_prefix_def)
  qed
qed

lemma children_remove_below: "children (remove_below q fs) q = []"
  by (auto simp: children_empty_iff remove_below_def strict_prefix_def)

lemma remove_entry_remove_below: "remove_entry q (remove_below q fs) = remove_tree q fs"
  by (auto simp: remove_entry_def remove_below_def remove_tree_def strict_prefix_def
      intro: filter_cong)

lemma remove_below_root: "wf_fs fs \<Longrightarrow> remove_below [] fs = []"
  using wf_fs_entry(1) [of fs]
  by (force simp: remove_below_def filter_empty_conv strict_prefix_def)

lemma remove_tree_absorb: "prefix r q \<Longrightarrow> remove_tree r (remove_tree q fs) = remove_tree r fs"
  unfolding remove_tree_def filter_filter
  by (rule filter_cong [OF refl]) (auto dest: prefix_order.trans)

section \<open>The calls on a well-formed file system\<close>

lemma children_valid: "wf_fs fs \<Longrightarrow> list_all valid_name (children fs q)"
  unfolding list_all_iff
proof
  fix f assume "wf_fs fs" and "f \<in> set (children fs q)"
  then show "valid_name f"
    using wf_fs_entry(2) [of fs "q @ [f]"] by (simp add: children_iff)
qed

lemma readdir_valid: "wf_fs fs \<Longrightarrow> readdir fs p = Inr files \<Longrightarrow> list_all valid_name files"
  by (auto simp: readdir_def children_valid split: option.splits kind.splits)

text \<open>Nothing lies below a directory without children.\<close>

lemma remove_entry_empty_dir:
  assumes "wf_fs fs" and "children fs q = []"
  shows "remove_entry q fs = remove_tree q fs"
  unfolding remove_entry_def remove_tree_def
proof (rule filter_cong [OF refl])
  fix e assume e: "e \<in> set fs"
  have "\<not> strict_prefix q (fst e)"
  proof
    assume "strict_prefix q (fst e)"
    with assms(1) e obtain f where "f \<in> set (children fs q)"
      by (auto elim: below_child)
    with assms(2) show False by simp
  qed
  then show "fst e \<noteq> q \<longleftrightarrow> \<not> prefix q (fst e)"
    by (auto simp: strict_prefix_def)
qed

lemma unlink_remove_tree:
  assumes "wf_fs fs" and "unlink p fs = Inr fs'"
  shows "fs' = remove_tree (components p) fs"
  using assms remove_entry_file [of fs "components p"]
  by (auto simp: unlink_def resolve_def split: option.splits kind.splits if_splits)

lemma rmdir_remove_tree:
  assumes "wf_fs fs" and "rmdir p fs = Inr fs'"
  shows "fs' = remove_tree (components p) fs"
  using assms remove_entry_empty_dir [of fs "components p"]
  by (auto simp: rmdir_def split: option.splits kind.splits if_splits)

lemma wf_unlink:
  assumes "wf_fs fs" and "unlink p fs = Inr fs'"
  shows "wf_fs fs'"
  unfolding unlink_remove_tree [OF assms] using assms(1) by (rule wf_remove_tree)

lemma wf_rmdir:
  assumes "wf_fs fs" and "rmdir p fs = Inr fs'"
  shows "wf_fs fs'"
  unfolding rmdir_remove_tree [OF assms] using assms(1) by (rule wf_remove_tree)

end
