(* ===== verification/Remove_Directory.thy ===== *)
theory Remove_Directory
  imports File_System
begin

text \<open>
  \<^verbatim>\<open>removeDirectory\<close> of \<^verbatim>\<open>src/src/util.ts\<close>: if the path exists, every entry
  of the directory is removed, a directory by a recursive call and
  anything else by \<^verbatim>\<open>unlink\<close>, and then the directory itself by \<^verbatim>\<open>rmdir\<close>.
  The function awaits each call before the next, so the model is the
  sequence of the calls on the file system of \<open>File_System\<close>, with no other
  task running between them. A rejected promise is an error code beside
  the file system that the calls before it have left. The recursion
  follows the directory tree and gets fuel: \<open>None\<close> is a run that needs
  more fuel than it has, and \<open>enough_fuel\<close> is an amount that always
  suffices.
\<close>

section \<open>removeDirectory\<close>

type_synonym run = "(fs_error option \<times> fs) option"

text \<open>
  The loop over the names that \<^verbatim>\<open>readdir\<close> has returned; \<open>self\<close> is the
  function for the recursive call.
\<close>

fun removeDirectory_loop :: "(string \<Rightarrow> fs \<Rightarrow> run) \<Rightarrow> string \<Rightarrow> string list \<Rightarrow> fs \<Rightarrow> run" where
  "removeDirectory_loop self path [] fs = Some (None, fs)"
| "removeDirectory_loop self path (file # files) fs =
     (let curPath = path @ ''/'' @ file in
      case lstat fs curPath of
        Inl e \<Rightarrow> Some (Some e, fs)
      | Inr isDirectory \<Rightarrow>
          (case (if isDirectory then self curPath fs
                 else (case unlink curPath fs of
                         Inl e \<Rightarrow> Some (Some e, fs)
                       | Inr fs' \<Rightarrow> Some (None, fs'))) of
             None \<Rightarrow> None
           | Some (Some e, fs') \<Rightarrow> Some (Some e, fs')
           | Some (None, fs') \<Rightarrow> removeDirectory_loop self path files fs'))"

primrec removeDirectory :: "nat \<Rightarrow> string \<Rightarrow> fs \<Rightarrow> run" where
  "removeDirectory 0 path fs = None"
| "removeDirectory (Suc n) path fs =
     (let dirExists = fs_exists fs path in
      if dirExists then
        (case readdir fs path of
           Inl e \<Rightarrow> Some (Some e, fs)
         | Inr files \<Rightarrow>
             (case removeDirectory_loop (removeDirectory n) path files fs of
                None \<Rightarrow> None
              | Some (Some e, fs') \<Rightarrow> Some (Some e, fs')
              | Some (None, fs') \<Rightarrow>
                  (case rmdir path fs' of
                     Inl e \<Rightarrow> Some (Some e, fs')
                   | Inr fs'' \<Rightarrow> Some (None, fs''))))
      else Some (None, fs))"

section \<open>Fuel\<close>

text \<open>
  \<open>n\<close> is enough fuel for a call on the directory \<open>q\<close>: every entry is less
  than \<open>n\<close> levels below \<open>q\<close>.
\<close>

definition fuel_enough :: "nat \<Rightarrow> path \<Rightarrow> fs \<Rightarrow> bool" where
  "fuel_enough n q fs \<longleftrightarrow> list_all (\<lambda>e. length (fst e) < n + length q) fs"

text \<open>One more than the length of the longest path of the file system.\<close>

definition enough_fuel :: "fs \<Rightarrow> nat" where
  "enough_fuel fs = Suc (fold max (map (\<lambda>e. length (fst e)) fs) 0)"

section \<open>What the function promises\<close>

text \<open>
  The result of a run, case by case: nothing happens when the path names
  nothing; a regular file is refused by \<^verbatim>\<open>readdir\<close>; a directory goes with
  all that lies below it. The working directory loses its content, and
  then \<^verbatim>\<open>rmdir\<close> refuses it.
\<close>

definition removeDirectory_spec :: "string \<Rightarrow> fs \<Rightarrow> fs_error option \<times> fs" where
  "removeDirectory_spec path fs =
     (case resolve fs path of
        None \<Rightarrow> (None, fs)
      | Some RegularFile \<Rightarrow> (Some ENOTDIR, fs)
      | Some Directory \<Rightarrow>
          if components path = [] then (Some EINVAL, remove_below [] fs)
          else (None, remove_tree (components path) fs))"

section \<open>Lemmas on fuel\<close>

lemma fold_max_ge: "(a::nat) \<le> fold max xs a"
  by (induction xs arbitrary: a) (auto intro: order_trans [OF max.cobounded2])

lemma fold_max_mem: "(x::nat) \<in> set xs \<Longrightarrow> x \<le> fold max xs a"
proof (induction xs arbitrary: a)
  case Nil
  then show ?case by simp
next
  case (Cons y ys)
  show ?case
  proof (cases "x = y")
    case True
    have "x \<le> max x a" by simp
    also have "\<dots> \<le> fold max ys (max x a)" by (rule fold_max_ge)
    finally show ?thesis using True by simp
  next
    case False
    with Cons show ?thesis by simp
  qed
qed

lemma fuel_enough_enough_fuel: "fuel_enough (enough_fuel fs) q fs"
  unfolding fuel_enough_def enough_fuel_def list_all_iff
  using fold_max_mem [of _ "map (\<lambda>e. length (fst e)) fs" 0]
  by (fastforce simp: less_Suc_eq_le intro: trans_le_add1)

lemma fuel_enough_remove_tree: "fuel_enough n q fs \<Longrightarrow> fuel_enough n q (remove_tree r fs)"
  by (simp add: fuel_enough_def remove_tree_def list_all_iff)

lemma fuel_enough_child: "fuel_enough (Suc n) q fs \<Longrightarrow> fuel_enough n (q @ [f]) fs"
  by (simp add: fuel_enough_def)

lemma fuel_enough_key:
  "fuel_enough n q fs \<Longrightarrow> q \<in> fst ` set fs \<Longrightarrow> 0 < n"
  by (auto simp: fuel_enough_def list_all_iff)

section \<open>The loop\<close>

text \<open>
  If the recursive call removes the subtree of a directory, the loop over
  children of a directory removes the subtrees of these children.
\<close>

lemma removeDirectory_loop_fold:
  assumes self: "\<And>file fs. wf_fs fs \<Longrightarrow> valid_name file \<Longrightarrow>
      lookup fs (components path @ [file]) = Some Directory \<Longrightarrow>
      fuel_enough n (components path @ [file]) fs \<Longrightarrow>
      self (path @ ''/'' @ file) fs = Some (None, remove_tree (components path @ [file]) fs)"
  shows "wf_fs fs \<Longrightarrow> distinct files \<Longrightarrow>
     (\<And>f. f \<in> set files \<Longrightarrow> valid_name f \<and> lookup fs (components path @ [f]) \<noteq> None) \<Longrightarrow>
     fuel_enough (Suc n) (components path) fs \<Longrightarrow>
     removeDirectory_loop self path files fs =
       Some (None, fold (\<lambda>f. remove_tree (components path @ [f])) files fs)"
proof (induction files arbitrary: fs)
  case Nil
  show ?case by simp
next
  case (Cons f files)
  let ?p = "components path"
  let ?fs' = "remove_tree (?p @ [f]) fs"
  from Cons.prems(3) [of f] have valid: "valid_name f"
    and "lookup fs (?p @ [f]) \<noteq> None" by simp_all
  then obtain k where k: "lookup fs (?p @ [f]) = Some k" by auto
  have comp: "components (path @ CHR ''/'' # f) = ?p @ [f]"
    using components_append [OF valid, of path] by simp
  have step: "(if k = Directory then self (path @ CHR ''/'' # f) fs
       else (case unlink (path @ CHR ''/'' # f) fs of
               Inl e \<Rightarrow> Some (Some e, fs) | Inr fs' \<Rightarrow> Some (None, fs'))) =
     Some (None, ?fs')"
  proof (cases k)
    case Directory
    with self [OF Cons.prems(1) valid] k fuel_enough_child [OF Cons.prems(4)]
    show ?thesis by simp
  next
    case RegularFile
    with k remove_entry_file [OF Cons.prems(1), of "?p @ [f]"] show ?thesis
      by (simp add: unlink_def comp resolve_append [OF valid])
  qed
  have "removeDirectory_loop self path files ?fs' =
      Some (None, fold (\<lambda>f. remove_tree (?p @ [f])) files ?fs')"
  proof (rule Cons.IH)
    show "wf_fs ?fs'" by (rule wf_remove_tree [OF Cons.prems(1)])
    show "distinct files" using Cons.prems(2) by simp
    show "fuel_enough (Suc n) ?p ?fs'"
      by (rule fuel_enough_remove_tree [OF Cons.prems(4)])
    fix g assume g: "g \<in> set files"
    with Cons.prems(2) have "g \<noteq> f" by auto
    with Cons.prems(3) [of g] g
    show "valid_name g \<and> lookup ?fs' (?p @ [g]) \<noteq> None"
      by (simp add: lookup_remove_tree)
  qed
  then show ?case
    by (simp add: lstat_def resolve_append [OF valid] k step)
qed

text \<open>The same for all children of a directory.\<close>

lemma removeDirectory_loop_children:
  assumes self: "\<And>file fs. wf_fs fs \<Longrightarrow> valid_name file \<Longrightarrow>
      lookup fs (components path @ [file]) = Some Directory \<Longrightarrow>
      fuel_enough n (components path @ [file]) fs \<Longrightarrow>
      self (path @ ''/'' @ file) fs = Some (None, remove_tree (components path @ [file]) fs)"
    and wf: "wf_fs fs" and fuel: "fuel_enough (Suc n) (components path) fs"
  shows "removeDirectory_loop self path (children fs (components path)) fs =
         Some (None, remove_below (components path) fs)"
proof -
  let ?p = "components path"
  have "removeDirectory_loop self path (children fs ?p) fs =
      Some (None, fold (\<lambda>f. remove_tree (?p @ [f])) (children fs ?p) fs)"
  proof (rule removeDirectory_loop_fold [OF self wf _ _ fuel])
    show "distinct (children fs ?p)"
      using wf by (simp add: wf_fs_def distinct_children)
    fix f assume "f \<in> set (children fs ?p)"
    then have key: "?p @ [f] \<in> fst ` set fs" by (simp add: children_iff)
    from wf_fs_entry(2) [OF wf key] have "valid_name f" by simp
    moreover from key have "lookup fs (?p @ [f]) \<noteq> None"
      by (simp add: lookup_keys del: not_None_eq)
    ultimately show "valid_name f \<and> lookup fs (?p @ [f]) \<noteq> None" ..
  qed
  then show ?thesis by (simp add: fold_remove_children [OF wf])
qed

section \<open>The function on a directory\<close>

lemma removeDirectory_dir:
  "wf_fs fs \<Longrightarrow> components path \<noteq> [] \<Longrightarrow> lookup fs (components path) = Some Directory \<Longrightarrow>
   fuel_enough n (components path) fs \<Longrightarrow>
   removeDirectory n path fs = Some (None, remove_tree (components path) fs)"
proof (induction n arbitrary: path fs)
  case 0
  from 0(2,3) have "components path \<in> fst ` set fs"
    using lookup_keys [of "components path" fs] by simp
  with fuel_enough_key [OF 0(4)] show ?case by simp
next
  case (Suc n)
  let ?p = "components path"
  have loop: "removeDirectory_loop (removeDirectory n) path (children fs ?p) fs =
      Some (None, remove_below ?p fs)"
  proof (rule removeDirectory_loop_children [OF _ Suc.prems(1,4)])
    fix f fs'
    assume f: "wf_fs fs'" "valid_name f" "lookup fs' (?p @ [f]) = Some Directory"
      "fuel_enough n (?p @ [f]) fs'"
    have "components (path @ ''/'' @ f) = ?p @ [f]"
      by (rule components_append [OF f(2)])
    with f show "removeDirectory n (path @ ''/'' @ f) fs' =
        Some (None, remove_tree (?p @ [f]) fs')"
      using Suc.IH [of fs' "path @ ''/'' @ f"] by simp
  qed
  have "rmdir path (remove_below ?p fs) = Inr (remove_tree ?p fs)"
    using Suc.prems(2,3)
    by (simp add: rmdir_def resolve_components lookup_remove_below children_remove_below
        remove_entry_remove_below)
  with loop Suc.prems(2,3) show ?case
    by (simp add: fs_exists_def readdir_def resolve_components)
qed

text \<open>
  The loop over the first names of a directory, with the fuel that is
  enough for the file system: it removes the subtrees of these names.
\<close>

lemma removeDirectory_loop_prefix:
  assumes "wf_fs fs" and "children fs (components path) = pre @ rest"
  shows "removeDirectory_loop (removeDirectory (enough_fuel fs)) path pre fs =
         Some (None, fold (\<lambda>f. remove_tree (components path @ [f])) pre fs)"
proof (rule removeDirectory_loop_fold [OF _ assms(1)])
  let ?p = "components path"
  fix f fs'
  assume f: "wf_fs fs'" "valid_name f" "lookup fs' (?p @ [f]) = Some Directory"
    "fuel_enough (enough_fuel fs) (?p @ [f]) fs'"
  have "components (path @ ''/'' @ f) = ?p @ [f]"
    by (rule components_append [OF f(2)])
  with f show "removeDirectory (enough_fuel fs) (path @ ''/'' @ f) fs' =
      Some (None, remove_tree (?p @ [f]) fs')"
    using removeDirectory_dir [of fs' "path @ ''/'' @ f" "enough_fuel fs"] by simp
next
  let ?p = "components path"
  from assms have "distinct (pre @ rest)"
    using distinct_children [of fs ?p] by (simp add: wf_fs_def)
  then show "distinct pre" by simp
  show "fuel_enough (Suc (enough_fuel fs)) ?p fs"
    using fuel_enough_enough_fuel [of fs ?p] by (auto simp: fuel_enough_def list_all_iff)
  fix f assume "f \<in> set pre"
  with assms(2) have "f \<in> set (children fs ?p)" by simp
  then have key: "?p @ [f] \<in> fst ` set fs" by (simp add: children_iff)
  from wf_fs_entry(2) [OF assms(1) key] have "valid_name f" by simp
  moreover from key have "lookup fs (?p @ [f]) \<noteq> None"
    by (simp add: lookup_keys del: not_None_eq)
  ultimately show "valid_name f \<and> lookup fs (?p @ [f]) \<noteq> None" ..
qed

section \<open>The function on the working directory\<close>

lemma removeDirectory_root:
  assumes "wf_fs fs" and "path \<noteq> []" and "components path = []"
    and "fuel_enough (Suc n) [] fs"
  shows "removeDirectory (Suc n) path fs = Some (Some EINVAL, remove_below [] fs)"
proof -
  have "removeDirectory_loop (removeDirectory n) path (children fs (components path)) fs =
      Some (None, remove_below (components path) fs)"
  proof (rule removeDirectory_loop_children [OF _ assms(1)])
    show "fuel_enough (Suc n) (components path) fs"
      using assms(3,4) by simp
    fix f fs'
    assume f: "wf_fs fs'" "valid_name f" "lookup fs' (components path @ [f]) = Some Directory"
      "fuel_enough n (components path @ [f]) fs'"
    have "components (path @ ''/'' @ f) = components path @ [f]"
      by (rule components_append [OF f(2)])
    with f show "removeDirectory n (path @ ''/'' @ f) fs' =
        Some (None, remove_tree (components path @ [f]) fs')"
      using removeDirectory_dir [of fs' "path @ ''/'' @ f" n] by simp
  qed
  moreover have "rmdir path (remove_below [] fs) = Inl EINVAL"
    using assms(2,3) by (simp add: rmdir_def resolve_root)
  ultimately show ?thesis
    using assms(2,3) by (simp add: fs_exists_def readdir_def resolve_root)
qed

section \<open>Runs with enough fuel\<close>

lemma removeDirectory_enough_fuel:
  assumes "wf_fs fs"
  shows "removeDirectory (enough_fuel fs) path fs = Some (removeDirectory_spec path fs)"
proof (cases "resolve fs path")
  case None
  then show ?thesis
    by (simp add: enough_fuel_def removeDirectory_spec_def fs_exists_def)
next
  case (Some k)
  note fuel = fuel_enough_enough_fuel [of fs]
  show ?thesis
  proof (cases k)
    case RegularFile
    with Some show ?thesis
      by (simp add: enough_fuel_def removeDirectory_spec_def fs_exists_def readdir_def)
  next
    case Directory
    show ?thesis
    proof (cases "components path = []")
      case True
      from Some have "path \<noteq> []" by (auto simp: resolve_def)
      from removeDirectory_root [OF assms this True] fuel [of "[]"] Some Directory True
      show ?thesis by (simp add: enough_fuel_def removeDirectory_spec_def)
    next
      case False
      with Some Directory have "lookup fs (components path) = Some Directory"
        by (simp add: resolve_components)
      from removeDirectory_dir [OF assms False this fuel] Some Directory False
      show ?thesis by (simp add: removeDirectory_spec_def)
    qed
  qed
qed

section \<open>More fuel changes nothing\<close>

lemma removeDirectory_loop_mono:
  assumes "\<And>p fs r. self p fs = Some r \<Longrightarrow> self' p fs = Some r"
  shows "removeDirectory_loop self path files fs = Some r \<Longrightarrow>
         removeDirectory_loop self' path files fs = Some r"
proof (induction files arbitrary: fs)
  case Nil
  then show ?case by simp
next
  case (Cons f files)
  show ?case
  proof (cases "lstat fs (path @ CHR ''/'' # f)")
    case (Inl e)
    with Cons.prems show ?thesis by simp
  next
    case (Inr isDirectory)
    show ?thesis
    proof (cases isDirectory)
      case False
      with Inr Cons.prems Cons.IH show ?thesis
        by (auto split: sum.splits option.splits)
    next
      case True
      with Inr Cons.prems obtain x where x: "self (path @ CHR ''/'' # f) fs = Some x"
        by (auto split: option.splits)
      with assms have "self' (path @ CHR ''/'' # f) fs = Some x" by simp
      with x True Inr Cons.prems Cons.IH show ?thesis
        by (auto split: option.splits prod.splits)
    qed
  qed
qed

lemma removeDirectory_mono_Suc:
  "removeDirectory n path fs = Some r \<Longrightarrow> removeDirectory (Suc n) path fs = Some r"
proof (induction n arbitrary: path fs r)
  case 0
  then show ?case by simp
next
  case (Suc n)
  have loop: "removeDirectory_loop (removeDirectory (Suc n)) path files fs = Some x"
    if "removeDirectory_loop (removeDirectory n) path files fs = Some x" for files x
    using that by (rule removeDirectory_loop_mono [rotated]) (rule Suc.IH)
  show ?case
  proof (cases "fs_exists fs path")
    case False
    with Suc.prems show ?thesis by simp
  next
    case True
    show ?thesis
    proof (cases "readdir fs path")
      case (Inl e)
      with True Suc.prems show ?thesis by simp
    next
      case (Inr files)
      with True Suc.prems obtain x
        where x: "removeDirectory_loop (removeDirectory n) path files fs = Some x"
        by (auto split: option.splits)
      from loop [OF this] x True Inr Suc.prems show ?thesis
        by (simp del: removeDirectory.simps add: removeDirectory.simps(2) [of "Suc n"]
            removeDirectory.simps(2) [of n])
    qed
  qed
qed

lemma removeDirectory_mono:
  assumes "n \<le> m" and "removeDirectory n path fs = Some r"
  shows "removeDirectory m path fs = Some r"
  using assms(1)
proof (induction rule: dec_induct)
  case base
  show ?case by (rule assms(2))
next
  case (step k)
  then show ?case by (intro removeDirectory_mono_Suc)
qed

lemma removeDirectory_result:
  assumes "wf_fs fs" and "removeDirectory n path fs = Some r"
  shows "r = removeDirectory_spec path fs"
proof -
  let ?m = "max n (enough_fuel fs)"
  have "removeDirectory ?m path fs = Some r"
    by (rule removeDirectory_mono [OF _ assms(2)]) simp
  moreover have "removeDirectory ?m path fs = Some (removeDirectory_spec path fs)"
    by (rule removeDirectory_mono [OF _ removeDirectory_enough_fuel [OF assms(1)]]) simp
  ultimately show ?thesis by simp
qed

section \<open>The example\<close>

lemmas fs_eval =
  fs_example_def wf_fs_def lookup_def resolve_def components_def valid_name_def
  remove_tree_def remove_below_def removeDirectory_spec_def

lemma fs_example_wf [simp]: "wf_fs fs_example"
  by (simp add: fs_eval)

lemma fs_example_build [simp]:
  "removeDirectory_spec ''.build'' fs_example = (None, [([''handler.ts''], RegularFile)])"
  by (simp add: fs_eval)

section \<open>Properties of removeDirectory\<close>

text \<open>
  C8. With the fuel \<open>enough_fuel\<close>, \<open>removeDirectory\<close> on a well-formed file
  system finishes and returns what its specification says: nothing
  changes when the path names nothing; a regular file is refused with
  \<open>ENOTDIR\<close> and nothing changes; a directory is removed with everything
  below it and nothing else.
\<close>

theorem removeDirectory_meets_spec:
  assumes "wf_fs fs"
  shows "removeDirectory (enough_fuel fs) path fs = Some (removeDirectory_spec path fs)"
  using assms by (rule removeDirectory_enough_fuel)

theorem removeDirectory_meets_spec_witness:
  "wf_fs fs_example \<and>
   removeDirectory (enough_fuel fs_example) ''.build'' fs_example =
     Some (None, [([''handler.ts''], RegularFile)])"
  using removeDirectory_meets_spec [of fs_example "''.build''"] by simp

text \<open>
  C23. The fuel does not show in the result: a run that finishes with any
  amount of fuel returns what the specification says, so all runs that
  finish agree.
\<close>

theorem removeDirectory_fuel_independent:
  assumes "wf_fs fs" and "removeDirectory n path fs = Some r"
  shows "r = removeDirectory_spec path fs \<and>
         removeDirectory (enough_fuel fs) path fs = Some r"
  using removeDirectory_result [OF assms] removeDirectory_enough_fuel [OF assms(1)]
  by simp

theorem removeDirectory_fuel_independent_witness:
  "removeDirectory (Suc (Suc (Suc 0))) ''.build'' fs_example =
     Some (None, [([''handler.ts''], RegularFile)]) \<and>
   removeDirectory (enough_fuel fs_example) ''.build'' fs_example =
     Some (None, [([''handler.ts''], RegularFile)])"
proof -
  have run: "removeDirectory (Suc (Suc (Suc 0))) ''.build'' fs_example =
      Some (None, [([''handler.ts''], RegularFile)])"
    by (simp add: fs_example_def fs_exists_def readdir_def lstat_def unlink_def rmdir_def
        resolve_def lookup_def components_def children_def remove_entry_def)
  from removeDirectory_fuel_independent [OF fs_example_wf run] run show ?thesis
    by simp
qed

text \<open>
  C20. Removing a directory removes exactly its subtree: after the run the
  path does not exist, every path outside the subtree names what it named
  before, and the file system is well formed.
\<close>

theorem removeDirectory_removes_tree:
  assumes "wf_fs fs" and "resolve fs path = Some Directory" and "components path \<noteq> []"
  shows "\<exists>fs'. removeDirectory (enough_fuel fs) path fs = Some (None, fs') \<and>
           wf_fs fs' \<and> \<not> fs_exists fs' path \<and>
           (\<forall>q. lookup fs' q = (if prefix (components path) q then None else lookup fs q))"
proof (intro exI conjI allI)
  let ?fs' = "remove_tree (components path) fs"
  show "removeDirectory (enough_fuel fs) path fs = Some (None, ?fs')"
    using assms by (simp add: removeDirectory_enough_fuel removeDirectory_spec_def)
  show "wf_fs ?fs'" by (rule wf_remove_tree [OF assms(1)])
  show "\<not> fs_exists ?fs' path"
    using assms(3) by (simp add: fs_exists_def resolve_components lookup_remove_tree)
  show "lookup ?fs' q = (if prefix (components path) q then None else lookup fs q)" for q
    using assms(3) by (auto simp: lookup_remove_tree)
qed

theorem removeDirectory_removes_tree_witness:
  "wf_fs fs_example \<and> resolve fs_example ''.build'' = Some Directory \<and>
   (\<exists>fs'. removeDirectory (enough_fuel fs_example) ''.build'' fs_example = Some (None, fs') \<and>
          \<not> fs_exists fs' ''.build'' \<and>
          lookup fs' [''handler.ts''] = lookup fs_example [''handler.ts''])"
proof -
  have "resolve fs_example ''.build'' = Some Directory" "components ''.build'' \<noteq> []"
    by (simp_all add: fs_eval)
  from removeDirectory_removes_tree [OF fs_example_wf this] this(1) show ?thesis
    by (auto simp: components_def)
qed

text \<open>
  Every run that finishes leaves a well-formed file system, also when
  it ends with an error.
\<close>

theorem removeDirectory_wf:
  assumes "wf_fs fs" and "removeDirectory n path fs = Some (err, fs')"
  shows "wf_fs fs'"
proof -
  from removeDirectory_result [OF assms] have "fs' = snd (removeDirectory_spec path fs)"
    by (metis snd_conv)
  moreover have "wf_fs []" by (simp add: wf_fs_def)
  ultimately show ?thesis
    using assms(1)
    by (auto simp: removeDirectory_spec_def remove_below_root wf_remove_tree
        split: option.splits kind.splits)
qed

theorem removeDirectory_wf_witness:
  "wf_fs fs_example \<and> wf_fs [([''handler.ts''], RegularFile)]"
  using removeDirectory_wf [OF fs_example_wf, of "enough_fuel fs_example" "''.build''" None
      "[([''handler.ts''], RegularFile)]"]
    removeDirectory_enough_fuel [OF fs_example_wf, of "''.build''"]
  by simp

text \<open>
  On the working directory the function removes everything and then
  fails: for every path that names the working directory, every entry of
  the file system is removed, \<^verbatim>\<open>rmdir\<close> refuses the directory, and the
  promise is rejected with \<open>EINVAL\<close> after the content is gone.
\<close>

theorem removeDirectory_working_directory:
  assumes "wf_fs fs" and "path \<noteq> []" and "components path = []"
  shows "removeDirectory (enough_fuel fs) path fs = Some (Some EINVAL, [])"
  using assms
  by (simp add: removeDirectory_enough_fuel removeDirectory_spec_def resolve_root
      remove_below_root)

theorem removeDirectory_working_directory_witness:
  "wf_fs fs_example \<and> components ''./'' = [] \<and>
   removeDirectory (enough_fuel fs_example) ''./'' fs_example = Some (Some EINVAL, [])"
proof -
  have "components ''./'' = []" by (simp add: components_def)
  from removeDirectory_working_directory [OF fs_example_wf _ this] this show ?thesis
    by simp
qed

end
