(* ===== verification/Remove_Machine.thy ===== *)
theory Remove_Machine
  imports Remove_Directory
begin

text \<open>
  \<^verbatim>\<open>removeDirectory\<close> of \<^verbatim>\<open>src/src/util.ts\<close> once more, call by call. The
  function is asynchronous: it gives up control at every \<^verbatim>\<open>await\<close>, and
  whatever else uses the file system can run between two of its calls.
  The theory models the function as a machine whose steps are the awaited
  calls, with a stack of the activations that wait for a recursive call,
  and with steps of the environment between them. It shows what holds at
  every point of every run, whatever the environment does; that the machine
  reaches an end when it runs alone; and that it then ends where the
  function \<open>removeDirectory\<close> of \<open>Remove_Directory\<close> says.
\<close>

section \<open>Program points, events and configurations\<close>

text \<open>
  An activation of the function waits at one of its calls: at
  \<^verbatim>\<open>exists(path)\<close>, at \<^verbatim>\<open>readdir(path)\<close>, in the loop before \<^verbatim>\<open>lstat\<close> of the
  next name (or, when no name is left, before \<^verbatim>\<open>rmdir(path)\<close>), or at
  \<^verbatim>\<open>unlink\<close> of the current name. An activation that awaits a recursive call
  is a loop frame below the frame of that call.
\<close>

datatype frame =
    Enter string
  | Listing string
  | Loop string "string list"
  | Unlinking string string "string list"

text \<open>
  The five functions of the \<^verbatim>\<open>fs\<close> module that the file wraps into promises.
\<close>

datatype fs_call = Exists | Readdir | Lstat | Unlink | Rmdir

text \<open>
  What happens in a run: a call of one of the five functions on a path, or
  a step of the environment.
\<close>

datatype event = Call fs_call string | Interference

text \<open>
  A configuration is the stack with the file system, or the rejection of
  the outermost promise: nothing in the function catches an error, so a
  call that fails ends all activations.
\<close>

datatype config = Running "frame list" fs | Rejected fs_error fs

fun final_config :: "config \<Rightarrow> bool" where
  "final_config (Running st fs) \<longleftrightarrow> st = []"
| "final_config (Rejected e fs) \<longleftrightarrow> True"

fun config_outcome :: "config \<Rightarrow> fs_error option \<times> fs" where
  "config_outcome (Running st fs) = (None, fs)"
| "config_outcome (Rejected e fs) = (Some e, fs)"

text \<open>The configuration in which an activation above the stack \<open>st\<close> ends.\<close>

fun of_result :: "frame list \<Rightarrow> fs_error option \<times> fs \<Rightarrow> config" where
  "of_result st (None, fs) = Running st fs"
| "of_result st (Some e, fs) = Rejected e fs"

section \<open>The steps\<close>

text \<open>The call that the topmost activation makes, and what it leads to.\<close>

fun prog_step :: "frame \<Rightarrow> frame list \<Rightarrow> fs \<Rightarrow> event \<times> config" where
  "prog_step (Enter path) st fs =
     (Call Exists path,
      if fs_exists fs path then Running (Listing path # st) fs else Running st fs)"
| "prog_step (Listing path) st fs =
     (Call Readdir path,
      case readdir fs path of
        Inl e \<Rightarrow> Rejected e fs
      | Inr files \<Rightarrow> Running (Loop path files # st) fs)"
| "prog_step (Loop path []) st fs =
     (Call Rmdir path,
      case rmdir path fs of
        Inl e \<Rightarrow> Rejected e fs
      | Inr fs' \<Rightarrow> Running st fs')"
| "prog_step (Loop path (file # files)) st fs =
     (let curPath = path @ ''/'' @ file in
      (Call Lstat curPath,
       case lstat fs curPath of
         Inl e \<Rightarrow> Rejected e fs
       | Inr isDirectory \<Rightarrow>
           if isDirectory then Running (Enter curPath # Loop path files # st) fs
           else Running (Unlinking path file files # st) fs))"
| "prog_step (Unlinking path file files) st fs =
     (let curPath = path @ ''/'' @ file in
      (Call Unlink curPath,
       case unlink curPath fs of
         Inl e \<Rightarrow> Rejected e fs
       | Inr fs' \<Rightarrow> Running (Loop path files # st) fs'))"

text \<open>
  A step of the whole system: the call of the topmost activation, or a
  change of the file system by the environment \<open>env\<close> while the function
  waits.
\<close>

inductive machine_step :: "(fs \<Rightarrow> fs \<Rightarrow> bool) \<Rightarrow> config \<Rightarrow> event \<Rightarrow> config \<Rightarrow> bool"
  for env where
  program: "prog_step fr st fs = (e, c) \<Longrightarrow> machine_step env (Running (fr # st) fs) e c"
| interference:
    "env fs fs' \<Longrightarrow>
     machine_step env (Running (fr # st) fs) Interference (Running (fr # st) fs')"

text \<open>Runs, with the events in their order.\<close>

inductive machine_run :: "(fs \<Rightarrow> fs \<Rightarrow> bool) \<Rightarrow> config \<Rightarrow> event list \<Rightarrow> config \<Rightarrow> bool"
  for env where
  run_nil: "machine_run env c [] c"
| run_cons:
    "machine_step env c e c' \<Longrightarrow> machine_run env c' es c'' \<Longrightarrow>
     machine_run env c (e # es) c''"

text \<open>The environment that does nothing, and environments that keep the tree.\<close>

definition alone :: "fs \<Rightarrow> fs \<Rightarrow> bool" where
  "alone fs fs' \<longleftrightarrow> False"

definition tame :: "(fs \<Rightarrow> fs \<Rightarrow> bool) \<Rightarrow> bool" where
  "tame env \<longleftrightarrow> (\<forall>fs fs'. env fs fs' \<longrightarrow> wf_fs fs \<longrightarrow> wf_fs fs')"

text \<open>The machine alone, run for a number of steps.\<close>

fun exec :: "nat \<Rightarrow> config \<Rightarrow> event list \<times> config" where
  "exec (Suc n) (Running (fr # st) fs) =
     (let (e, c) = prog_step fr st fs; (es, c') = exec n c in (e # es, c'))"
| "exec n c = ([], c)"

section \<open>What holds at every point of a run\<close>

text \<open>
  Every activation works below the directory \<open>root\<close> that the run was
  started on, and the names it still has to visit are names of entries.
\<close>

fun frame_ok :: "path \<Rightarrow> frame \<Rightarrow> bool" where
  "frame_ok root (Enter p) \<longleftrightarrow> prefix root (components p)"
| "frame_ok root (Listing p) \<longleftrightarrow> prefix root (components p)"
| "frame_ok root (Loop p files) \<longleftrightarrow> prefix root (components p) \<and> list_all valid_name files"
| "frame_ok root (Unlinking p f files) \<longleftrightarrow>
     prefix root (components p) \<and> valid_name f \<and> list_all valid_name files"

fun config_ok :: "path \<Rightarrow> config \<Rightarrow> bool" where
  "config_ok root (Running st fs) \<longleftrightarrow> wf_fs fs \<and> list_all (frame_ok root) st"
| "config_ok root (Rejected e fs) \<longleftrightarrow> wf_fs fs"

text \<open>
  A call that removes something removes it below \<open>root\<close>: \<^verbatim>\<open>unlink\<close> strictly
  below, \<^verbatim>\<open>rmdir\<close> below or at \<open>root\<close>.
\<close>

fun event_below :: "path \<Rightarrow> event \<Rightarrow> bool" where
  "event_below root (Call Unlink p) \<longleftrightarrow> strict_prefix root (components p)"
| "event_below root (Call Rmdir p) \<longleftrightarrow> prefix root (components p)"
| "event_below root e \<longleftrightarrow> True"

section \<open>An environment for examples\<close>

text \<open>
  A directory with one file, and an environment that can remove that file
  at any time.
\<close>

definition fs_race :: fs where
  "fs_race = [([''d''], Directory), ([''d'', ''f''], RegularFile)]"

definition env_race :: "fs \<Rightarrow> fs \<Rightarrow> bool" where
  "env_race fs fs' \<longleftrightarrow> fs' = remove_tree [''d'', ''f''] fs"

text \<open>The environment that can remove the entry at \<open>q\<close> with what lies below it.\<close>

definition removing :: "path \<Rightarrow> fs \<Rightarrow> fs \<Rightarrow> bool" where
  "removing q fs fs' \<longleftrightarrow> fs' = remove_tree q fs"

section \<open>Steps and runs\<close>

inductive_cases step_RunningE: "machine_step env (Running st fs) e c"
inductive_cases step_RejectedE: "machine_step env (Rejected err fs) e c"

lemma final_no_step: "final_config c \<Longrightarrow> \<not> machine_step env c e c'"
  by (cases c) (auto elim: step_RunningE step_RejectedE)

lemma machine_run_append:
  "machine_run env c es c' \<Longrightarrow> machine_run env c' es' c'' \<Longrightarrow>
   machine_run env c (es @ es') c''"
  by (induction rule: machine_run.induct) (auto intro: machine_run.intros)

lemma machine_run_single: "machine_step env c e c' \<Longrightarrow> machine_run env c [e] c'"
  by (blast intro: machine_run.intros)

lemma machine_run_program:
  "prog_step fr st fs = (e, c) \<Longrightarrow> machine_run env c es c' \<Longrightarrow>
   machine_run env (Running (fr # st) fs) (e # es) c'"
  by (blast intro: machine_run.intros machine_step.program)

text \<open>Alone, the machine is deterministic.\<close>

lemma alone_step_deterministic:
  assumes "machine_step alone c e c'" and "machine_step alone c e2 c2"
  shows "e2 = e \<and> c2 = c'"
  using assms by (cases c) (auto elim!: step_RunningE step_RejectedE simp: alone_def)

lemma alone_run_deterministic:
  "machine_run alone c es c' \<Longrightarrow> final_config c' \<Longrightarrow>
   machine_run alone c es2 c2 \<Longrightarrow> final_config c2 \<Longrightarrow> es2 = es \<and> c2 = c'"
proof (induction arbitrary: es2 rule: machine_run.induct)
  case (run_nil c)
  from run_nil(2) show ?case
    using final_no_step [OF run_nil(1)] by (cases rule: machine_run.cases) auto
next
  case (run_cons c e c' es c'')
  from run_cons.prems(2) show ?case
  proof (cases rule: machine_run.cases)
    case run_nil
    with run_cons.hyps(1) run_cons.prems(3) show ?thesis
      using final_no_step by blast
  next
    case (run_cons e2 d es')
    from alone_step_deterministic [OF run_cons.hyps(1) run_cons(2)]
    have "e2 = e" "d = c'" by simp_all
    with run_cons.IH [OF run_cons.prems(1) _ run_cons.prems(3), of es'] run_cons(1,3)
    show ?thesis by simp
  qed
qed

lemma exec_run: "exec n c = (es, c') \<Longrightarrow> machine_run env c es c'"
proof (induction n c arbitrary: es c' rule: exec.induct)
  case (1 n fr st fs)
  obtain e d where step: "prog_step fr st fs = (e, d)" by force
  obtain es' d' where rest: "exec n d = (es', d')" by force
  from 1(2) step rest have "es = e # es'" "c' = d'" by simp_all
  with "1.IH" [OF step [symmetric] refl rest] step show ?case
    by (auto intro: machine_run_program)
qed (auto intro: machine_run.intros)

text \<open>A run of the machine alone is what \<open>exec\<close> computes.\<close>

lemma exec_complete:
  "machine_run alone c es c' \<Longrightarrow> final_config c' \<Longrightarrow> exec (length es) c = (es, c')"
proof (induction rule: machine_run.induct)
  case (run_nil c)
  then show ?case by (cases c) simp_all
next
  case (run_cons c e d es c')
  from run_cons.hyps(1) run_cons.IH [OF run_cons.prems] show ?case
    by (cases rule: machine_step.cases) (simp_all add: alone_def)
qed

section \<open>From the function to the machine\<close>

lemma outcome_of_result [simp]: "config_outcome (of_result st r) = r"
  by (cases "(st, r)" rule: of_result.cases) simp_all

lemma reach_refl: "\<exists>es. machine_run env c es c"
  by (blast intro: machine_run.intros)

lemma reach_step:
  "prog_step fr st fs = (e, c) \<Longrightarrow> \<exists>es. machine_run env c es c' \<Longrightarrow>
   \<exists>es. machine_run env (Running (fr # st) fs) es c'"
  by (blast intro: machine_run_program)

lemma reach_trans:
  "\<exists>es. machine_run env c es c' \<Longrightarrow> \<exists>es. machine_run env c' es c'' \<Longrightarrow>
   \<exists>es. machine_run env c es c''"
  by (blast intro: machine_run_append)

text \<open>
  The loop of the function over some names, with a recursive call that
  the machine can follow, is a run of the machine from the loop frame with
  these names before the others to the loop frame with the others.
\<close>

lemma removeDirectory_loop_run:
  assumes self: "\<And>p fs st r. self p fs = Some r \<Longrightarrow>
      \<exists>es. machine_run env (Running (Enter p # st) fs) es (of_result st r)"
  shows "removeDirectory_loop self path files fs = Some r \<Longrightarrow>
    \<exists>es. machine_run env (Running (Loop path (files @ rest) # st) fs) es
      (of_result (Loop path rest # st) r)"
proof (induction files arbitrary: fs)
  case Nil
  then show ?case by (auto intro: reach_refl)
next
  case (Cons f files)
  let ?cur = "path @ ''/'' @ f"
  show ?case
  proof (cases "lstat fs ?cur")
    case (Inl e)
    with Cons.prems have "r = (Some e, fs)" by simp
    with Inl show ?thesis
      by (auto simp: Let_def intro!: reach_step [OF _ reach_refl])
  next
    case (Inr isDirectory)
    show ?thesis
    proof (cases isDirectory)
      case True
      with Inr Cons.prems obtain r1 where r1: "self ?cur fs = Some r1"
        by (auto split: option.splits)
      from self [OF r1] have call:
        "\<exists>es. machine_run env (Running (Enter ?cur # Loop path (files @ rest) # st) fs) es
           (of_result (Loop path (files @ rest) # st) r1)" .
      have enter: "prog_step (Loop path (f # files @ rest)) st fs =
          (Call Lstat ?cur, Running (Enter ?cur # Loop path (files @ rest) # st) fs)"
        using Inr True by (simp add: Let_def)
      show ?thesis
      proof (cases r1)
        case (Pair err fs')
        show ?thesis
        proof (cases err)
          case None
          with Pair r1 Inr True Cons.prems
          have "removeDirectory_loop self path files fs' = Some r" by simp
          from reach_trans [OF _ Cons.IH [OF this]] call Pair None
          have "\<exists>es. machine_run env (Running (Enter ?cur # Loop path (files @ rest) # st) fs) es
              (of_result (Loop path rest # st) r)" by simp
          from reach_step [OF enter this] show ?thesis by simp
        next
          case (Some e)
          with Pair r1 Inr True Cons.prems have "r = (Some e, fs')" by simp
          with call Pair Some reach_step [OF enter] show ?thesis by simp
        qed
      qed
    next
      case False
      have stat: "prog_step (Loop path (f # files @ rest)) st fs =
          (Call Lstat ?cur, Running (Unlinking path f (files @ rest) # st) fs)"
        using Inr False by (simp add: Let_def)
      show ?thesis
      proof (cases "unlink ?cur fs")
        case (Inl e)
        with Inr False Cons.prems have "r = (Some e, fs)" by simp
        moreover have "prog_step (Unlinking path f (files @ rest)) st fs = (Call Unlink ?cur, Rejected e fs)"
          using Inl by (simp add: Let_def)
        ultimately show ?thesis
          using reach_step [OF stat reach_step [OF _ reach_refl]] by simp
      next
        case (Inr fs')
        with \<open>lstat fs ?cur = Inr isDirectory\<close> False Cons.prems
        have "removeDirectory_loop self path files fs' = Some r" by simp
        moreover have "prog_step (Unlinking path f (files @ rest)) st fs =
            (Call Unlink ?cur, Running (Loop path (files @ rest) # st) fs')"
          using Inr by (simp add: Let_def)
        ultimately show ?thesis
          using reach_step [OF stat reach_step [OF _ Cons.IH]] by simp
      qed
    qed
  qed
qed

text \<open>A call of the function that returns is a run of the machine.\<close>

lemma removeDirectory_run:
  "removeDirectory n path fs = Some r \<Longrightarrow>
   \<exists>es. machine_run env (Running (Enter path # st) fs) es (of_result st r)"
proof (induction n arbitrary: path fs st r)
  case 0
  then show ?case by simp
next
  case (Suc n)
  show ?case
  proof (cases "fs_exists fs path")
    case False
    with Suc.prems have "r = (None, fs)" by simp
    with False show ?thesis
      by (auto intro!: reach_step [OF _ reach_refl])
  next
    case True
    then have enter: "prog_step (Enter path) st fs = (Call Exists path, Running (Listing path # st) fs)"
      by simp
    show ?thesis
    proof (cases "readdir fs path")
      case (Inl e)
      with True Suc.prems have "r = (Some e, fs)" by simp
      moreover have "prog_step (Listing path) st fs = (Call Readdir path, Rejected e fs)"
        using Inl by simp
      ultimately show ?thesis
        using reach_step [OF enter reach_step [OF _ reach_refl]] by simp
    next
      case (Inr files)
      then have list: "prog_step (Listing path) st fs =
          (Call Readdir path, Running (Loop path files # st) fs)"
        by simp
      from True Inr Suc.prems obtain err fs' where
        loop: "removeDirectory_loop (removeDirectory n) path files fs = Some (err, fs')"
        by (auto split: option.splits)
      from removeDirectory_loop_run [where self = "removeDirectory n" and env = env
          and rest = "[]", OF Suc.IH loop]
      have run: "\<exists>es. machine_run env (Running (Loop path files # st) fs) es
          (of_result (Loop path [] # st) (err, fs'))" by simp
      have "\<exists>es. machine_run env (Running (Loop path files # st) fs) es (of_result st r)"
      proof (cases err)
        case (Some e)
        with loop True Inr Suc.prems have "r = (Some e, fs')" by simp
        with run Some show ?thesis by simp
      next
        case None
        with run have run: "\<exists>es. machine_run env (Running (Loop path files # st) fs) es
            (Running (Loop path [] # st) fs')" by simp
        show ?thesis
        proof (cases "rmdir path fs'")
          case (Inl e)
          with None loop True Inr Suc.prems have "r = (Some e, fs')" by simp
          moreover have "prog_step (Loop path []) st fs' = (Call Rmdir path, Rejected e fs')"
            using Inl by simp
          ultimately show ?thesis
            using reach_trans [OF run reach_step [OF _ reach_refl]] None by simp
        next
          case (Inr fs'')
          with None loop True \<open>readdir fs path = Inr files\<close> Suc.prems
          have "r = (None, fs'')" by simp
          moreover have "prog_step (Loop path []) st fs' = (Call Rmdir path, Running st fs'')"
            using Inr by simp
          ultimately show ?thesis
            using reach_trans [OF run reach_step [OF _ reach_refl]] None by simp
        qed
      qed
      from reach_step [OF enter reach_step [OF list this]] show ?thesis .
    qed
  qed
qed

section \<open>From the machine to the function\<close>

lemma final_of_result [simp]: "final_config (of_result [] r)"
  by (cases "([]::frame list, r)" rule: of_result.cases) simp_all

text \<open>Alone on a well-formed file system, the machine has a run to the end.\<close>

lemma machine_run_spec:
  assumes "wf_fs fs"
  shows "\<exists>es. machine_run alone (Running [Enter path] fs) es
           (of_result [] (removeDirectory_spec path fs))"
  using removeDirectory_run [OF removeDirectory_enough_fuel [OF assms]] .

text \<open>Every run of the machine alone is the beginning of its run to the end.\<close>

lemma alone_run_prefix:
  "machine_run alone c es1 c1 \<Longrightarrow> machine_run alone c es c' \<Longrightarrow> final_config c' \<Longrightarrow>
   \<exists>es'. es = es1 @ es' \<and> machine_run alone c1 es' c'"
proof (induction arbitrary: es rule: machine_run.induct)
  case (run_nil c)
  then show ?case by simp
next
  case (run_cons c e d es1 c1)
  from run_cons.prems(1) show ?case
  proof (cases rule: machine_run.cases)
    case run_nil
    with run_cons.hyps(1) run_cons.prems(2) show ?thesis
      using final_no_step by blast
  next
    case (run_cons e2 d2 es2)
    from alone_step_deterministic [OF run_cons.hyps(1) run_cons(2)]
    have "e2 = e" "d2 = d" by simp_all
    with run_cons.IH [of es2] run_cons(1,3) run_cons.prems(2) show ?thesis by simp
  qed
qed

lemma machine_final_spec:
  assumes "wf_fs fs" and "machine_run alone (Running [Enter path] fs) es c" and "final_config c"
  shows "c = of_result [] (removeDirectory_spec path fs)"
proof -
  from machine_run_spec [OF assms(1)] obtain es' where
    "machine_run alone (Running [Enter path] fs) es' (of_result [] (removeDirectory_spec path fs))"
    by blast
  from alone_run_deterministic [OF this _ assms(2,3)] show ?thesis by simp
qed

section \<open>Invariants\<close>

lemma prog_step_ok:
  assumes "wf_fs fs" and "frame_ok root fr" and "list_all (frame_ok root) st"
    and "prog_step fr st fs = (e, c)"
  shows "config_ok root c \<and> event_below root e"
  using assms
  by (cases "(fr, st, fs)" rule: prog_step.cases)
    (auto simp: Let_def components_snoc prefix_def strict_prefix_def
      split: sum.splits if_splits
      intro: wf_unlink wf_rmdir dest: readdir_valid)

lemma machine_step_ok:
  assumes "tame env" and "config_ok root c" and "machine_step env c e c'"
  shows "config_ok root c' \<and> event_below root e"
  using assms(3,1,2)
  by (cases rule: machine_step.cases) (auto simp: tame_def dest: prog_step_ok)

lemma machine_run_ok:
  assumes "tame env"
  shows "machine_run env c es c' \<Longrightarrow> config_ok root c \<Longrightarrow>
         config_ok root c' \<and> list_all (event_below root) es"
  by (induction rule: machine_run.induct) (auto dest: machine_step_ok [OF assms])

text \<open>A call of the machine never changes what lies outside the directory.\<close>

lemma prog_step_outside:
  assumes "wf_fs fs" and "frame_ok root fr" and "prog_step fr st fs = (e, c)"
  shows "remove_tree root (snd (config_outcome c)) = remove_tree root fs"
  using assms
  by (cases "(fr, st, fs)" rule: prog_step.cases)
    (auto simp: Let_def components_snoc remove_tree_absorb
      split: sum.splits if_splits
      dest!: unlink_remove_tree [rotated] rmdir_remove_tree [rotated])

lemma alone_run_outside:
  "machine_run alone c es c' \<Longrightarrow> config_ok root c \<Longrightarrow>
   remove_tree root (snd (config_outcome c')) = remove_tree root (snd (config_outcome c))"
proof (induction rule: machine_run.induct)
  case (run_nil c)
  show ?case by simp
next
  case (run_cons c e d es c')
  from run_cons.hyps(1) run_cons.prems
  have "config_ok root d \<and> remove_tree root (snd (config_outcome d)) = remove_tree root (snd (config_outcome c))"
    by (cases rule: machine_step.cases)
      (auto simp: alone_def dest: prog_step_ok prog_step_outside)
  with run_cons.IH show ?case by simp
qed

section \<open>The examples\<close>

lemmas fs_calls =
  fs_exists_def readdir_def lstat_def unlink_def rmdir_def resolve_def lookup_def
  components_def children_def remove_entry_def

lemma tame_env_race: "tame env_race"
  by (simp add: tame_def env_race_def wf_remove_tree)

lemma fs_race_wf: "wf_fs fs_race"
  by (simp add: fs_race_def wf_fs_def lookup_def valid_name_def)

text \<open>
  The file goes between \<^verbatim>\<open>lstat\<close> and \<^verbatim>\<open>unlink\<close>: the call fails, and the
  directory stays.
\<close>

lemma race_run:
  "machine_run env_race (Running [Enter ''d''] fs_race)
     [Call Exists ''d'', Call Readdir ''d'', Call Lstat ''d/f'', Interference, Call Unlink ''d/f'']
     (Rejected ENOENT [([''d''], Directory)])"
proof -
  have "machine_run env_race (Running [Unlinking ''d'' ''f'' []] [([''d''], Directory)])
      [Call Unlink ''d/f''] (Rejected ENOENT [([''d''], Directory)])"
    by (rule machine_run_program [OF _ run_nil]) (simp add: fs_calls)
  then have "machine_run env_race (Running [Unlinking ''d'' ''f'' []] fs_race)
      [Interference, Call Unlink ''d/f''] (Rejected ENOENT [([''d''], Directory)])"
    by (rule run_cons [rotated]) (rule interference, simp add: env_race_def fs_race_def remove_tree_def)
  then have "machine_run env_race (Running [Loop ''d'' [''f'']] fs_race)
      [Call Lstat ''d/f'', Interference, Call Unlink ''d/f''] (Rejected ENOENT [([''d''], Directory)])"
    by (rule machine_run_program [rotated]) (simp add: fs_calls fs_race_def)
  then have "machine_run env_race (Running [Listing ''d''] fs_race)
      [Call Readdir ''d'', Call Lstat ''d/f'', Interference, Call Unlink ''d/f'']
      (Rejected ENOENT [([''d''], Directory)])"
    by (rule machine_run_program [rotated]) (simp add: fs_calls fs_race_def)
  then show ?thesis
    by (rule machine_run_program [rotated]) (simp add: fs_calls fs_race_def)
qed

section \<open>Properties of the machine\<close>

text \<open>
  C9. Whatever else changes the file system between the calls of
  \<open>removeDirectory\<close>, as long as it leaves a well-formed file system: every
  \<^verbatim>\<open>unlink\<close> of a run is at a path strictly below the directory that the
  run was started on, every \<^verbatim>\<open>rmdir\<close> at that directory or below it, and
  the file system is well formed at every point of the run.
\<close>

theorem removeDirectory_stays_below:
  assumes "tame env" and "wf_fs fs"
    and "machine_run env (Running [Enter path] fs) es c"
  shows "list_all (event_below (components path)) es \<and> config_ok (components path) c"
  using machine_run_ok [OF assms(1,3), of "components path"] assms(2) by simp

theorem removeDirectory_stays_below_witness:
  "tame env_race \<and> wf_fs fs_race \<and>
   list_all (event_below [''d''])
     [Call Exists ''d'', Call Readdir ''d'', Call Lstat ''d/f'', Interference, Call Unlink ''d/f''] \<and>
   config_ok [''d''] (Rejected ENOENT [([''d''], Directory)])"
  using removeDirectory_stays_below [OF tame_env_race fs_race_wf race_run]
    tame_env_race fs_race_wf
  by (simp add: components_def)

text \<open>
  C10. Alone on a well-formed file system, \<open>removeDirectory\<close> comes to an end
  from every point that a run can reach: the run goes on to a configuration
  in which no activation is left or the promise is rejected, and the
  config_outcome there is what the specification of the function says.
\<close>

theorem removeDirectory_machine_terminates:
  assumes "wf_fs fs" and "machine_run alone (Running [Enter path] fs) es c"
  shows "\<exists>es' c'. machine_run alone c es' c' \<and> final_config c' \<and>
           config_outcome c' = removeDirectory_spec path fs"
proof -
  from machine_run_spec [OF assms(1)] obtain es0 where
    run: "machine_run alone (Running [Enter path] fs) es0
            (of_result [] (removeDirectory_spec path fs))"
    by blast
  from alone_run_prefix [OF assms(2) run] obtain es' where
    "machine_run alone c es' (of_result [] (removeDirectory_spec path fs))"
    by auto
  then show ?thesis
    by (intro exI [of _ es'] exI [of _ "of_result [] (removeDirectory_spec path fs)"]) simp
qed

theorem removeDirectory_machine_terminates_witness:
  "wf_fs fs_example \<and>
   (\<exists>es' c'. machine_run alone (Running [Listing ''.build''] fs_example) es' c' \<and>
      final_config c' \<and> config_outcome c' = (None, [([''handler.ts''], RegularFile)]))"
proof -
  have "machine_run alone (Running [Enter ''.build''] fs_example) [Call Exists ''.build'']
      (Running [Listing ''.build''] fs_example)"
    by (rule machine_run_program [OF _ run_nil]) (simp add: fs_calls fs_example_def)
  from removeDirectory_machine_terminates [OF fs_example_wf this] show ?thesis
    by simp
qed

text \<open>
  C17. The machine and the function with fuel agree: on a well-formed file
  system, the function returns \<open>r\<close> with some amount of fuel exactly when
  the machine alone has a run to an end with the config_outcome \<open>r\<close>.
\<close>

theorem removeDirectory_machine_agrees:
  assumes "wf_fs fs"
  shows "(\<exists>n. removeDirectory n path fs = Some r) \<longleftrightarrow>
         (\<exists>es c. machine_run alone (Running [Enter path] fs) es c \<and>
            final_config c \<and> config_outcome c = r)"
proof
  assume "\<exists>n. removeDirectory n path fs = Some r"
  then obtain n where "removeDirectory n path fs = Some r" ..
  from removeDirectory_run [OF this, of alone "[]"] obtain es where
    "machine_run alone (Running [Enter path] fs) es (of_result [] r)" ..
  then show "\<exists>es c. machine_run alone (Running [Enter path] fs) es c \<and>
      final_config c \<and> config_outcome c = r"
    by (intro exI [of _ es] exI [of _ "of_result [] r"]) simp
next
  assume "\<exists>es c. machine_run alone (Running [Enter path] fs) es c \<and>
      final_config c \<and> config_outcome c = r"
  then obtain es c where "machine_run alone (Running [Enter path] fs) es c"
    "final_config c" "config_outcome c = r" by blast
  with machine_final_spec [OF assms this(1,2)] have "r = removeDirectory_spec path fs"
    by simp
  with removeDirectory_enough_fuel [OF assms, of path]
  show "\<exists>n. removeDirectory n path fs = Some r" by blast
qed

theorem removeDirectory_machine_agrees_witness:
  "wf_fs fs_example \<and>
   (\<exists>es c. machine_run alone (Running [Enter ''.build''] fs_example) es c \<and>
      final_config c \<and> config_outcome c = (None, [([''handler.ts''], RegularFile)]))"
proof -
  have "\<exists>n. removeDirectory n ''.build'' fs_example =
      Some (None, [([''handler.ts''], RegularFile)])"
    using removeDirectory_enough_fuel [OF fs_example_wf, of "''.build''"] by auto
  with removeDirectory_machine_agrees [OF fs_example_wf, of "''.build''"] show ?thesis
    by simp
qed

text \<open>
  C21. A run of \<open>removeDirectory\<close> alone can stop at any point, at an error
  or because the process ends: the file system is then well formed, and
  outside the directory that the run was started on it is what it was.
\<close>

theorem removeDirectory_interrupted:
  assumes "wf_fs fs" and "machine_run alone (Running [Enter path] fs) es c"
  shows "wf_fs (snd (config_outcome c)) \<and>
         remove_tree (components path) (snd (config_outcome c)) = remove_tree (components path) fs"
proof -
  have "tame alone" by (simp add: tame_def alone_def)
  from machine_run_ok [OF this assms(2), of "components path"] assms(1)
  have "wf_fs (snd (config_outcome c))" by (cases c) simp_all
  with alone_run_outside [OF assms(2), of "components path"] assms(1) show ?thesis
    by simp
qed

theorem removeDirectory_interrupted_witness:
  "wf_fs fs_example \<and>
   wf_fs [([''.build''], Directory), ([''.build'', ''lib''], Directory),
          ([''.build'', ''lib'', ''b.js''], RegularFile), ([''handler.ts''], RegularFile)] \<and>
   remove_tree [''.build'']
     [([''.build''], Directory), ([''.build'', ''lib''], Directory),
      ([''.build'', ''lib'', ''b.js''], RegularFile), ([''handler.ts''], RegularFile)] =
   remove_tree [''.build''] fs_example"
proof -
  have "exec (Suc (Suc (Suc (Suc 0)))) (Running [Enter ''.build''] fs_example) =
      ([Call Exists ''.build'', Call Readdir ''.build'', Call Lstat ''.build/a.js'',
        Call Unlink ''.build/a.js''],
       Running [Loop ''.build'' [''lib'']]
         [([''.build''], Directory), ([''.build'', ''lib''], Directory),
          ([''.build'', ''lib'', ''b.js''], RegularFile), ([''handler.ts''], RegularFile)])"
    by (simp add: fs_calls fs_example_def)
  from removeDirectory_interrupted [OF fs_example_wf exec_run [OF this]] show ?thesis
    by (simp add: components_def)
qed

section \<open>A run that fails because of another user\<close>

lemma reach_interference:
  "env fs fs' \<Longrightarrow> \<exists>es. machine_run env (Running (fr # st) fs') es c \<Longrightarrow>
   \<exists>es. machine_run env (Running (fr # st) fs) es c"
  by (blast intro: machine_run.intros machine_step.interference)

lemma tame_removing: "tame (removing q)"
  by (simp add: tame_def removing_def wf_remove_tree)

text \<open>
  The loop visits the names before \<open>f\<close>, \<^verbatim>\<open>lstat\<close> sees the file, the file
  goes, and \<^verbatim>\<open>unlink\<close> fails.
\<close>

lemma loop_race:
  assumes "wf_fs fs" and "children fs (components path) = pre @ f # rest"
    and "lookup fs (components path @ [f]) = Some RegularFile"
  shows "\<exists>es. machine_run (removing (components path @ [f]))
      (Running [Loop path (pre @ f # rest)] fs) es
      (Rejected ENOENT (remove_tree (components path @ [f])
         (fold (\<lambda>g. remove_tree (components path @ [g])) pre fs)))"
proof -
  let ?q = "components path"
  let ?env = "removing (?q @ [f])"
  let ?fs1 = "fold (\<lambda>g. remove_tree (?q @ [g])) pre fs"
  let ?fs2 = "remove_tree (?q @ [f]) ?fs1"
  from assms(1,2) have "distinct (pre @ f # rest)"
    using distinct_children [of fs ?q] by (simp add: wf_fs_def)
  then have fresh: "f \<notin> set pre" by simp
  from assms(1,2) have valid: "valid_name f"
    using children_valid [of fs ?q] by simp
  have "\<exists>es. machine_run ?env (Running (Loop path (pre @ f # rest) # []) fs) es
      (of_result (Loop path (f # rest) # []) (None, ?fs1))"
    by (rule removeDirectory_loop_run [where self = "removeDirectory (enough_fuel fs)"])
      (erule removeDirectory_run, rule removeDirectory_loop_prefix [OF assms(1,2)])
  then have loop: "\<exists>es. machine_run ?env (Running [Loop path (pre @ f # rest)] fs) es
      (Running [Loop path (f # rest)] ?fs1)"
    by simp
  from fresh assms(3) have "lookup ?fs1 (?q @ [f]) = Some RegularFile"
    by (simp add: lookup_fold_remove_tree)
  then have stat: "prog_step (Loop path (f # rest)) [] ?fs1 =
      (Call Lstat (path @ ''/'' @ f), Running [Unlinking path f rest] ?fs1)"
    by (simp add: Let_def lstat_def resolve_append [OF valid])
  have gone: "?env ?fs1 ?fs2" by (simp add: removing_def)
  have unlink: "prog_step (Unlinking path f rest) [] ?fs2 =
      (Call Unlink (path @ ''/'' @ f), Rejected ENOENT ?fs2)"
    by (simp add: Let_def unlink_def resolve_append [OF valid] lookup_remove_tree)
  have "\<exists>es. machine_run ?env (Running [Unlinking path f rest] ?fs1) es (Rejected ENOENT ?fs2)"
    by (rule reach_interference [where env = ?env, OF gone])
      (rule reach_step [OF unlink reach_refl])
  from reach_trans [OF loop reach_step [OF stat this]] show ?thesis .
qed

text \<open>
  C22. With another user of the file system, \<open>removeDirectory\<close> can fail on
  every directory that holds a file, although it removes the directory when
  it runs alone: when the other does nothing but remove this one file, and
  does so after \<^verbatim>\<open>lstat\<close> has seen it, \<^verbatim>\<open>unlink\<close> fails with \<open>ENOENT\<close>, the
  promise is rejected, and the directory is still there, in a well-formed
  file system.
\<close>

theorem removeDirectory_race:
  assumes "wf_fs fs" and "resolve fs path = Some Directory"
    and "children fs (components path) = pre @ f # rest"
    and "lookup fs (components path @ [f]) = Some RegularFile"
  shows "\<exists>es fs'. machine_run (removing (components path @ [f])) (Running [Enter path] fs) es
           (Rejected ENOENT fs') \<and> wf_fs fs' \<and> resolve fs' path = Some Directory"
proof -
  let ?q = "components path"
  let ?fs' = "remove_tree (?q @ [f]) (fold (\<lambda>g. remove_tree (?q @ [g])) pre fs)"
  from assms(2) have enter: "prog_step (Enter path) [] fs =
      (Call Exists path, Running [Listing path] fs)"
    by (simp add: fs_exists_def)
  from assms(2,3) have list: "prog_step (Listing path) [] fs =
      (Call Readdir path, Running [Loop path (pre @ f # rest)] fs)"
    by (simp add: readdir_def)
  from reach_step [OF enter reach_step [OF list loop_race [OF assms(1,3,4)]]]
  have "\<exists>es. machine_run (removing (?q @ [f])) (Running [Enter path] fs) es
      (Rejected ENOENT ?fs')" .
  moreover have "wf_fs ?fs'"
    by (intro wf_remove_tree wf_fold_remove_tree assms(1))
  moreover from assms(2) have "resolve ?fs' path = Some Directory"
    by (auto simp: resolve_def lookup_remove_tree lookup_fold_remove_tree split: if_splits)
  ultimately show ?thesis by blast
qed

theorem removeDirectory_race_witness:
  "wf_fs fs_race \<and> resolve fs_race ''d'' = Some Directory \<and>
   children fs_race [''d''] = [''f''] \<and> lookup fs_race [''d'', ''f''] = Some RegularFile \<and>
   (\<exists>es fs'. machine_run (removing [''d'', ''f'']) (Running [Enter ''d''] fs_race) es
      (Rejected ENOENT fs') \<and> resolve fs' ''d'' = Some Directory)"
proof -
  have facts: "resolve fs_race ''d'' = Some Directory" "components ''d'' = [''d'']"
    "children fs_race [''d''] = [] @ ''f'' # []" "lookup fs_race [''d'', ''f''] = Some RegularFile"
    by (simp_all add: fs_race_def fs_calls)
  from removeDirectory_race [OF fs_race_wf facts(1), of "[]" "''f''" "[]"] facts fs_race_wf
  show ?thesis by auto
qed

end
