(* ===== verification/Remove_Bounds.thy ===== *)
theory Remove_Bounds
  imports Remove_Machine
begin

text \<open>
  How many calls a run of \<^verbatim>\<open>removeDirectory\<close> of \<^verbatim>\<open>src/src/util.ts\<close> can make.
  The theory gives every configuration of the machine of \<open>Remove_Machine\<close> a
  cost, four for every entry that an activation still has to visit and a
  little for where the activation stands, and shows that every call lowers
  the cost and that an environment which only removes entries does not
  raise it. So the run ends after a number of calls that the size of the
  directory bounds, also while others remove entries.
\<close>

section \<open>The cost of a configuration\<close>

text \<open>The number of entries strictly below a directory.\<close>

definition below_size :: "path \<Rightarrow> fs \<Rightarrow> nat" where
  "below_size q fs = length (filter (\<lambda>e. strict_prefix q (fst e)) fs)"

text \<open>
  The names that the loop has not visited yet: each costs the call of
  \<^verbatim>\<open>lstat\<close> and what comes of it, a call of \<^verbatim>\<open>unlink\<close> or an activation.
\<close>

definition names_cost :: "fs \<Rightarrow> path \<Rightarrow> string list \<Rightarrow> nat" where
  "names_cost fs q files = sum_list (map (\<lambda>f. 4 * below_size (q @ [f]) fs + 4) files)"

fun frame_cost :: "fs \<Rightarrow> frame \<Rightarrow> nat" where
  "frame_cost fs (Enter p) = 4 * below_size (components p) fs + 3"
| "frame_cost fs (Listing p) = 4 * below_size (components p) fs + 2"
| "frame_cost fs (Loop p files) = names_cost fs (components p) files + 1"
| "frame_cost fs (Unlinking p f files) = names_cost fs (components p) files + 2"

fun cost :: "config \<Rightarrow> nat" where
  "cost (Running st fs) = sum_list (map (frame_cost fs) st)"
| "cost (Rejected e fs) = 0"

text \<open>The calls among the events of a run.\<close>

definition calls :: "event list \<Rightarrow> nat" where
  "calls es = length (filter (\<lambda>e. e \<noteq> Interference) es)"

text \<open>An environment that adds no entry and changes none.\<close>

definition shrinking :: "(fs \<Rightarrow> fs \<Rightarrow> bool) \<Rightarrow> bool" where
  "shrinking env \<longleftrightarrow> (\<forall>fs fs'. env fs fs' \<longrightarrow> set fs' \<subseteq> set fs)"

section \<open>The cost in a smaller file system\<close>

lemma below_size_mono:
  assumes "wf_fs fs'" and "set fs' \<subseteq> set fs"
  shows "below_size q fs' \<le> below_size q fs"
proof -
  from assms(1) have "distinct fs'"
    by (simp add: wf_fs_def distinct_map)
  then show ?thesis
    unfolding below_size_def using assms(2) by (rule length_filter_subset)
qed

lemma names_cost_mono:
  assumes "wf_fs fs'" and "set fs' \<subseteq> set fs"
  shows "names_cost fs' q files \<le> names_cost fs q files"
  unfolding names_cost_def
  by (intro sum_list_mono add_mono mult_le_mono below_size_mono [OF assms] le_refl)

lemma frame_cost_mono:
  assumes "wf_fs fs'" and "set fs' \<subseteq> set fs"
  shows "frame_cost fs' fr \<le> frame_cost fs fr"
  using below_size_mono [OF assms] names_cost_mono [OF assms]
  by (cases fr) (simp_all add: add_le_mono)

lemma stack_cost_mono:
  assumes "wf_fs fs'" and "set fs' \<subseteq> set fs"
  shows "cost (Running st fs') \<le> cost (Running st fs)"
  by (simp add: sum_list_mono frame_cost_mono [OF assms])

lemma remove_tree_subset: "set (remove_tree q fs) \<subseteq> set fs"
  by (auto simp: remove_tree_def)

section \<open>The entries below a directory lie below its children\<close>

lemma prefix_count:
  assumes "k \<in> fst ` set fs"
  shows "Suc (below_size k fs) \<le> length (filter (\<lambda>e. prefix k (fst e)) fs)"
proof -
  have "length (filter (\<lambda>e. prefix k (fst e)) fs) =
        length (filter (\<lambda>e. fst e = k) fs) + below_size k fs"
    unfolding below_size_def
    by (induction fs) (auto simp: strict_prefix_def)
  moreover from assms have "filter (\<lambda>e. fst e = k) fs \<noteq> []"
    by (auto simp: filter_empty_conv)
  then have "Suc 0 \<le> length (filter (\<lambda>e. fst e = k) fs)"
    by (cases "filter (\<lambda>e. fst e = k) fs") simp_all
  ultimately show ?thesis by linarith
qed

lemma children_below_size:
  assumes "wf_fs fs"
  shows "sum_list (map (\<lambda>f. Suc (below_size (q @ [f]) fs)) (children fs q)) \<le> below_size q fs"
proof -
  have "sum_list (map (\<lambda>f. Suc (below_size (q @ [f]) fs)) (children fs q)) \<le>
        sum_list (map (\<lambda>f. length (filter (\<lambda>e. prefix (q @ [f]) (fst e)) fs)) (children fs q))"
    by (intro sum_list_mono prefix_count) (simp add: children_iff)
  also have "\<dots> \<le> length (filter (\<lambda>e. \<exists>f \<in> set (children fs q). prefix (q @ [f]) (fst e)) fs)"
  proof (rule sum_list_length_filter_le)
    from assms show "distinct (children fs q)"
      by (simp add: wf_fs_def distinct_children)
    show "a = b" if "prefix (q @ [a]) (fst e)" "prefix (q @ [b]) (fst e)" for e a b
      using that by (auto simp: prefix_def append_eq_append_conv2 Cons_eq_append_conv)
  qed
  also have "\<dots> \<le> below_size q fs"
    unfolding below_size_def
    by (rule length_filter_mono) (auto simp: prefix_def strict_prefix_def)
  finally show ?thesis .
qed

lemma children_cost:
  assumes "wf_fs fs"
  shows "names_cost fs q (children fs q) \<le> 4 * below_size q fs"
proof -
  have "(\<lambda>f. 4 * below_size (q @ [f]) fs + 4) = (\<lambda>f. 4 * Suc (below_size (q @ [f]) fs))"
    by (rule ext) simp
  then have "names_cost fs q (children fs q) =
        4 * sum_list (map (\<lambda>f. Suc (below_size (q @ [f]) fs)) (children fs q))"
    unfolding names_cost_def by (simp only: sum_list_const_mult)
  with children_below_size [OF assms, of q] show ?thesis by simp
qed

section \<open>Every call lowers the cost\<close>

lemma prog_step_cost:
  assumes "wf_fs fs" and "frame_ok root fr" and "prog_step fr st fs = (e, c)"
  shows "Suc (cost c) \<le> cost (Running (fr # st) fs)"
proof (cases fr)
  case (Enter p)
  with assms(3) show ?thesis by (auto split: if_splits)
next
  case (Listing p)
  show ?thesis
  proof (cases "readdir fs p")
    case (Inl err)
    with Listing assms(3) show ?thesis by auto
  next
    case (Inr files)
    then have "files = children fs (components p)"
      by (auto simp: readdir_def split: option.splits kind.splits)
    with children_cost [OF assms(1), of "components p"] Inr Listing assms(3)
    show ?thesis by auto
  qed
next
  case (Loop p files)
  show ?thesis
  proof (cases files)
    case Nil
    show ?thesis
    proof (cases "rmdir p fs")
      case (Inl err)
      with Nil Loop assms(3) show ?thesis by auto
    next
      case (Inr fs')
      from wf_rmdir [OF assms(1) Inr] rmdir_remove_tree [OF assms(1) Inr]
      have "cost (Running st fs') \<le> cost (Running st fs)"
        by (intro stack_cost_mono) (simp_all add: remove_tree_subset)
      with Inr Nil Loop assms(3) show ?thesis by (auto simp: names_cost_def)
    qed
  next
    case (Cons f files')
    with Loop assms(2) have "valid_name f" by simp
    then have comp: "components (p @ CHR ''/'' # f) = components p @ [f]"
      by (rule components_snoc)
    from assms(3) show ?thesis
      unfolding Loop Cons
      by (cases "lstat fs (p @ ''/'' @ f)") (auto simp: Let_def names_cost_def comp)
  qed
next
  case (Unlinking p f files)
  show ?thesis
  proof (cases "unlink (p @ ''/'' @ f) fs")
    case (Inl err)
    with Unlinking assms(3) show ?thesis by (auto simp: Let_def)
  next
    case (Inr fs')
    from wf_unlink [OF assms(1) Inr] unlink_remove_tree [OF assms(1) Inr]
    have "cost (Running (Loop p files # st) fs') \<le> cost (Running (Loop p files # st) fs)"
      by (intro stack_cost_mono) (simp_all add: remove_tree_subset)
    with Inr Unlinking assms(3) show ?thesis by (auto simp: Let_def)
  qed
qed

lemma calls_Cons: "calls (e # es) = calls [e] + calls es"
  by (simp add: calls_def)

lemma machine_step_cost:
  assumes "tame env" and "shrinking env" and "config_ok root c" and "machine_step env c e c'"
  shows "calls [e] + cost c' \<le> cost c"
  using assms(4,3)
proof (cases rule: machine_step.cases)
  case (program fr st fs)
  with assms(3) prog_step_cost [of fs root fr st e c'] show ?thesis
    by (simp add: calls_def)
next
  case (interference fs fs' fr st)
  with assms(1-3) have "wf_fs fs'" "set fs' \<subseteq> set fs"
    by (auto simp: tame_def shrinking_def)
  from stack_cost_mono [OF this, of "fr # st"] interference show ?thesis
    by (simp add: calls_def)
qed

lemma machine_run_cost:
  assumes "tame env" and "shrinking env"
  shows "machine_run env c es c' \<Longrightarrow> config_ok root c \<Longrightarrow> calls es + cost c' \<le> cost c"
proof (induction rule: machine_run.induct)
  case (run_nil c)
  show ?case by (simp add: calls_def)
next
  case (run_cons c e d es c')
  from machine_step_ok [OF assms(1) run_cons.prems run_cons.hyps(1)]
  have "calls es + cost c' \<le> cost d" by (intro run_cons.IH) simp
  with machine_step_cost [OF assms run_cons.prems run_cons.hyps(1)] show ?case
    by (subst calls_Cons) simp
qed

lemma shrinking_env_race: "shrinking env_race"
  by (simp add: shrinking_def env_race_def remove_tree_subset)

section \<open>The bound\<close>

text \<open>
  The bound is reached: a directory that holds one empty directory takes
  seven calls.
\<close>

lemma calls_bound_attained:
  "exec 7 (Running [Enter ''d''] [([''d''], Directory), ([''d'', ''e''], Directory)]) =
     ([Call Exists ''d'', Call Readdir ''d'', Call Lstat ''d/e'', Call Exists ''d/e'',
       Call Readdir ''d/e'', Call Rmdir ''d/e'', Call Rmdir ''d''], Running [] []) \<and>
   4 * below_size [''d''] [([''d''], Directory), ([''d'', ''e''], Directory)] + 3 = 7"
  by (simp add: fs_calls below_size_def numeral_eq_Suc Let_def)


text \<open>
  C16. A run of \<open>removeDirectory\<close> makes at most three calls and four for
  every entry below the directory it was started on, also while others
  remove entries of the file system: with an environment that keeps the
  file system well formed and adds nothing, the number of calls of every
  run is bounded by the size of the directory at the start.
\<close>

theorem removeDirectory_calls_bounded:
  assumes "tame env" and "shrinking env" and "wf_fs fs"
    and "machine_run env (Running [Enter path] fs) es c"
  shows "calls es \<le> 4 * below_size (components path) fs + 3 \<and>
         below_size (components path) fs \<le> length fs"
  using machine_run_cost [OF assms(1,2,4), of "components path"] assms(3)
  by (simp add: below_size_def)

theorem removeDirectory_calls_bounded_witness:
  "tame env_race \<and> shrinking env_race \<and> wf_fs fs_race \<and>
   calls [Call Exists ''d'', Call Readdir ''d'', Call Lstat ''d/f'', Interference,
          Call Unlink ''d/f''] \<le> 4 * below_size [''d''] fs_race + 3"
  using removeDirectory_calls_bounded [OF tame_env_race shrinking_env_race fs_race_wf race_run]
    tame_env_race shrinking_env_race fs_race_wf
  by (simp add: components_def)

end
