(* ===== verification/Remove_Interference.thy ===== *)
theory Remove_Interference
  imports Remove_Bounds
begin

text \<open>
  \<^verbatim>\<open>removeDirectory\<close> of \<^verbatim>\<open>src/src/util.ts\<close> beside others that use the file
  system but stay out of the directory. What the function asks and changes
  lies in the directory it was started on, so its run among such others is
  a run of the machine alone on the part of the file system that it can
  see. The theory defines this part, shows that the machine of
  \<open>Remove_Machine\<close> takes the same steps on it, and concludes that the run
  ends without an error and with the directory gone.
\<close>

section \<open>The part of the file system that a run sees\<close>

text \<open>The entries at and below a directory.\<close>

definition inside :: "path \<Rightarrow> fs \<Rightarrow> fs" where
  "inside root fs = filter (\<lambda>e. prefix root (fst e)) fs"

text \<open>The directories above a directory, from the working directory down.\<close>

definition ancestors :: "path \<Rightarrow> fs" where
  "ancestors root = map (\<lambda>n. (take n root, Directory)) [1..<length root]"

definition view :: "path \<Rightarrow> fs \<Rightarrow> fs" where
  "view root fs = ancestors root @ inside root fs"

fun view_config :: "path \<Rightarrow> config \<Rightarrow> config" where
  "view_config root (Running st fs) = Running st (view root fs)"
| "view_config root (Rejected e fs) = Rejected e (view root fs)"

text \<open>An environment that leaves the directory and its content alone.\<close>

definition outside_only :: "path \<Rightarrow> (fs \<Rightarrow> fs \<Rightarrow> bool) \<Rightarrow> bool" where
  "outside_only root env \<longleftrightarrow> (\<forall>fs fs'. env fs fs' \<longrightarrow> inside root fs' = inside root fs)"

text \<open>
  An environment for examples: it can remove the file beside the build
  directory of \<open>fs_example\<close>.
\<close>

definition env_beside :: "fs \<Rightarrow> fs \<Rightarrow> bool" where
  "env_beside fs fs' \<longleftrightarrow> fs' = remove_tree [''handler.ts''] fs"

text \<open>The calls of a run on the build directory of \<open>fs_example\<close>.\<close>

definition events_example :: "event list" where
  "events_example =
     [Call Exists ''.build'', Call Readdir ''.build'',
      Call Lstat ''.build/a.js'', Call Unlink ''.build/a.js'',
      Call Lstat ''.build/lib'', Call Exists ''.build/lib'', Call Readdir ''.build/lib'',
      Call Lstat ''.build/lib/b.js'', Call Unlink ''.build/lib/b.js'',
      Call Rmdir ''.build/lib'', Call Rmdir ''.build'']"

section \<open>Lookups in the view\<close>

lemma ancestors_keys: "k \<in> fst ` set (ancestors root) \<Longrightarrow> length k < length root \<and> k \<noteq> []"
  by (auto simp: ancestors_def)

lemma ancestors_not_below: "prefix root q \<Longrightarrow> q \<notin> fst ` set (ancestors root)"
  by (auto dest!: ancestors_keys simp: prefix_def)

lemma map_of_ancestors: "prefix root q \<Longrightarrow> map_of (ancestors root) q = None"
  by (simp add: map_of_eq_None_iff ancestors_not_below)

lemma lookup_view:
  assumes "prefix root q"
  shows "lookup (view root fs) q = lookup fs q"
  using assms
  by (simp add: lookup_def view_def inside_def map_add_def map_of_ancestors
      map_of_filter_fst [where P = "prefix root"])

lemma children_view:
  assumes "prefix root q"
  shows "children (view root fs) q = children fs q"
proof -
  have "\<not> (fst e \<noteq> [] \<and> butlast (fst e) = q)" if "e \<in> set (ancestors root)" for e
  proof -
    from that have "length (fst e) < length root"
      using ancestors_keys [of "fst e" root] by force
    moreover from assms have "length root \<le> length q" by (rule prefix_length_le)
    ultimately show ?thesis by auto
  qed
  then have "filter (\<lambda>e. fst e \<noteq> [] \<and> butlast (fst e) = q) (ancestors root) = []"
    by (simp add: filter_empty_conv)
  moreover have "prefix root (fst e)" if "fst e \<noteq> []" "butlast (fst e) = q" for e :: "path \<times> kind"
    using that assms prefix_order.trans [OF _ prefixeq_butlast [of "fst e"]] by auto
  then have "filter (\<lambda>e. fst e \<noteq> [] \<and> butlast (fst e) = q) (inside root fs) =
      filter (\<lambda>e. fst e \<noteq> [] \<and> butlast (fst e) = q) fs"
    unfolding inside_def filter_filter by (intro filter_cong) auto
  ultimately show ?thesis by (simp add: children_def view_def)
qed

lemma view_remove_entry:
  assumes "prefix root q"
  shows "view root (remove_entry q fs) = remove_entry q (view root fs)"
proof -
  have "filter (\<lambda>e. fst e \<noteq> q) (ancestors root) = ancestors root"
    using ancestors_not_below [OF assms] by (auto simp: filter_id_conv)
  then show ?thesis
    by (simp add: view_def inside_def remove_entry_def conj_commute)
qed

lemma resolve_view:
  "prefix root (components p) \<Longrightarrow> resolve (view root fs) p = resolve fs p"
  by (simp add: resolve_def lookup_view)

section \<open>The view is a file system\<close>

lemma distinct_ancestors: "distinct (map fst (ancestors root))"
  by (auto simp: ancestors_def comp_def distinct_map inj_on_def
      dest: arg_cong [where f = length])

lemma lookup_ancestor:
  assumes "m < length root"
  shows "lookup (view root fs) (take m root) = Some Directory"
proof (cases "m = 0")
  case True
  then show ?thesis by (simp add: lookup_def)
next
  case False
  with assms have "(take m root, Directory) \<in> set (ancestors root)"
    by (auto simp: ancestors_def)
  then have "map_of (ancestors root) (take m root) = Some Directory"
    using distinct_ancestors by (intro map_of_is_SomeI)
  moreover from False assms have "take m root \<noteq> []" by auto
  ultimately show ?thesis by (simp add: lookup_def view_def)
qed

lemma lookup_above_root:
  assumes "root \<noteq> []"
  shows "lookup (view root fs) (butlast root) = Some Directory"
  using lookup_ancestor [of "length root - 1" root fs] assms
  by (simp add: butlast_conv_take)

lemma wf_view:
  assumes "wf_fs fs" and "root \<in> fst ` set fs"
  shows "wf_fs (view root fs)"
proof -
  from wf_fs_entry [OF assms] have root: "root \<noteq> []" "list_all valid_name root" by simp_all
  have keys: "distinct (map fst (view root fs))"
    using assms(1) distinct_ancestors [of root]
    by (auto simp: view_def inside_def wf_fs_def distinct_map_filter dest!: ancestors_keys
        simp: prefix_def)
  have "fst e \<noteq> [] \<and> list_all valid_name (fst e) \<and>
      lookup (view root fs) (butlast (fst e)) = Some Directory"
    if "e \<in> set (view root fs)" for e
  proof (cases "e \<in> set (ancestors root)")
    case True
    then obtain n where n: "fst e = take n root" "1 \<le> n" "n < length root"
      by (auto simp: ancestors_def)
    then have "butlast (fst e) = take (n - 1) root"
      by (simp add: butlast_take)
    with n root lookup_ancestor [of "n - 1" root fs] show ?thesis
      by (auto simp: list_all_iff dest: in_set_takeD)
  next
    case False
    with that have e: "e \<in> set fs" "prefix root (fst e)"
      by (auto simp: view_def inside_def)
    then have k: "fst e \<in> fst ` set fs" by simp
    note wf = wf_fs_entry [OF assms(1) k]
    show ?thesis
    proof (cases "fst e = root")
      case True
      with wf(1,2) lookup_above_root [OF root(1), of fs] show ?thesis by simp
    next
      case False
      with e(2) have "prefix root (butlast (fst e))"
        by (auto simp: prefix_def butlast_append)
      with wf show ?thesis by (simp add: lookup_view)
    qed
  qed
  with keys show ?thesis by (simp add: wf_fs_def list_all_iff)
qed

section \<open>The machine takes the same steps on the view\<close>

lemma prog_step_view:
  assumes "frame_ok root fr" and "prog_step fr st fs = (e, c)"
  shows "prog_step fr st (view root fs) = (e, view_config root c)"
  using assms
  by (cases "(fr, st, fs)" rule: prog_step.cases)
    (auto simp: fs_exists_def readdir_def lstat_def unlink_def rmdir_def
      resolve_view children_view view_remove_entry components_snoc Let_def
      split: option.splits kind.splits if_splits)

lemma prog_step_call: "prog_step fr st fs = (e, c) \<Longrightarrow> e \<noteq> Interference"
  by (cases "(fr, st, fs)" rule: prog_step.cases) (auto simp: Let_def)

lemma view_outside_only: "outside_only root env \<Longrightarrow> env fs fs' \<Longrightarrow> view root fs' = view root fs"
  by (simp add: outside_only_def view_def)

text \<open>
  A run among others that stay outside is, without their steps, a run of
  the machine alone on the view.
\<close>

lemma machine_run_view:
  assumes "tame env" and "outside_only root env"
  shows "machine_run env c es c' \<Longrightarrow> config_ok root c \<Longrightarrow>
         machine_run alone (view_config root c) (filter (\<lambda>e. e \<noteq> Interference) es)
           (view_config root c')"
proof (induction rule: machine_run.induct)
  case (run_nil c)
  show ?case by (simp add: machine_run.run_nil)
next
  case (run_cons c e d es c')
  from machine_step_ok [OF assms(1) run_cons.prems run_cons.hyps(1)]
  have rest: "machine_run alone (view_config root d) (filter (\<lambda>e. e \<noteq> Interference) es)
      (view_config root c')"
    by (intro run_cons.IH) simp
  from run_cons.hyps(1) show ?case
  proof (cases rule: machine_step.cases)
    case (program fr st fs)
    with run_cons.prems have "frame_ok root fr" by simp
    from prog_step_view [OF this program(2)] prog_step_call [OF program(2)] rest program(1)
    show ?thesis by (auto intro: machine_run_program)
  next
    case (interference fs fs' fr st)
    with view_outside_only [OF assms(2) interference(4)] rest show ?thesis by simp
  qed
qed

section \<open>The result of a run among others\<close>

lemma remove_tree_view: "remove_tree root (view root fs) = ancestors root"
proof -
  have "filter (\<lambda>e. \<not> prefix root (fst e)) (ancestors root) = ancestors root"
    using ancestors_not_below [of root] by (auto simp: filter_id_conv)
  then show ?thesis by (simp add: remove_tree_def view_def inside_def)
qed

lemma below_size_view: "below_size root (view root fs) = below_size root fs"
proof -
  have "filter (\<lambda>e. strict_prefix root (fst e)) (ancestors root) = []"
    using ancestors_not_below [of root] by (auto simp: filter_empty_conv strict_prefix_def)
  moreover have "filter (\<lambda>e. strict_prefix root (fst e)) (inside root fs) =
      filter (\<lambda>e. strict_prefix root (fst e)) fs"
    unfolding inside_def filter_filter by (intro filter_cong) (auto simp: strict_prefix_def)
  ultimately show ?thesis by (simp add: below_size_def view_def)
qed

lemma machine_run_undisturbed:
  assumes "tame env" and "outside_only (components path) env"
    and "wf_fs fs" and "resolve fs path = Some Directory" and "components path \<noteq> []"
    and "machine_run env (Running [Enter path] fs) es c" and "final_config c"
  shows "view_config (components path) c = Running [] (ancestors (components path))"
    and "calls es \<le> 4 * below_size (components path) fs + 3"
proof -
  let ?root = "components path"
  let ?es = "filter (\<lambda>e. e \<noteq> Interference) es"
  from assms(3) have ok: "config_ok ?root (Running [Enter path] fs)" by simp
  from machine_run_view [OF assms(1,2,6) ok]
  have run: "machine_run alone (Running [Enter path] (view ?root fs)) ?es (view_config ?root c)"
    by simp
  from assms(4,5) have "?root \<in> fst ` set fs"
    using lookup_keys [of ?root fs] by (simp add: resolve_components)
  then have wf: "wf_fs (view ?root fs)" by (rule wf_view [OF assms(3)])
  from assms(7) have "final_config (view_config ?root c)" by (cases c) simp_all
  from machine_final_spec [OF wf run this] assms(4,5)
  show "view_config ?root c = Running [] (ancestors ?root)"
    by (simp add: removeDirectory_spec_def resolve_view remove_tree_view)
  have "tame alone" "shrinking alone" by (simp_all add: tame_def shrinking_def alone_def)
  from machine_run_cost [OF this run, of ?root] wf
  have "calls ?es \<le> 4 * below_size ?root fs + 3" by (simp add: below_size_view)
  then show "calls es \<le> 4 * below_size ?root fs + 3" by (simp add: calls_def)
qed

lemma tame_env_beside: "tame env_beside"
  by (simp add: tame_def env_beside_def wf_remove_tree)

lemma outside_only_env_beside: "outside_only [''.build''] env_beside"
  unfolding outside_only_def env_beside_def inside_def remove_tree_def filter_filter
  by (auto intro!: filter_cong simp: prefix_def)

lemma run_example:
  "machine_run env_beside (Running [Enter ''.build''] fs_example)
     (Interference # events_example) (Running [] [])"
proof -
  have "exec 11 (Running [Enter ''.build''] (remove_tree [''handler.ts''] fs_example)) =
      (events_example, Running [] [])"
    by (simp add: fs_calls fs_example_def remove_tree_def events_example_def Let_def
        numeral_eq_Suc)
  from exec_run [OF this] show ?thesis
    by (rule run_cons [rotated]) (rule interference, simp add: env_beside_def)
qed

section \<open>Properties of a run among others\<close>

text \<open>
  C11. When the others that use the file system stay out of a directory,
  \<open>removeDirectory\<close> on it does what it does alone: every run that comes
  to an end ends without an error, nothing is left at or below the
  directory, the file system is well formed, and the run has made no more
  calls than a run alone can make.
\<close>

theorem removeDirectory_undisturbed:
  assumes "tame env" and "outside_only (components path) env"
    and "wf_fs fs" and "resolve fs path = Some Directory" and "components path \<noteq> []"
    and "machine_run env (Running [Enter path] fs) es c" and "final_config c"
  shows "\<exists>fs'. c = Running [] fs' \<and> wf_fs fs' \<and> inside (components path) fs' = [] \<and>
           calls es \<le> 4 * below_size (components path) fs + 3"
proof -
  from machine_run_ok [OF assms(1,6), of "components path"] assms(3)
  have "config_ok (components path) c" by simp
  with machine_run_undisturbed [OF assms] show ?thesis
    by (cases c) (simp_all add: view_def)
qed

theorem removeDirectory_undisturbed_witness:
  "tame env_beside \<and> outside_only [''.build''] env_beside \<and> wf_fs fs_example \<and>
   resolve fs_example ''.build'' = Some Directory \<and>
   machine_run env_beside (Running [Enter ''.build''] fs_example)
     (Interference # events_example) (Running [] []) \<and>
   calls (Interference # events_example) \<le> 4 * below_size [''.build''] fs_example + 3"
proof -
  have dir: "resolve fs_example ''.build'' = Some Directory" "components ''.build'' = [''.build'']"
    by (simp_all add: fs_eval)
  from removeDirectory_undisturbed [of env_beside "''.build''" fs_example
      "Interference # events_example" "Running [] []"]
    tame_env_beside outside_only_env_beside run_example dir
  show ?thesis by simp
qed

end
