(* ===== verification/Spec2Isabelle.thy ===== *)
theory Spec2Isabelle
  imports Layer_Refine Layer_Tests Env Remove_Interference
begin

text \<open>
  \<^bold>\<open>The program.\<close> The sources under \<^verbatim>\<open>src/\<close> are the core of a plugin that
  prepares the configuration of a serverless application for deployment.
  It has three parts. \<^verbatim>\<open>src/src/layer.ts\<close> classifies the declared functions
  by runtime (\<^verbatim>\<open>findHandlers\<close>) and adds the vendor layer of the runtime and
  region to the layer list of each function (\<^verbatim>\<open>applyLayers\<close>, with
  \<^verbatim>\<open>getLayers\<close> and \<^verbatim>\<open>setLayers\<close>). \<^verbatim>\<open>src/src/env.ts\<close> reads the settings of the
  plugin from the service (\<^verbatim>\<open>getConfig\<close>) and writes them as environment
  variables of the provider where the user has set none
  (\<^verbatim>\<open>setEnvConfiguration\<close>). \<^verbatim>\<open>src/src/util.ts\<close> splits a handler reference
  into module path and method (\<^verbatim>\<open>getHandlerPath\<close>) and removes a directory
  tree (\<^verbatim>\<open>removeDirectory\<close>). \<^verbatim>\<open>src/unnamed/part_000\<close> is the test suite of
  \<^verbatim>\<open>layer.ts\<close>. The classification calls \<^verbatim>\<open>getHandlerPath\<close>; the layer pass
  consumes the records of the classification and changes the function
  definitions in place.

  \<^bold>\<open>The theories.\<close>

  \<^item> \<open>Prelude\<close>: the collections \<open>js_simps\<close>, \<open>store_simps\<close> and \<open>frame_simps\<close>,
    addresses, dictionaries (\<open>'v dict\<close>, the own keys of an object), the
    exception \<open>TypeError\<close> with the result type, \<open>mapM_result\<close> for
    \<^verbatim>\<open>Array.map\<close> with a callback that may throw, \<open>filter_defined\<close> for
    \<^verbatim>\<open>filter(x => x !== undefined)\<close>, and the list lemmas the components
    share.

  \<^item> \<open>JS_Lib\<close>: \<open>js_split\<close> and \<open>js_join\<close> for \<^verbatim>\<open>String.split\<close> and
    \<^verbatim>\<open>Array.join\<close> with a separator of one character, and their round
    trips.

  \<^item> \<open>Types\<close>: the interfaces and enums of the sources as records and
    datatypes: \<open>RuntimeType\<close>, \<open>HandlerInfo\<close>, \<open>LayerJSON\<close> (\<^verbatim>\<open>layer.ts\<close>),
    \<open>HandlerPath\<close> (the object that \<^verbatim>\<open>getHandlerPath\<close> returns),
    \<open>Configuration\<close> and its partial form (\<^verbatim>\<open>env.ts\<close>), and the parts of the
    host's \<open>Service\<close> and \<open>FunctionDefinition\<close> that the sources read or
    write. A field that may be absent has an option type.

  \<^item> \<open>Store\<close>: the store of the mutable objects. A handler record holds a
    reference to a function definition and a function definition a reference
    to its layer array, so records \<open>heap\<close> with function definitions
    (\<open>objs\<close>) and arrays (\<open>arrs\<close>) at addresses, with the allocation limits
    \<open>obj_lim\<close> and \<open>arr_lim\<close>. The operations are allocation, \<open>array_push\<close>
    and \<open>set_layers\<close>; the predicates are \<open>wf_heap\<close> (no dangling layer
    reference), \<open>separated\<close> (no array shared by two definitions),
    \<open>no_dups\<close> (no element twice in an array) and the order \<open>heap_le\<close>
    (arrays only grow at the end). Each operation comes with its
    read-over-write equations and the predicates it preserves.

  \<^item> \<open>Fixtures\<close>: the objects that the tests of \<^verbatim>\<open>part_000\<close> build, among
    them \<open>createMockService\<close> and the mock of \<^verbatim>\<open>fs.existsSync\<close>.

  \<^item> \<open>Util\<close>: \<open>getHandlerPath\<close> with the round trip between a handler
    reference and its two parts.

  \<^item> \<open>Find_Handlers\<close>: \<open>runtimeLookup\<close>, \<open>hasWebpackPlugin\<close> and
    \<open>findHandlers\<close>, whose mapped function is \<open>findHandlers_map\<close> with the
    dialect inference \<open>inferNodeType\<close>. The file system enters as a predicate
    \<open>existsSync\<close> on path strings, the function table as the list of its
    entries in the order of \<^verbatim>\<open>Object.entries\<close>. The theory states the
    classification of one function by precedence (\<open>classify_spec\<close>), lifts
    it to the table (\<open>findHandlers_spec\<close>) and proves that the code
    computes it; the remaining theorems give when the function raises, what
    it returns for an unknown runtime, the order of the records, and the
    precedence of a TypeScript source. \<open>well_typed\<close> is the invariant of
    the records: the runtime name is the one that counts for the function,
    and the category is one that this name allows.

  \<^item> \<open>Apply_Layers\<close>: \<open>getLayers\<close>, \<open>setLayers\<close>, the loop body
    \<open>applyLayers_body\<close> and \<open>applyLayers\<close> as the fold of the body over the
    records. The case rule \<open>applyLayers_body_induct\<close> and the invariant rule
    \<open>applyLayers_invariant\<close> carry the proofs: a pass preserves \<open>no_dups\<close>
    and \<open>wf_heap\<close>, only appends, adds the layer it is asked for, and is
    idempotent. Three theorems state what the in-place update means beyond
    the contract: a definition that shares its array with the definition of
    a record receives the layer of that record; an element that an array
    holds keeps its number of occurrences, so duplicates from before stay;
    a pass allocates exactly one array for each definition without a list
    that a record with a layer names (\<open>needs_array\<close>), and lengthens an
    array by no more than the layers asked for in the region
    (\<open>asked_layers\<close>, over the table \<open>region_table\<close>) that it does not
    hold.

  \<^item> \<open>Layer_Refine\<close>: the contract of the pass on the layer lists alone
    (\<open>applyLayers_spec\<close> over \<open>merge_layer\<close>), the abstraction \<open>abs_heap\<close>
    from stores to layer lists, and the refinement theorem
    \<open>abs_heap (applyLayers \<dots> h) = applyLayers_spec \<dots> (abs_heap h)\<close> for
    separated stores.

  \<^item> \<open>Layer_Tests\<close>: the tests of \<^verbatim>\<open>part_000\<close>. The matchers
    \<^verbatim>\<open>toMatchObject\<close> and \<^verbatim>\<open>toEqual\<close> of the test framework are predicates on
    results and expected object literals (\<open>ExpectedInfo\<close>,
    \<open>PartialDefinition\<close>, with \<open>None\<close> for a property that the literal
    does not have). Every \<^verbatim>\<open>it(...)\<close> block is a truth value \<open>it_\<dots>\<close>: its
    fixtures, its call of \<open>findHandlers\<close> or \<open>applyLayers\<close>, and its
    expectation; the lemmas show that each of the fourteen is true. The
    theory is a regression check of the model against the tests and states
    no property of its own.

  \<^item> \<open>Env\<close>: \<open>getConfig\<close> as the object spread of the plugin section over
    \<open>defaultConfiguration\<close>, and \<open>setEnvConfiguration\<close> by state passing on
    the service: the user's variables are kept and the gaps are filled. The
    two functions in sequence are specified by three maps from variable
    names to values, the variables of the user (\<open>user_env\<close>), the settings
    of the plugin section (\<open>section_env\<close>) and the defaults
    (\<open>default_env\<close>): the environment after the two calls is the override
    of the three in this order of precedence.

  \<^item> \<open>File_System\<close>: the file system that \<^verbatim>\<open>removeDirectory\<close> works on, as
    the list of the entries below the working directory with their kinds,
    and the calls \<^verbatim>\<open>exists\<close>, \<^verbatim>\<open>readdir\<close>, \<^verbatim>\<open>lstat\<close>, \<^verbatim>\<open>unlink\<close> and \<^verbatim>\<open>rmdir\<close> of
    the \<^verbatim>\<open>fs\<close> module on path strings, each with its error codes. Path strings
    are split at slashes by \<open>js_split\<close>. \<open>wf_fs\<close> says that the entries
    form a tree; \<open>remove_tree\<close> and \<open>remove_below\<close> are the file systems
    without a subtree.

  \<^item> \<open>Remove_Directory\<close>: \<open>removeDirectory\<close> with its loop
    \<open>removeDirectory_loop\<close>, as the sequence of the awaited calls. A run
    returns the error of a rejected promise, if any, and the file system it
    leaves. The specification \<open>removeDirectory_spec\<close> gives the result case
    by case; the theorems show that a run with enough fuel returns it, that
    the fuel does not show in the result, that exactly the subtree goes,
    and that the file system stays well formed.

  \<^item> \<open>Remove_Machine\<close>: \<^verbatim>\<open>removeDirectory\<close> call by call. The function gives
    up control at every \<^verbatim>\<open>await\<close>, so the theory has a program point for
    every awaited call (\<open>frame\<close>: before \<^verbatim>\<open>exists\<close>, before \<^verbatim>\<open>readdir\<close>,
    in the loop before \<^verbatim>\<open>lstat\<close> or \<^verbatim>\<open>rmdir\<close>, before \<^verbatim>\<open>unlink\<close>), a stack of
    frames for the activations that wait for a recursive call, and
    configurations \<open>Running stack fs\<close> and \<open>Rejected error fs\<close>. \<open>prog_step\<close>
    is the call of the topmost activation with the event it shows
    (\<open>Call\<close> of one of the five functions \<open>fs_call\<close> on a path). The step
    relation \<open>machine_step env\<close> adds the steps of an environment \<open>env\<close> that
    changes the file system while the function waits; \<open>machine_run\<close> is
    its closure with the list of events, \<open>exec\<close> the run of the machine
    alone for a number of steps. The lemmas give: the invariant
    \<open>config_ok\<close> of every step under an environment that keeps the file
    system well formed (\<open>tame\<close>), with the events of removal confined
    below the directory of the run; determinism of the machine alone; a run
    of the machine for every call of \<open>removeDirectory n\<close> that returns, and
    with it termination and the agreement of the two models; and that a run
    alone never changes anything outside the directory. With the
    environment \<open>removing q\<close>, which may remove the entry \<open>q\<close> at any
    moment, every directory that holds a regular file has a run that
    fails: the entry goes between \<^verbatim>\<open>lstat\<close> and \<^verbatim>\<open>unlink\<close>, and the promise
    is rejected with \<open>ENOENT\<close> while the directory stays.

  \<^item> \<open>Remove_Bounds\<close>: the number of calls of a run. \<open>cost\<close> gives a
    configuration four units for every entry that an activation still has
    to visit (\<open>below_size\<close>, \<open>names_cost\<close>) and one to three for the
    program point; every call lowers the cost, and an environment that
    only removes entries (\<open>shrinking\<close>) does not raise it. So a run makes
    at most \<open>4 * n + 3\<close> calls on a directory with \<open>n\<close> entries below it,
    also while others remove entries, and the bound is reached.

  \<^item> \<open>Remove_Interference\<close>: a run among others that stay out of the
    directory. \<open>view root fs\<close> is the part of the file system that a run
    on \<open>root\<close> sees: the entries at and below \<open>root\<close> (\<open>inside\<close>) under the
    directories above it (\<open>ancestors\<close>). The view of a well-formed file
    system is well formed, the calls answer on it as on the whole, and an
    environment that is \<open>outside_only\<close> does not change it. So a run with
    such an environment is, without the steps of the environment, a run of
    the machine alone on the view, and ends as that run ends.

  \<^item> This theory: the composition of classification and layer pass that
    the overview of the specification describes (\<open>classify_and_merge\<close>),
    and the properties that span the components: the layer pass on the
    records of the classification, with the layer list of every function
    after the two steps given in closed form (\<open>layers_spec\<close>), the
    classification on the file system before and after a directory is
    removed, and the mock of the tests as a file system (\<open>mock_fs\<close>).

  \<^bold>\<open>Conventions of the model.\<close> An exception is the value \<open>Inl TypeError\<close>.
  The only one in the modelled code is the property access on an undefined
  handler in \<^verbatim>\<open>getHandlerPath\<close>, which \<^verbatim>\<open>findHandlers\<close> passes on. JavaScript
  strings are lists of characters. An object read with a computed key is a
  dictionary of its own keys: keys that the prototype chain would answer
  (\<^verbatim>\<open>"constructor"\<close>, \<^verbatim>\<open>"toString"\<close>) are outside the model, both for the
  tests with \<^verbatim>\<open>in\<close> and for the lookups. A field that holds \<^verbatim>\<open>undefined\<close> is
  an absent field. The definitions compute. The loops of \<^verbatim>\<open>layer.ts\<close> and
  \<^verbatim>\<open>env.ts\<close> are folds or maps over finite lists and need no fuel.

  \<^bold>\<open>Fuel.\<close> \<^verbatim>\<open>removeDirectory\<close> calls itself on what it finds in the file
  system, so its model \<open>removeDirectory n\<close> takes fuel \<open>n\<close>, one unit for
  every level of the recursion, and returns \<open>None\<close> when the fuel runs out.
  \<open>enough_fuel fs\<close> is one more than the length of the longest path of
  \<open>fs\<close>. It is enough because a call on a directory at depth \<open>d\<close> calls
  itself only on entries at depth \<open>d + 1\<close>, and the calls remove entries
  and add none. The theory \<open>Remove_Directory\<close> proves that a run with this
  fuel finishes with the specified result and that more fuel gives the
  same result. The machine of \<open>Remove_Machine\<close> needs no fuel: its runs
  are a relation, and that a run to the end exists is a theorem. It exists
  because every call of the function with fuel that returns is a run of the
  machine, and the call with \<open>enough_fuel\<close> returns. With an environment
  that removes entries, the end comes from the cost of \<open>Remove_Bounds\<close>.

  \<^bold>\<open>Limits of the file system model.\<close> In \<open>Remove_Directory\<close> no other
  task changes the file system between two awaited calls; in
  \<open>Remove_Machine\<close> the environment may change it between any two calls,
  and the theorems say which environment they allow: any that keeps the
  file system well formed for the confinement of the removals, one that
  also adds nothing for the bound on the calls, one that stays out of the
  directory for the result of the run, none for the agreement with the
  function. An awaited call
  itself is atomic. Permissions, open files and mount points, which make
  \<^verbatim>\<open>unlink\<close> and \<^verbatim>\<open>rmdir\<close> fail on a real system, are not in the model. A
  symbolic link is an entry that is not a directory. Paths are read from
  the working directory, and \<^verbatim>\<open>..\<close> names nothing.

  \<^bold>\<open>Not modelled.\<close> The host tool with its lifecycle hooks and the plugin
  class that calls the functions are not among the sources, and the
  specification leaves them out of its scope; of the caller only the order
  \<open>findHandlers\<close>, then \<open>applyLayers\<close> is in the model. The table of layer
  identifiers is data outside the sources; it is the parameter of type
  \<open>LayerJSON\<close>. Every function and every test under \<^verbatim>\<open>src/\<close> has its
  definition here; what the sources hold beyond them are the licence
  comments and the imports. The probes of \<^verbatim>\<open>findHandlers\<close> take the file
  system as a predicate on path strings; \<open>fs_exists\<close> of \<open>File_System\<close> is
  such a predicate, and \<open>mock\<close> of the fixtures is \<open>fs_exists\<close> on a file
  system with the files of the test.
\<close>

section \<open>Classification followed by the layer pass\<close>

text \<open>Every entry of the function table refers to a live function definition.\<close>

definition functions_live :: "heap \<Rightarrow> Service \<Rightarrow> bool" where
  "functions_live h service \<longleftrightarrow> list_all (\<lambda>e. snd e < obj_lim h) (functions service)"

text \<open>
  The control flow of the overview: the classification runs over all
  functions, and the layer pass takes its records and the region of the
  provider. An exception of the classification leaves no store.
\<close>

definition classify_and_merge ::
  "(string \<Rightarrow> bool) \<Rightarrow> LayerJSON \<Rightarrow> string option \<Rightarrow> RuntimeType option \<Rightarrow> Service \<Rightarrow> heap \<Rightarrow>
   heap result" where
  "classify_and_merge existsSync lj defaultRuntime defaultNodeRuntime service h =
     (case findHandlers existsSync h service defaultRuntime defaultNodeRuntime of
        Inl e \<Rightarrow> Inl e
      | Inr handlers \<Rightarrow> Inr (applyLayers (region (provider service)) handlers lj h))"

text \<open>A layer table for the runtime of the function of \<open>funcs_mylambda\<close>.\<close>

definition layers_node8 :: LayerJSON where
  "layers_node8 = \<lparr>regions = [''us-east-1'' \<mapsto> [''nodejs8.10'' \<mapsto> ''node:8'']]\<rparr>"

text \<open>
  What the composition promises for the layer list of one function: the
  layer of the effective runtime in the region of the provider is merged
  into the list when the function is of a supported category and the region
  has a layer for the runtime; else the list stays.
\<close>

definition layers_spec ::
  "(string \<Rightarrow> bool) \<Rightarrow> LayerJSON \<Rightarrow> string option \<Rightarrow> RuntimeType option \<Rightarrow> Service \<Rightarrow> heap \<Rightarrow>
   addr \<Rightarrow> string list option" where
  "layers_spec existsSync lj defaultRuntime defaultNodeRuntime service h a =
     (case classify_spec existsSync h service defaultRuntime defaultNodeRuntime a of
        Category t \<Rightarrow>
          if t = UNSUPPORTED then layers_of h a
          else (case Option.bind (effective_runtime h defaultRuntime a)
                       (region_table lj (region (provider service))) of
                  None \<Rightarrow> layers_of h a
                | Some arn \<Rightarrow> merge_layer arn (layers_of h a))
      | _ \<Rightarrow> layers_of h a)"

section \<open>The classification and the file system\<close>

text \<open>
  The paths that \<open>findHandlers\<close> can ask the file system for: the three
  source files beside the module of every function with a well-formed
  handler reference.
\<close>

definition probes :: "heap \<Rightarrow> Service \<Rightarrow> string list" where
  "probes h service =
     concat (map (\<lambda>e.
       case FunctionDefinition.handler (objs h (snd e)) of
         None \<Rightarrow> []
       | Some s \<Rightarrow>
           (case handlerPath_of s of
              None \<Rightarrow> []
            | Some handlerPath \<Rightarrow>
                [''./'' @ filename handlerPath @ ''.es.js'',
                 ''./'' @ filename handlerPath @ ''.mjs'',
                 ''./'' @ filename handlerPath @ ''.ts''])) (functions service))"

text \<open>
  A store and a service with one function whose module is the TypeScript
  file of \<open>fs_example\<close>.
\<close>

definition funcs_handler :: "(string \<times> FunctionDefinition) list" where
  "funcs_handler = [(''func-a'', fn ''handler.main'' (Some ''nodejs12.x''))]"

text \<open>
  The file system that \<^verbatim>\<open>mock\<close> installs in the tests, as a file system of
  \<open>File_System\<close>: the given files, beside each other in the working
  directory.
\<close>

definition mock_fs :: "string list \<Rightarrow> fs" where
  "mock_fs files = map (\<lambda>f. (components f, RegularFile)) files"

section \<open>The interface between the two components\<close>

lemma findHandlers_valid_handlers:
  assumes "functions_live h service"
    and "findHandlers existsSync h service dr dn = Inr hs"
  shows "valid_handlers h hs"
  using assms(1) findHandlers_map_fields(2)
  unfolding valid_handlers_def findHandlers_Inr_set [OF assms(2)] functions_live_def list_all_iff
  by fastforce

lemma findHandlers_record:
  assumes "findHandlers existsSync h service dr dn = Inr hs"
    and "(nm, a) \<in> set (functions service)"
    and "classify_spec existsSync h service dr dn a = Category t"
  shows "\<lparr>name = nm, type = t, handler = a, runtime = effective_runtime h dr a\<rparr> \<in> set hs"
proof -
  from assms(3) have "findHandlers_map existsSync h service dr dn (nm, a) =
      Inr (Some \<lparr>name = nm, type = t, handler = a, runtime = effective_runtime h dr a\<rparr>)"
    by (simp add: findHandlers_map_spec outcome_result_def)
  with assms(2) show ?thesis
    unfolding findHandlers_Inr_set [OF assms(1)] by force
qed

lemma classify_and_merge_Inr:
  assumes "classify_and_merge existsSync lj dr dn service h = Inr h'"
  obtains hs where "findHandlers existsSync h service dr dn = Inr hs"
    and "h' = applyLayers (region (provider service)) hs lj h"
  using assms by (auto simp: classify_and_merge_def split: sum.splits)

lemma mylambda_run:
  "classify_and_merge (mock []) layers_node8 None None
     (service_of funcs_mylambda None) (heap_of funcs_mylambda) =
   Inr (applyLayers ''us-east-1''
     [\<lparr>name = ''func-a'', type = NODE, handler = 0, runtime = Some ''nodejs8.10''\<rparr>]
     layers_node8 (heap_of funcs_mylambda))"
  by (simp add: classify_and_merge_def findHandlers_eval fixture_defs)

lemma mylambda_layers:
  "layers_of (applyLayers ''us-east-1''
     [\<lparr>name = ''func-a'', type = NODE, handler = 0, runtime = Some ''nodejs8.10''\<rparr>]
     layers_node8 (heap_of funcs_mylambda)) 0 = Some [''node:8'']"
  by (simp add: applyLayers_def applyLayers_body_def getLayers_def setLayers_def
      layers_node8_def layers_of_def array_push_def set_layers_def fixture_defs)

text \<open>
  The layers that the records of the classification ask for on behalf of
  one function of the table: the layer of its one record, if it has one.
\<close>

lemma arns_for_Cons:
  "arns_for rr (hi # hs) a =
     (if handler hi = a then (case layer_arn rr hi of None \<Rightarrow> [] | Some arn \<Rightarrow> [arn]) else [])
     @ arns_for rr hs a"
  by (simp add: arns_for_def)

lemma arns_for_Nil: "arns_for rr [] a = []"
  by (simp add: arns_for_def)

lemma arns_for_absent:
  assumes "\<And>e hi. F e = Some hi \<Longrightarrow> handler hi = snd e"
  shows "a \<notin> snd ` set es \<Longrightarrow> arns_for rr (filter_defined (map F es)) a = []"
proof (induction es)
  case Nil
  show ?case by (simp add: arns_for_Nil)
next
  case (Cons x es)
  then have "arns_for rr (filter_defined (map F es)) a = []" "snd x \<noteq> a" by auto
  then show ?case using assms [of x]
    by (cases "F x") (simp_all add: arns_for_Cons)
qed

lemma arns_for_filter_defined:
  assumes "\<And>e hi. F e = Some hi \<Longrightarrow> handler hi = snd e"
  shows "distinct (map snd es) \<Longrightarrow> e \<in> set es \<Longrightarrow>
    arns_for rr (filter_defined (map F es)) (snd e) =
      (case F e of
         None \<Rightarrow> []
       | Some hi \<Rightarrow> (case layer_arn rr hi of None \<Rightarrow> [] | Some arn \<Rightarrow> [arn]))"
proof (induction es)
  case Nil
  then show ?case by simp
next
  case (Cons x es)
  show ?case
  proof (cases "x = e")
    case True
    from Cons.prems(1) True have "snd e \<notin> snd ` set es" by simp
    with assms have "arns_for rr (filter_defined (map F es)) (snd e) = []"
      by (rule arns_for_absent)
    with True assms [of e] show ?thesis
      by (cases "F e") (simp_all add: arns_for_Cons)
  next
    case False
    with Cons.prems have mem: "e \<in> set es" and ne: "snd x \<noteq> snd e" and d: "distinct (map snd es)"
      by force+
    from Cons.IH [OF d mem] ne assms [of x] show ?thesis
      by (cases "F x") (simp_all add: arns_for_Cons)
  qed
qed

lemma arns_for_findHandlers:
  assumes "findHandlers existsSync h service dr dn = Inr hs"
    and "distinct (map snd (functions service))" and "(nm, a) \<in> set (functions service)"
  shows "arns_for rr hs a =
     (case classify_spec existsSync h service dr dn a of
        Category t \<Rightarrow>
          (case layer_arn rr \<lparr>name = nm, type = t, handler = a,
                  runtime = effective_runtime h dr a\<rparr> of
             None \<Rightarrow> [] | Some arn \<Rightarrow> [arn])
      | _ \<Rightarrow> [])"
proof -
  let ?F = "\<lambda>e. case classify_spec existsSync h service dr dn (snd e) of
      Category t \<Rightarrow> Some \<lparr>name = fst e, type = t, handler = snd e,
        runtime = effective_runtime h dr (snd e)\<rparr>
    | _ \<Rightarrow> None"
  from assms(1) have "hs = filter_defined (map ?F (functions service))"
    by (simp add: findHandlers_by_outcome split: if_splits)
  moreover have "handler hi = snd e" if "?F e = Some hi" for e hi
    using that by (auto split: outcome.splits)
  ultimately show ?thesis
    using arns_for_filter_defined [of ?F "functions service" "(nm, a)" rr, OF _ assms(2,3)]
    by (simp split: outcome.splits)
qed

section \<open>Properties of the composition\<close>

text \<open>
  C6. End to end: when the classification does not raise, every function
  of the table that it puts into a supported category, and whose runtime
  has a layer in the region of the provider, has that layer in its layer
  list after the layer pass.
\<close>

theorem classify_and_merge_adds_layer:
  assumes "wf_heap h" and "functions_live h service"
    and "classify_and_merge existsSync lj dr dn service h = Inr h'"
    and "(nm, a) \<in> set (functions service)"
    and "classify_spec existsSync h service dr dn a = Category t" and "t \<noteq> UNSUPPORTED"
    and "effective_runtime h dr a = Some r"
    and "regions lj (region (provider service)) = Some rr" and "rr r = Some arn"
  shows "\<exists>xs. layers_of h' a = Some xs \<and> arn \<in> set xs"
proof -
  let ?hi = "\<lparr>name = nm, type = t, handler = a, runtime = effective_runtime h dr a\<rparr>"
  from assms(3) obtain hs where hs: "findHandlers existsSync h service dr dn = Inr hs"
    and h': "h' = applyLayers (region (provider service)) hs lj h"
    by (rule classify_and_merge_Inr)
  have mem: "?hi \<in> set hs"
    by (rule findHandlers_record [OF hs assms(4,5)])
  have "valid_handlers h hs"
    by (rule findHandlers_valid_handlers [OF assms(2) hs])
  with assms(1) have "settled rr (fold (applyLayers_body rr) hs h) ?hi"
    using mem by (rule settled_after_fold)
  with assms(6-9) show ?thesis
    by (auto simp: h' settled_def layer_arn_def applyLayers_def layers_of_def
        split: option.splits)
qed

theorem classify_and_merge_adds_layer_witness:
  "wf_heap (heap_of funcs_mylambda) \<and>
   functions_live (heap_of funcs_mylambda) (service_of funcs_mylambda None) \<and>
   (\<exists>h'. classify_and_merge (mock []) layers_node8 None None
           (service_of funcs_mylambda None) (heap_of funcs_mylambda) = Inr h' \<and>
         layers_of h' 0 = Some [''node:8''])"
proof -
  have wf: "wf_heap (heap_of funcs_mylambda)"
    by (simp add: wf_heap_def fixture_defs)
  have live: "functions_live (heap_of funcs_mylambda) (service_of funcs_mylambda None)"
    by (simp add: functions_live_def fixture_defs)
  have mem: "(''func-a'', 0) \<in> set (functions (service_of funcs_mylambda None))"
    by (simp add: fixture_defs)
  have cls: "classify_spec (mock []) (heap_of funcs_mylambda) (service_of funcs_mylambda None)
      None None 0 = Category NODE"
    by (simp add: classify_spec_def dialect_spec_def effective_runtime_def runtimeLookup_def
        fixture_defs)
  have rt: "effective_runtime (heap_of funcs_mylambda) None 0 = Some ''nodejs8.10''"
    by (simp add: effective_runtime_def fixture_defs)
  have tab: "regions layers_node8 (region (provider (service_of funcs_mylambda None))) =
      Some [''nodejs8.10'' \<mapsto> ''node:8'']"
    by (simp add: layers_node8_def fixture_defs)
  from classify_and_merge_adds_layer [OF wf live mylambda_run mem cls _ rt tab]
  have "\<exists>xs. layers_of (applyLayers ''us-east-1''
       [\<lparr>name = ''func-a'', type = NODE, handler = 0, runtime = Some ''nodejs8.10''\<rparr>]
       layers_node8 (heap_of funcs_mylambda)) 0 = Some xs \<and> ''node:8'' \<in> set xs"
    by simp
  with wf live show ?thesis
    by (simp add: mylambda_run mylambda_layers)
qed

text \<open>
  C30. End to end and exactly: over a store without shared arrays and a
  function table whose entries have a definition each, the layer list of
  every function after classification and layer pass is the one that the
  specification \<open>layers_spec\<close> gives: the list before with the layer of the
  effective runtime in the region appended unless it is there, for a
  function of a supported category whose runtime has a layer in the region,
  and the list before for every other function.
\<close>

theorem classify_and_merge_exact:
  assumes "wf_heap h" and "separated h" and "functions_live h service"
    and "distinct (map snd (functions service))"
    and "classify_and_merge existsSync lj dr dn service h = Inr h'"
    and "(nm, a) \<in> set (functions service)"
  shows "layers_of h' a = layers_spec existsSync lj dr dn service h a"
proof -
  let ?rr = "region_table lj (region (provider service))"
  from assms(5) obtain hs where hs: "findHandlers existsSync h service dr dn = Inr hs"
    and h': "h' = applyLayers (region (provider service)) hs lj h"
    by (rule classify_and_merge_Inr)
  from assms(3,6) have live: "a < obj_lim h"
    by (auto simp: functions_live_def list_all_iff)
  have valid: "valid_handlers h hs"
    by (rule findHandlers_valid_handlers [OF assms(3) hs])
  have "obj_lim h' = obj_lim h" unfolding h'
    by (rule applyLayers_invariant [where P = "\<lambda>h'. obj_lim h' = obj_lim h"])
      (simp_all add: frame_simps)
  with live have "layers_of h' a = abs_heap h' a" by (simp add: abs_heap_def)
  also have "\<dots> = fold merge_layer (arns_for ?rr hs a) (abs_heap h a)"
    unfolding h' applyLayers_region_table
    by (simp add: fold_refines [OF assms(1,2) valid] fold_spec_body_pointwise)
  also have "\<dots> = layers_spec existsSync lj dr dn service h a"
    using live arns_for_findHandlers [OF hs assms(4,6), of ?rr]
    by (auto simp: layers_spec_def abs_heap_def layer_arn_def split: outcome.splits option.splits)
  finally show ?thesis .
qed

theorem classify_and_merge_exact_witness:
  "wf_heap (heap_of funcs_mylambda) \<and> separated (heap_of funcs_mylambda) \<and>
   functions_live (heap_of funcs_mylambda) (service_of funcs_mylambda None) \<and>
   distinct (map snd (functions (service_of funcs_mylambda None))) \<and>
   (''func-a'', 0) \<in> set (functions (service_of funcs_mylambda None)) \<and>
   layers_of (applyLayers ''us-east-1''
       [\<lparr>name = ''func-a'', type = NODE, handler = 0, runtime = Some ''nodejs8.10''\<rparr>]
       layers_node8 (heap_of funcs_mylambda)) 0 =
     layers_spec (mock []) layers_node8 None None (service_of funcs_mylambda None)
       (heap_of funcs_mylambda) 0"
proof -
  have pre: "wf_heap (heap_of funcs_mylambda)" "separated (heap_of funcs_mylambda)"
    "functions_live (heap_of funcs_mylambda) (service_of funcs_mylambda None)"
    "distinct (map snd (functions (service_of funcs_mylambda None)))"
    and mem: "(''func-a'', 0) \<in> set (functions (service_of funcs_mylambda None))"
    by (simp_all add: wf_heap_def separated_def functions_live_def fixture_defs)
  from classify_and_merge_exact [OF pre mylambda_run mem] pre mem show ?thesis
    by (intro conjI)
qed

section \<open>The classification and the file system\<close>

text \<open>The classification sees the file system only at the probed paths.\<close>

lemma findHandlers_map_cong_probes:
  assumes "\<And>p. p \<in> set (probes h service) \<Longrightarrow> es p = es' p"
    and "e \<in> set (functions service)"
  shows "findHandlers_map es h service dr dn e = findHandlers_map es' h service dr dn e"
proof -
  have "inferNodeType es service hp t = inferNodeType es' service hp t"
    if "FunctionDefinition.handler (objs h (snd e)) = Some s" "handlerPath_of s = Some hp"
    for s hp t
  proof -
    from that assms(2) have "''./'' @ filename hp @ ext \<in> set (probes h service)"
      if "ext \<in> {''.es.js'', ''.mjs'', ''.ts''}" for ext
      using that by (force simp: probes_def)
    then have "es (''./'' @ filename hp @ ext) = es' (''./'' @ filename hp @ ext)"
      if "ext \<in> {''.es.js'', ''.mjs'', ''.ts''}" for ext
      using that assms(1) by blast
    from this [of "''.es.js''"] this [of "''.mjs''"] this [of "''.ts''"]
    show ?thesis by (simp add: inferNodeType_def)
  qed
  then show ?thesis
    by (auto simp: findHandlers_map_def getHandlerPath_def Let_def
        split: option.splits sum.splits)
qed

lemma findHandlers_cong_probes:
  assumes "\<And>p. p \<in> set (probes h service) \<Longrightarrow> es p = es' p"
  shows "findHandlers es h service dr dn = findHandlers es' h service dr dn"
proof -
  have "mapM_result (findHandlers_map es h service dr dn) (functions service) =
        mapM_result (findHandlers_map es' h service dr dn) (functions service)"
    by (rule mapM_result_cong) (rule findHandlers_map_cong_probes [OF assms])
  then show ?thesis by (simp add: findHandlers_def)
qed

lemma handler_run:
  "findHandlers (fs_exists fs_example) (heap_of funcs_handler)
     (service_of funcs_handler None) None None =
   Inr [\<lparr>name = ''func-a'', type = NODE_TS, handler = 0, runtime = Some ''nodejs12.x''\<rparr>]"
  by (simp add: findHandlers_eval fixture_defs funcs_handler_def fs_exists_def fs_eval)

text \<open>
  The predicate \<open>mock\<close> of the fixtures is \<^verbatim>\<open>exists\<close> on the file system
  \<open>mock_fs\<close>, for the files of the working directory.
\<close>

lemma mock_fs_exists:
  assumes "list_all valid_name files" and "valid_name f"
  shows "fs_exists (mock_fs files) (''./'' @ f) \<longleftrightarrow> mock files (''./'' @ f)"
proof -
  have "components (''./'' @ f) = [f]"
    using components_snoc [OF assms(2), of "''.''"] by (simp add: components_def)
  moreover have "mock_fs files = map (\<lambda>f. ([f], RegularFile)) files"
    using assms(1) by (simp add: mock_fs_def list_all_iff components_simple)
  ultimately have "fs_exists (mock_fs files) (''./'' @ f) \<longleftrightarrow> f \<in> set files"
    using lookup_keys [of "[f]" "mock_fs files"]
    by (force simp: fs_exists_def resolve_def simp del: not_None_eq)
  then show ?thesis by (auto simp: mock_def)
qed

lemma mock_fs_wf:
  assumes "list_all valid_name files" and "distinct files"
  shows "wf_fs (mock_fs files)"
proof -
  have "mock_fs files = map (\<lambda>f. ([f], RegularFile)) files"
    using assms(1) by (simp add: mock_fs_def list_all_iff components_simple)
  with assms show ?thesis
    by (simp add: wf_fs_def lookup_def list_all_iff distinct_map inj_on_def comp_def)
qed

text \<open>
  The classification on the file system of a test is the classification
  with the mock, when the modules of the functions lie in the working
  directory.
\<close>

lemma findHandlers_mock_fs:
  assumes "list_all valid_name files"
    and "\<And>p. p \<in> set (probes h service) \<Longrightarrow> \<exists>f. p = ''./'' @ f \<and> valid_name f"
  shows "findHandlers (fs_exists (mock_fs files)) h service dr dn =
         findHandlers (mock files) h service dr dn"
proof (rule findHandlers_cong_probes)
  fix p assume "p \<in> set (probes h service)"
  from assms(2) [OF this] obtain f where p: "p = ''./'' @ f" and "valid_name f" by blast
  then show "fs_exists (mock_fs files) p = mock files p"
    unfolding p by (intro mock_fs_exists [OF assms(1)])
qed

text \<open>A test with a TypeScript source beside the module, on the file system.\<close>

lemma mylambda_ts_on_fs:
  "wf_fs (mock_fs [''mylambda.ts'']) \<and>
   findHandlers (fs_exists (mock_fs [''mylambda.ts''])) (heap_of funcs_mylambda)
     (service_of funcs_mylambda None) None None =
   Inr [\<lparr>name = ''func-a'', type = NODE_TS, handler = 0, runtime = Some ''nodejs8.10''\<rparr>]"
proof -
  have files: "list_all valid_name [''mylambda.ts'']"
    by (simp add: valid_name_def)
  have "\<exists>f. p = ''./'' @ f \<and> valid_name f"
    if "p \<in> set (probes (heap_of funcs_mylambda) (service_of funcs_mylambda None))" for p
    using that
    by (auto simp: probes_def fixture_defs handlerPath_of_def valid_name_def)
  from findHandlers_mock_fs [OF files, where h = "heap_of funcs_mylambda"
      and service = "service_of funcs_mylambda None" and dr = None and dn = None, OF this]
  have eq: "findHandlers (fs_exists (mock_fs [''mylambda.ts''])) (heap_of funcs_mylambda)
      (service_of funcs_mylambda None) None None =
    findHandlers (mock [''mylambda.ts'']) (heap_of funcs_mylambda)
      (service_of funcs_mylambda None) None None" .
  show ?thesis
    unfolding eq using mock_fs_wf [OF files] by (simp add: findHandlers_eval fixture_defs)
qed

text \<open>
  C25. Removing a directory does not change the classification when no
  probed source file lies in it: \<open>findHandlers\<close> returns the same on the
  file system that a run of \<open>removeDirectory\<close> leaves as on the one
  before.
\<close>

theorem findHandlers_after_removeDirectory:
  assumes "wf_fs fs" and "removeDirectory n path fs = Some (err, fs')"
    and "\<And>p. p \<in> set (probes h service) \<Longrightarrow> \<not> prefix (components path) (components p)"
  shows "findHandlers (fs_exists fs') h service dr dn =
         findHandlers (fs_exists fs) h service dr dn"
proof (rule findHandlers_cong_probes)
  fix p assume "p \<in> set (probes h service)"
  then have out: "\<not> prefix (components path) (components p)" by (rule assms(3))
  then have "components path \<noteq> []" by auto
  moreover from removeDirectory_result [OF assms(1,2)]
  have "fs' = snd (removeDirectory_spec path fs)" by (metis snd_conv)
  ultimately have "fs' = fs \<or> fs' = remove_tree (components path) fs"
    by (auto simp: removeDirectory_spec_def split: option.splits kind.splits)
  with out show "fs_exists fs' p = fs_exists fs p"
    by (auto simp: fs_exists_def resolve_def lookup_remove_tree)
qed

theorem findHandlers_after_removeDirectory_witness:
  "wf_fs fs_example \<and>
   removeDirectory (enough_fuel fs_example) ''.build'' fs_example =
     Some (None, [([''handler.ts''], RegularFile)]) \<and>
   findHandlers (fs_exists [([''handler.ts''], RegularFile)]) (heap_of funcs_handler)
     (service_of funcs_handler None) None None =
   Inr [\<lparr>name = ''func-a'', type = NODE_TS, handler = 0, runtime = Some ''nodejs12.x''\<rparr>]"
proof -
  have run: "removeDirectory (enough_fuel fs_example) ''.build'' fs_example =
      Some (None, [([''handler.ts''], RegularFile)])"
    by (simp add: removeDirectory_enough_fuel)
  have "\<not> prefix (components ''.build'') (components p)"
    if "p \<in> set (probes (heap_of funcs_handler) (service_of funcs_handler None))" for p
    using that
    by (auto simp: probes_def funcs_handler_def fixture_defs handlerPath_of_def components_def)
  from findHandlers_after_removeDirectory [OF fs_example_wf run this,
      where dr = None and dn = None]
  show ?thesis by (simp add: run handler_run)
qed

end
